theory Spec2Isabelle
  imports Complex_Main "HOL-Library.Word" "HOL-Library.Sublist"
begin

section \<open>Realtime speech service: WAV framing, voice resolution, session orchestration\<close>

text \<open>
  A shallow embedding of \<^verbatim>\<open>server/src/services/realtimeService.ts\<close> and of the
  \<^verbatim>\<open>POST /synthesize\<close> route of \<^verbatim>\<open>server/src/routes/speechRealtime.ts\<close>.

  Conventions.
  \<^item> A Node \<^verbatim>\<open>Buffer\<close> is a list of bytes (\<open>8 word\<close>).
  \<^item> A JavaScript \<^verbatim>\<open>number\<close> that is passed to a buffer write is an exact rational
    (the values in play are far below \<open>2^53\<close>, where doubles are exact on the integers and
    on their eighths); sample rate, channel count and bit depth are integers.
  \<^item> An optional string parameter is a \<open>string option\<close>, \<open>None\<close> being
    \<^verbatim>\<open>undefined\<close>.
  \<^item> A call that ends otherwise than by returning a value is the \<open>Inl\<close> of a sum:
    it throws (its promise rejects), or the process ends under it (\<open>ProcessExit\<close>).
\<close>

subsection \<open>Errors\<close>

datatype error =
    Error string        \<comment> \<open>\<^verbatim>\<open>new Error(message)\<close>\<close>
  | RangeError string   \<comment> \<open>Node's \<^verbatim>\<open>ERR_OUT_OF_RANGE\<close> of a buffer write\<close>
  | TypeError string    \<comment> \<open>Node's \<^verbatim>\<open>ERR_INVALID_ARG_TYPE\<close>\<close>
  | ThrownValue         \<comment> \<open>a thrown value that is not an \<^verbatim>\<open>Error\<close> instance\<close>
  | ProcessExit         \<comment> \<open>no exception: the process has ended, the call never settles\<close>

text \<open>\<^verbatim>\<open>error instanceof Error ? error.message : 'Unknown error'\<close>. No \<^verbatim>\<open>catch\<close>
  sees the end of the process, so the last equation is never asked for.\<close>

fun errorMessage :: "error \<Rightarrow> string" where
  "errorMessage (Error m) = m"
| "errorMessage (RangeError m) = m"
| "errorMessage (TypeError m) = m"
| "errorMessage ThrownValue = ''Unknown error''"
| "errorMessage ProcessExit = []"

subsection \<open>Buffers\<close>

type_synonym byte = "8 word"
type_synonym buffer = "byte list"

definition Buffer_alloc :: "nat \<Rightarrow> buffer" where
  "Buffer_alloc n = replicate n 0"

text \<open>
  \<^verbatim>\<open>buf.write(string, offset)\<close> for an ASCII string: the bytes of the string replace the
  bytes of the buffer from \<open>offset\<close> on, as many as fit.
\<close>

definition buf_write :: "buffer \<Rightarrow> string \<Rightarrow> nat \<Rightarrow> buffer" where
  "buf_write buf s offset =
     take offset buf @ take (length buf - offset) (map of_char s) @ drop (offset + length s) buf"

text \<open>
  \<^verbatim>\<open>buf.writeUInt32LE(value, offset)\<close> and \<^verbatim>\<open>buf.writeUInt16LE(value, offset)\<close>: Node
  checks \<open>min \<le> value \<le> max\<close> on the number as given and throws a \<^verbatim>\<open>RangeError\<close>
  otherwise; the bytes stored are those of the value truncated to an integer, least
  significant first.
\<close>

definition le_bytes :: "nat \<Rightarrow> nat \<Rightarrow> buffer" where
  "le_bytes n v = map (\<lambda>i. word_of_nat (v div 256 ^ i)) [0..<n]"

definition writeUIntLE :: "nat \<Rightarrow> buffer \<Rightarrow> rat \<Rightarrow> nat \<Rightarrow> error + buffer" where
  "writeUIntLE n buf v offset =
     (if v < 0 \<or> v > 2 ^ (8 * n) - 1 then Inl (RangeError ''ERR_OUT_OF_RANGE'')
      else if length buf < offset + n then Inl (RangeError ''ERR_BUFFER_OUT_OF_BOUNDS'')
      else Inr (take offset buf @ le_bytes n (nat \<lfloor>v\<rfloor>) @ drop (offset + n) buf))"

definition writeUInt32LE :: "buffer \<Rightarrow> rat \<Rightarrow> nat \<Rightarrow> error + buffer" where
  "writeUInt32LE = writeUIntLE 4"

definition writeUInt16LE :: "buffer \<Rightarrow> rat \<Rightarrow> nat \<Rightarrow> error + buffer" where
  "writeUInt16LE = writeUIntLE 2"

text \<open>Sequencing of statements that may throw.\<close>

definition andThen :: "error + 'a \<Rightarrow> ('a \<Rightarrow> error + 'b) \<Rightarrow> error + 'b" where
  "andThen r f = (case r of Inl e \<Rightarrow> Inl e | Inr x \<Rightarrow> f x)"

text \<open>
  Reading a header field back, as \<^verbatim>\<open>buf.readUInt32LE(offset)\<close>,
  \<^verbatim>\<open>buf.readUInt16LE(offset)\<close> and \<^verbatim>\<open>buf.toString('ascii', start, end)\<close> do. The
  service never reads a header; these state what a decoder sees.
\<close>

definition readUIntLE :: "nat \<Rightarrow> buffer \<Rightarrow> nat \<Rightarrow> nat" where
  "readUIntLE n buf offset =
     (\<Sum>i \<leftarrow> [0..<n]. unat (buf ! (offset + i)) * 256 ^ i)"

definition readUInt32LE :: "buffer \<Rightarrow> nat \<Rightarrow> nat" where
  "readUInt32LE = readUIntLE 4"

definition readUInt16LE :: "buffer \<Rightarrow> nat \<Rightarrow> nat" where
  "readUInt16LE = readUIntLE 2"

definition buf_slice :: "buffer \<Rightarrow> nat \<Rightarrow> nat \<Rightarrow> buffer" where
  "buf_slice buf start stop = take (stop - start) (drop start buf)"

definition ascii :: "string \<Rightarrow> buffer" where
  "ascii s = map of_char s"

subsection \<open>The WAV header (\<^verbatim>\<open>createWavHeader\<close>)\<close>

definition createWavHeader :: "nat \<Rightarrow> int \<Rightarrow> int \<Rightarrow> int \<Rightarrow> error + buffer" where
  "createWavHeader dataLength sampleRate numChannels bitsPerSample =
     (let header = Buffer_alloc 44;
          header = buf_write header ''RIFF'' 0 in
      andThen (writeUInt32LE header (36 + of_nat dataLength) 4) (\<lambda>header.
      let header = buf_write header ''WAVE'' 8;
          header = buf_write header ''fmt '' 12 in
      andThen (writeUInt32LE header 16 16) (\<lambda>header.
      andThen (writeUInt16LE header 1 20) (\<lambda>header.
      andThen (writeUInt16LE header (of_int numChannels) 22) (\<lambda>header.
      andThen (writeUInt32LE header (of_int sampleRate) 24) (\<lambda>header.
      andThen (writeUInt32LE header
                 (of_int (sampleRate * numChannels * bitsPerSample) / 8) 28) (\<lambda>header.
      andThen (writeUInt16LE header (of_int (numChannels * bitsPerSample) / 8) 32) (\<lambda>header.
      andThen (writeUInt16LE header (of_int bitsPerSample) 34) (\<lambda>header.
      let header = buf_write header ''data'' 36 in
      andThen (writeUInt32LE header (of_nat dataLength) 40) (\<lambda>header.
      Inr header))))))))))"

text \<open>
  The framing step of \<^verbatim>\<open>synthesizeSpeechRealtime\<close>:
  \<^verbatim>\<open>Buffer.concat([createWavHeader(pcm.length, rate, channels, bits), pcm])\<close>.
  The service calls it with \<open>(24000, 1, 16)\<close>.
\<close>

definition wavFrame :: "buffer \<Rightarrow> int \<Rightarrow> int \<Rightarrow> int \<Rightarrow> error + buffer" where
  "wavFrame pcm sampleRate numChannels bitsPerSample =
     andThen (createWavHeader (length pcm) sampleRate numChannels bitsPerSample)
       (\<lambda>wavHeader. Inr (wavHeader @ pcm))"


subsection \<open>Base64 payloads\<close>

text \<open>
  \<^verbatim>\<open>Buffer.from(s, 'base64')\<close> is Node's decoder, not code of the service. Its model:
  decoding stops at the first \<^verbatim>\<open>=\<close>, characters outside the alphabet (standard or
  URL-safe) are skipped, every four sextets give three bytes, and a rest of three or two
  sextets gives two bytes or one.
\<close>

definition unbase64 :: "char \<Rightarrow> nat option" where
  "unbase64 c =
     (let n = (of_char c :: nat) in
      if 65 \<le> n \<and> n \<le> 90 then Some (n - 65)
      else if 97 \<le> n \<and> n \<le> 122 then Some (n - 71)
      else if 48 \<le> n \<and> n \<le> 57 then Some (n + 4)
      else if n = 43 \<or> n = 45 then Some 62
      else if n = 47 \<or> n = 95 then Some 63
      else None)"

fun sextets_bytes :: "nat list \<Rightarrow> buffer" where
  "sextets_bytes (a # b # c # d # rest) =
     word_of_nat (a * 4 + b div 16) # word_of_nat (b mod 16 * 16 + c div 4)
       # word_of_nat (c mod 4 * 64 + d) # sextets_bytes rest"
| "sextets_bytes [a, b, c] =
     [word_of_nat (a * 4 + b div 16), word_of_nat (b mod 16 * 16 + c div 4)]"
| "sextets_bytes [a, b] = [word_of_nat (a * 4 + b div 16)]"
| "sextets_bytes _ = []"

definition base64_decode :: "string \<Rightarrow> buffer" where
  "base64_decode s =
     sextets_bytes (List.map_filter unbase64 (takeWhile (\<lambda>c. c \<noteq> CHR ''='') s))"

subsection \<open>Voice resolution (\<^verbatim>\<open>VOICE_MAP\<close> and the choice of \<^verbatim>\<open>selectedVoice\<close>)\<close>

definition VOICE_MAP :: "(string \<times> string) list" where
  "VOICE_MAP =
     [(''Male'', ''echo''),
      (''Female'', ''alloy''),
      (''JennyNeural'', ''alloy''),
      (''GuyNeural'', ''echo''),
      (''AriaNeural'', ''nova''),
      (''DavisNeural'', ''onyx''),
      (''JaneNeural'', ''shimmer''),
      (''JasonNeural'', ''fable''),
      (''alloy'', ''alloy''),
      (''echo'', ''echo''),
      (''fable'', ''fable''),
      (''onyx'', ''onyx''),
      (''nova'', ''nova''),
      (''shimmer'', ''shimmer'')]"

text \<open>The six voice tokens of the Realtime API, as the header comment of the service lists them.\<close>

definition voiceTokens :: "string list" where
  "voiceTokens = [''alloy'', ''echo'', ''fable'', ''onyx'', ''nova'', ''shimmer'']"

text \<open>
  \<^verbatim>\<open>VOICE_MAP\<close> is an object literal, and \<^verbatim>\<open>VOICE_MAP[key]\<close> is a JavaScript property
  read: an own property gives its string; a key that the literal does not have is looked up
  on \<^verbatim>\<open>Object.prototype\<close>, whose members are functions (and, for \<^verbatim>\<open>__proto__\<close>, the
  prototype object), all of them truthy; any other key gives \<^verbatim>\<open>undefined\<close>.
\<close>

datatype js_value = Undefined | Str string | PrototypeMember string

definition Object_prototype_keys :: "string list" where
  "Object_prototype_keys =
     [''constructor'', ''hasOwnProperty'', ''isPrototypeOf'', ''propertyIsEnumerable'',
      ''toLocaleString'', ''toString'', ''valueOf'', ''__defineGetter__'',
      ''__defineSetter__'', ''__lookupGetter__'', ''__lookupSetter__'', ''__proto__'']"

definition getProperty :: "(string \<times> string) list \<Rightarrow> string \<Rightarrow> js_value" where
  "getProperty obj key =
     (case map_of obj key of
        Some v \<Rightarrow> Str v
      | None \<Rightarrow> if key \<in> set Object_prototype_keys then PrototypeMember key else Undefined)"

fun truthy :: "js_value \<Rightarrow> bool" where
  "truthy Undefined = False"
| "truthy (Str s) = (s \<noteq> [])"
| "truthy (PrototypeMember k) = True"

text \<open>Truthiness of an optional string: \<^verbatim>\<open>undefined\<close> and \<^verbatim>\<open>''\<close> are falsy.\<close>

fun truthyStr :: "string option \<Rightarrow> bool" where
  "truthyStr None = False"
| "truthyStr (Some s) = (s \<noteq> [])"

text \<open>\<^verbatim>\<open>key && VOICE_MAP[key]\<close>, as a condition and as the value then assigned.\<close>

definition mappedVoice :: "string option \<Rightarrow> js_value option" where
  "mappedVoice key =
     (case key of
        None \<Rightarrow> None
      | Some k \<Rightarrow>
          if k \<noteq> [] \<and> truthy (getProperty VOICE_MAP k) then Some (getProperty VOICE_MAP k)
          else None)"

definition selectVoice :: "string option \<Rightarrow> string option \<Rightarrow> js_value" where
  "selectVoice voiceName voiceGender =
     (let selectedVoice = Str ''alloy'' in
      case mappedVoice voiceName of
        Some v \<Rightarrow> v
      | None \<Rightarrow> (case mappedVoice voiceGender of Some v \<Rightarrow> v | None \<Rightarrow> selectedVoice))"


subsection \<open>Configuration (\<^verbatim>\<open>getRealtimeConfig\<close>)\<close>

record config =
  azureOpenAiRealtimeEndpoint :: "string option"
  azureOpenAiRealtimeKey :: "string option"
  azureOpenAiRealtimeDeployment :: "string option"

record RealtimeConfig =
  endpoint :: string
  apiKey :: string
  deployment :: string

definition getRealtimeConfig :: "config \<Rightarrow> error + RealtimeConfig" where
  "getRealtimeConfig config =
     (case (azureOpenAiRealtimeEndpoint config, azureOpenAiRealtimeKey config) of
        (Some e, Some k) \<Rightarrow>
          if e = [] \<or> k = [] then
            Inl (Error ''Azure OpenAI Realtime endpoint and API key are required for Realtime API'')
          else
            Inr \<lparr>endpoint = e, apiKey = k,
                 deployment =
                   (case azureOpenAiRealtimeDeployment config of
                      None \<Rightarrow> ''gpt-realtime''
                    | Some d \<Rightarrow> if d = [] then ''gpt-realtime'' else d)\<rparr>
      | _ \<Rightarrow>
          Inl (Error ''Azure OpenAI Realtime endpoint and API key are required for Realtime API''))"

text \<open>\<^verbatim>\<open>deployment.startsWith('gpt-realtime') && !deployment.includes('preview')\<close>\<close>

definition isGAModel :: "string \<Rightarrow> bool" where
  "isGAModel d = (prefix ''gpt-realtime'' d \<and> \<not> sublist ''preview'' d)"

subsection \<open>Events, commands and the state of one request\<close>

text \<open>
  An inbound provider message, parsed: its \<^verbatim>\<open>type\<close> and the fields the handlers read
  (\<^verbatim>\<open>delta\<close>, \<^verbatim>\<open>transcript\<close>, \<^verbatim>\<open>error.message\<close>), each absent or present.
\<close>

record event =
  ev_type :: string
  ev_delta :: "string option"
  ev_transcript :: "string option"
  ev_error_message :: "string option"

text \<open>
  What the transport reports: the socket opened, a message arrived, the socket failed.
  (The socket's \<^verbatim>\<open>close\<close> notification is forwarded to \<^verbatim>\<open>close\<close> listeners, of which the
  service registers none; it is left out.)
\<close>

datatype sock_event = SockOpen | SockMessage event | SockError string

text \<open>What a listener is called with: a provider event, or an \<^verbatim>\<open>Error\<close> object with
  its message (the transport's error; in the SDK's client also the error it makes of a
  provider event of type \<^verbatim>\<open>error\<close>).\<close>

datatype payload = ServerEvent event | SocketError string

text \<open>The outbound commands the service sends (\<^verbatim>\<open>connection.send({type: ...})\<close>).\<close>

datatype command =
    ConversationItemCreate string  \<comment> \<open>a user message with one \<^verbatim>\<open>input_text\<close> part\<close>
  | ResponseCreate
  | InputAudioBufferAppend string
  | InputAudioBufferCommit

text \<open>
  The closures registered with \<^verbatim>\<open>on\<close>, one constructor per closure of the source:
  those of \<^verbatim>\<open>createRealtimeClient\<close> (GA branch and Preview branch), of
  \<^verbatim>\<open>synthesizeSpeechRealtime\<close> and of \<^verbatim>\<open>recognizeSpeechRealtime\<close>.
\<close>

datatype handler =
    OpenSessionCreated | OpenErrorLog
  | PreviewError | PreviewSessionCreated
  | TtsError | TtsAudioDelta | TtsResponseDone | TtsLogAll
  | SttError | SttSessionUpdated | SttTranscription

datatype variant = GA | Preview

text \<open>
  The state one request runs in.
  \<^item> \<open>now\<close> is \<^verbatim>\<open>Date.now()\<close> in milliseconds. Code between two waits takes no time.
  \<^item> \<open>script\<close> is the scripted transport: what the socket will report, in order, each
    report with the time from which it is available.
  \<^item> \<open>timerLag\<close> gives, for each timer set in turn, how late it fires (none left: on time).
  \<^item> \<open>audioChars\<close> is the telemetry counter, \<open>sockets\<close> counts the transports created,
    \<open>closeCalls\<close> the calls of \<^verbatim>\<open>close()\<close>, \<open>sent\<close> the commands sent.
  \<^item> \<open>socketOpen\<close>: the socket of the current client has opened (it is connecting
    before).
  \<^item> \<open>listeners\<close> is the client's \<^verbatim>\<open>_listeners\<close> map, \<open>settled\<close> the promise of
    \<^verbatim>\<open>createRealtimeClient\<close> (unsettled, resolved or rejected).
  \<^item> \<open>uncaught\<close>: an exception has left an event callback. Node ends the process
    there: from then on nothing is delivered, no wait resumes, and the request under way
    never settles (\<open>ProcessExit\<close>; \<open>None\<close> where the result is optional), its
    \<^verbatim>\<open>catch\<close> and \<^verbatim>\<open>finally\<close> not run. A request starts in a process that is alive.
  \<^item> The last four fields are the local variables the closures write.
\<close>

record world =
  now :: nat
  script :: "(nat \<times> sock_event) list"
  timerLag :: "nat list"
  audioChars :: nat
  sockets :: nat
  closeCalls :: nat
  sent :: "command list"
  clientVariant :: variant
  socketOpen :: bool
  listeners :: "string \<Rightarrow> handler list"
  settled :: "(error + unit) option"
  uncaught :: bool
  audioChunks :: "buffer list"
  responseDone :: bool
  transcriptText :: "string option"
  sessionConfigured :: bool

text \<open>
  Modelled from the spec: \<^verbatim>\<open>statsService.recordAudioChars\<close> is not among the sources; the
  spec has each invocation increment a process-wide character-count counter.
\<close>

definition recordAudioChars :: "nat \<Rightarrow> world \<Rightarrow> world" where
  "recordAudioChars n w = w\<lparr>audioChars := audioChars w + n\<rparr>"

subsection \<open>The session client: \<^verbatim>\<open>on\<close>, \<^verbatim>\<open>send\<close>, \<^verbatim>\<open>close\<close> and dispatch\<close>

definition on :: "string \<Rightarrow> handler \<Rightarrow> world \<Rightarrow> world" where
  "on ev h w = w\<lparr>listeners := (listeners w)(ev := listeners w ev @ [h])\<rparr>"

definition send :: "command \<Rightarrow> world \<Rightarrow> world" where
  "send c w = w\<lparr>sent := sent w @ [c]\<rparr>"

definition close :: "world \<Rightarrow> world" where
  "close w = w\<lparr>closeCalls := closeCalls w + 1\<rparr>"

text \<open>\<^verbatim>\<open>resolve\<close> and \<^verbatim>\<open>reject\<close>: a promise settles once.\<close>

definition settle :: "error + unit \<Rightarrow> world \<Rightarrow> world" where
  "settle r w = (if settled w = None then w\<lparr>settled := Some r\<rparr> else w)"

text \<open>The error a listener of \<^verbatim>\<open>error\<close> receives, as the value it would throw or reject with.\<close>

fun payloadError :: "payload \<Rightarrow> error" where
  "payloadError (SocketError m) = Error m"
| "payloadError (ServerEvent ev) = ThrownValue"

text \<open>One call of a closure: \<open>Inl\<close> when it throws.\<close>

fun runHandler :: "handler \<Rightarrow> payload \<Rightarrow> world \<Rightarrow> error + world" where
  "runHandler OpenSessionCreated p w = Inr (settle (Inr ()) w)"
| "runHandler OpenErrorLog p w = Inr w"
| "runHandler PreviewError p w = Inr (settle (Inl (payloadError p)) w)"
| "runHandler PreviewSessionCreated p w = Inr (settle (Inr ()) w)"
| "runHandler TtsError p w = Inl (payloadError p)"
| "runHandler TtsAudioDelta (ServerEvent ev) w =
     (case ev_delta ev of
        None \<Rightarrow> Inl (TypeError ''ERR_INVALID_ARG_TYPE'')
      | Some d \<Rightarrow> Inr (w\<lparr>audioChunks := audioChunks w @ [base64_decode d]\<rparr>))"
| "runHandler TtsAudioDelta (SocketError m) w = Inl (TypeError ''ERR_INVALID_ARG_TYPE'')"
| "runHandler TtsResponseDone p w = Inr (w\<lparr>responseDone := True\<rparr>)"
| "runHandler TtsLogAll p w = Inr w"
| "runHandler SttError p w = Inl (payloadError p)"
| "runHandler SttSessionUpdated p w = Inr (w\<lparr>sessionConfigured := True\<rparr>)"
| "runHandler SttTranscription (ServerEvent ev) w = Inr (w\<lparr>transcriptText := ev_transcript ev\<rparr>)"
| "runHandler SttTranscription (SocketError m) w = Inr (w\<lparr>transcriptText := None\<rparr>)"

text \<open>\<^verbatim>\<open>handlers.forEach(handler => handler(event))\<close>: in order, up to the first throw.\<close>

fun forEach :: "handler list \<Rightarrow> payload \<Rightarrow> world \<Rightarrow> error option \<times> world" where
  "forEach [] p w = (None, w)"
| "forEach (h # hs) p w =
     (case runHandler h p w of
        Inl e \<Rightarrow> (Some e, w)
      | Inr w' \<Rightarrow> forEach hs p w')"

text \<open>
  \<^verbatim>\<open>socket.on('message', ...)\<close> of the GA branch: the listeners of the event's type, then
  the listeners of \<^verbatim>\<open>server.*\<close>, inside one \<^verbatim>\<open>try\<close>; a throw is caught and logged, and
  ends the dispatch of this message.
\<close>

definition onMessage :: "event \<Rightarrow> world \<Rightarrow> world" where
  "onMessage ev w =
     (case forEach (listeners w (ev_type ev)) (ServerEvent ev) w of
        (Some e, w') \<Rightarrow> w'
      | (None, w') \<Rightarrow> snd (forEach (listeners w' ''server.*'') (ServerEvent ev) w'))"

text \<open>
  The client of the Preview branch is the SDK's \<^verbatim>\<open>OpenAIRealtimeWS\<close> (package
  \<^verbatim>\<open>openai\<close>), which is not code of the service. Its emitter calls the listeners of the
  event's type in the order of registration, outside any \<^verbatim>\<open>try\<close>: a throw there leaves
  the callback of the socket. It has no wildcard. A provider event of type \<^verbatim>\<open>error\<close>
  reaches the \<^verbatim>\<open>error\<close> listeners as an \<^verbatim>\<open>Error\<close> object, whose message starts with
  the message of the event (the SDK appends the code, the parameter, the type and the id of
  the error, which the events of the model do not carry).
\<close>

definition sdkErrorText :: "event \<Rightarrow> string" where
  "sdkErrorText ev = (case ev_error_message ev of None \<Rightarrow> ''undefined'' | Some m \<Rightarrow> m)"

definition sdkMessage :: "event \<Rightarrow> world \<Rightarrow> world" where
  "sdkMessage ev w =
     (let p = (if ev_type ev = ''error'' then SocketError (sdkErrorText ev) else ServerEvent ev)
      in case forEach (listeners w (ev_type ev)) p w of
           (Some e, w') \<Rightarrow> w'\<lparr>uncaught := True\<rparr>
         | (None, w') \<Rightarrow> w')"

text \<open>
  \<^verbatim>\<open>socket.on('error', ...)\<close>. The first listener of the socket hands the error to the
  client's \<^verbatim>\<open>error\<close> listeners, outside any \<^verbatim>\<open>try\<close>: a throw there leaves the callback,
  and the process ends. The second one, set by the promise of the GA branch, clears the
  timer, closes the socket and rejects. (The SDK's client does as the first listener does.)
\<close>

definition onError :: "string \<Rightarrow> world \<Rightarrow> world" where
  "onError m w =
     (case forEach (listeners w ''error'') (SocketError m) w of
        (Some e, w') \<Rightarrow> w'\<lparr>uncaught := True\<rparr>
      | (None, w') \<Rightarrow>
          (case clientVariant w' of
             GA \<Rightarrow> settle (Inl (Error m)) (close w')
           | Preview \<Rightarrow> w'))"

text \<open>The socket opens. \<^verbatim>\<open>socket.on('open', ...)\<close> of the GA branch registers the two
  listeners of the handshake.\<close>

definition onOpen :: "world \<Rightarrow> world" where
  "onOpen w =
     (case clientVariant w of
        GA \<Rightarrow> on ''error'' OpenErrorLog
                (on ''session.created'' OpenSessionCreated (w\<lparr>socketOpen := True\<rparr>))
      | Preview \<Rightarrow> w\<lparr>socketOpen := True\<rparr>)"

text \<open>One report of the transport, in a process that is still alive.\<close>

definition onSocketEvent :: "sock_event \<Rightarrow> world \<Rightarrow> world" where
  "onSocketEvent e w =
     (if uncaught w then w
      else case e of
        SockOpen \<Rightarrow> onOpen w
      | SockMessage ev \<Rightarrow>
          (case clientVariant w of GA \<Rightarrow> onMessage ev w | Preview \<Rightarrow> sdkMessage ev w)
      | SockError m \<Rightarrow> onError m w)"

subsection \<open>Timers\<close>

text \<open>
  \<^verbatim>\<open>await new Promise(resolve => setTimeout(resolve, ms))\<close>: the timer fires at
  \<open>now + ms\<close> plus its lag; what the transport has available before that moment is
  delivered first, in order; then the caller resumes. (In a process that has ended nothing
  is delivered, and the callers below do not resume.)
\<close>

definition nextLag :: "world \<Rightarrow> nat" where
  "nextLag w = (case timerLag w of [] \<Rightarrow> 0 | l # _ \<Rightarrow> l)"

definition due :: "nat \<Rightarrow> nat \<times> 'a \<Rightarrow> bool" where
  "due deadline te = (fst te < deadline)"

definition deliver :: "sock_event list \<Rightarrow> world \<Rightarrow> world" where
  "deliver es w = foldl (\<lambda>w e. onSocketEvent e w) w es"

definition sleep :: "nat \<Rightarrow> world \<Rightarrow> world" where
  "sleep ms w =
     (let deadline = now w + ms + nextLag w;
          arrived = takeWhile (due deadline) (script w);
          w1 = w\<lparr>timerLag := tl (timerLag w), script := dropWhile (due deadline) (script w)\<rparr>
      in (deliver (map snd arrived) w1)\<lparr>now := deadline\<rparr>)"


subsection \<open>Opening a session (\<^verbatim>\<open>createRealtimeClient\<close>)\<close>

text \<open>
  The callback of the 10 second timer: the GA branch closes the socket and rejects, the
  Preview branch rejects. The socket of the GA branch is one of the package \<^verbatim>\<open>ws\<close>, which
  answers the \<^verbatim>\<open>close()\<close> of a socket that is still connecting with an \<^verbatim>\<open>error\<close>
  report; the listeners of the socket handle it as any other, so the second one calls
  \<^verbatim>\<open>close()\<close> once more (its \<^verbatim>\<open>reject\<close> comes too late to count).
\<close>

definition openTimeout :: "world \<Rightarrow> world" where
  "openTimeout w =
     (case clientVariant w of
        GA \<Rightarrow>
          (let w = settle
                     (Inl (Error ''WebSocket connection timeout - did not receive session.created''))
                     (close w)
           in if socketOpen w then w
              else onSocketEvent
                     (SockError ''WebSocket was closed before the connection was established'') w)
      | Preview \<Rightarrow> settle (Inl (Error ''WebSocket connection timeout'')) w)"

text \<open>
  The reports that the transport has read by now are dispatched in the same turn of the
  event loop, one after the other, before any continuation of a promise runs.
\<close>

definition sameRead :: "world \<Rightarrow> world" where
  "sameRead w =
     (let arrived = takeWhile (due (now w + 1)) (script w)
      in deliver (map snd arrived) (w\<lparr>script := dropWhile (due (now w + 1)) (script w)\<rparr>))"

text \<open>
  Awaiting the promise: the transport's reports are handled one by one, each at the moment
  it is available, until the promise is settled; a report that is not available before the
  timer is due leaves the turn to the timer. The caller resumes after the turn in which the
  promise settles: the reports read together with the settling one have been dispatched by
  then, to the listeners of the handshake, the caller's not being registered yet.
\<close>

fun awaitSettled :: "nat \<Rightarrow> (nat \<times> sock_event) list \<Rightarrow> world \<Rightarrow> world" where
  "awaitSettled deadline [] w = openTimeout (w\<lparr>script := [], now := deadline\<rparr>)"
| "awaitSettled deadline ((t, e) # rest) w =
     (if t < deadline then
        (let w' = onSocketEvent e (w\<lparr>script := rest, now := max (now w) t\<rparr>) in
         if settled w' = None then awaitSettled deadline rest w' else sameRead w')
      else openTimeout (w\<lparr>script := (t, e) # rest, now := deadline\<rparr>))"

text \<open>
  Both branches create one transport and a client with no listeners. The GA branch builds
  the socket itself and registers its handshake listeners when the socket opens; the
  Preview branch takes the client of the SDK and registers \<^verbatim>\<open>error\<close> and
  \<^verbatim>\<open>session.created\<close> at once.
\<close>

definition createRealtimeClient :: "config \<Rightarrow> world \<Rightarrow> (error + unit) \<times> world" where
  "createRealtimeClient config w =
     (case getRealtimeConfig config of
        Inl e \<Rightarrow> (Inl e, w)
      | Inr c \<Rightarrow>
          (let v = (if isGAModel (deployment c) then GA else Preview);
               client = w\<lparr>sockets := sockets w + 1, clientVariant := v, socketOpen := False,
                          listeners := (\<lambda>_. []), settled := None\<rparr>;
               client = (case v of
                           GA \<Rightarrow> client
                         | Preview \<Rightarrow>
                             on ''session.created'' PreviewSessionCreated
                               (on ''error'' PreviewError client));
               deadline = now w + 10000 + nextLag w;
               w' = awaitSettled deadline (script w) (client\<lparr>timerLag := tl (timerLag w)\<rparr>)
           in case settled w' of
                Some (Inl e) \<Rightarrow> (Inl e, w')
              | _ \<Rightarrow> (Inr (), w')))"

subsection \<open>Session configuration (\<^verbatim>\<open>configureRealtimeSession\<close>)\<close>

text \<open>Two log lines and \<^verbatim>\<open>return Promise.resolve()\<close>: nothing is sent.\<close>

definition configureRealtimeSession :: "js_value \<Rightarrow> world \<Rightarrow> world" where
  "configureRealtimeSession voice w = w"

subsection \<open>Synthesis (\<^verbatim>\<open>synthesizeSpeechRealtime\<close>)\<close>

text \<open>\<^verbatim>\<open>while (!responseDone && (Date.now() - startWait) < timeout) await sleep(100)\<close>,
  in a process that is alive: once it has ended the loop is not resumed.\<close>

function waitResponseDone :: "nat \<Rightarrow> world \<Rightarrow> world" where
  "waitResponseDone startWait w =
     (if uncaught w then w
      else if \<not> responseDone w \<and> now w - startWait < 30000
      then waitResponseDone startWait (sleep 100 w)
      else w)"
  by pat_completeness auto
termination
  by (relation "measure (\<lambda>(startWait, w). startWait + 30000 - now w)")
     (auto simp: sleep_def Let_def)

declare waitResponseDone.simps [simp del]

text \<open>The one console line that shows the resolved voice
  (\<^verbatim>\<open>Synthesizing text (n chars) with voice: v\<close>); the other log lines are left out.\<close>

datatype log_line = LogSynthesizing nat js_value

definition synthesisFailed :: "error \<Rightarrow> error" where
  "synthesisFailed e = Error (''Speech synthesis failed: '' @ errorMessage e)"

text \<open>The state after the declarations that precede the \<^verbatim>\<open>try\<close>: telemetry recorded,
  no chunk yet, no completion yet.\<close>

definition beginSynthesis :: "string \<Rightarrow> world \<Rightarrow> world" where
  "beginSynthesis t w = (recordAudioChars (length t) w)\<lparr>audioChunks := [], responseDone := False\<rparr>"

text \<open>
  The body of the \<^verbatim>\<open>try\<close> from the first \<^verbatim>\<open>connection.on\<close> to the \<^verbatim>\<open>return\<close>, with
  the \<^verbatim>\<open>catch\<close> and the \<^verbatim>\<open>finally\<close>: the part that runs on an open session. When
  the process ends during the wait, nothing of what follows the wait is run: no timeout
  error, no frame, no \<^verbatim>\<open>close()\<close>.
\<close>

definition synthesisOnSession :: "string \<Rightarrow> js_value \<Rightarrow> world \<Rightarrow> (error + buffer) \<times> world" where
  "synthesisOnSession t selectedVoice w =
     (let w = on ''error'' TtsError w;
          w = on ''response.output_audio.delta'' TtsAudioDelta w;
          w = on ''response.done'' TtsResponseDone w;
          w = on ''server.*'' TtsLogAll w;
          w = configureRealtimeSession selectedVoice w;
          w = send (ConversationItemCreate t) w;
          w = send ResponseCreate w;
          startWait = now w;
          w = waitResponseDone startWait w
      in if uncaught w then (Inl ProcessExit, w)
         else if \<not> responseDone w then
           (Inl (synthesisFailed (Error ''Synthesis timeout - no response received'')), close w)
         else
           let pcmAudioBuffer = concat (audioChunks w)
           in case wavFrame pcmAudioBuffer 24000 1 16 of
                Inl e \<Rightarrow> (Inl (synthesisFailed e), close w)
              | Inr audioBuffer \<Rightarrow> (Inr audioBuffer, close w))"

definition synthesizeSpeechRealtime ::
  "config \<Rightarrow> string option \<Rightarrow> string option \<Rightarrow> string option \<Rightarrow> world
     \<Rightarrow> (error + buffer) \<times> log_line list \<times> world" where
  "synthesizeSpeechRealtime config text voiceName voiceGender w =
     (if \<not> truthyStr text then (Inl (Error ''No text provided for synthesis''), [], w)
      else
        let t = (case text of Some t \<Rightarrow> t | None \<Rightarrow> []);
            w = beginSynthesis t w;
            selectedVoice = selectVoice voiceName voiceGender;
            logged = [LogSynthesizing (length t) selectedVoice]
        in case createRealtimeClient config w of
             (Inl e, w) \<Rightarrow> (Inl (synthesisFailed e), logged, w)
           | (Inr connection, w) \<Rightarrow>
               (case synthesisOnSession t selectedVoice w of (r, w) \<Rightarrow> (r, logged, w)))"

subsection \<open>Recognition (\<^verbatim>\<open>recognizeSpeechRealtime\<close>)\<close>

text \<open>\<^verbatim>\<open>while (!sessionConfigured) await sleep(50)\<close>: a loop with no deadline, so its model
  may not return (\<open>None\<close>); nor does it when the process ends.\<close>

partial_function (option) waitSessionConfigured :: "world \<Rightarrow> world option" where
  "waitSessionConfigured w =
     (if uncaught w then None
      else if \<not> sessionConfigured w then waitSessionConfigured (sleep 50 w) else Some w)"

text \<open>\<^verbatim>\<open>while (!transcriptText && (Date.now() - startWait) < timeout) await sleep(100)\<close>,
  in a process that is alive.\<close>

function waitTranscript :: "nat \<Rightarrow> world \<Rightarrow> world" where
  "waitTranscript startWait w =
     (if uncaught w then w
      else if \<not> truthyStr (transcriptText w) \<and> now w - startWait < 10000
      then waitTranscript startWait (sleep 100 w)
      else w)"
  by pat_completeness auto
termination
  by (relation "measure (\<lambda>(startWait, w). startWait + 10000 - now w)")
     (auto simp: sleep_def Let_def)

declare waitTranscript.simps [simp del]

definition recognitionFailed :: "error \<Rightarrow> error" where
  "recognitionFailed e = Error (''Speech recognition failed: '' @ errorMessage e)"

text \<open>The body of the \<^verbatim>\<open>try\<close> on an open session, with the \<^verbatim>\<open>catch\<close> and the
  \<^verbatim>\<open>finally\<close>. The result is \<open>None\<close> when the call never settles: it never gets past
  the wait for the configuration, or the process ends during one of the waits.\<close>

definition recognitionOnSession :: "string \<Rightarrow> world \<Rightarrow> ((error + string) \<times> world) option" where
  "recognitionOnSession a w =
     (let w = on ''error'' SttError w;
          w = on ''session.updated'' SttSessionUpdated w;
          w = on ''conversation.item.input_audio_transcription.completed'' SttTranscription w;
          w = configureRealtimeSession (Str ''alloy'') w
      in case waitSessionConfigured w of
           None \<Rightarrow> None
         | Some w \<Rightarrow>
             let w = send (InputAudioBufferAppend a) w;
                 w = send InputAudioBufferCommit w;
                 startWait = now w;
                 w = waitTranscript startWait w
             in if uncaught w then None
                else (case transcriptText w of
                   Some (c # cs) \<Rightarrow> Some (Inr (c # cs), close w)
                 | _ \<Rightarrow>
                     Some (Inl (recognitionFailed
                             (Error ''Transcription timeout - no response received'')),
                           close w)))"

definition recognizeSpeechRealtime ::
  "config \<Rightarrow> string option \<Rightarrow> world \<Rightarrow> ((error + string) \<times> world) option" where
  "recognizeSpeechRealtime config audioData w =
     (if \<not> truthyStr audioData then Some (Inl (Error ''No audio data provided''), w)
      else
        let a = (case audioData of Some a \<Rightarrow> a | None \<Rightarrow> []);
            w = w\<lparr>transcriptText := Some [], sessionConfigured := False\<rparr>
        in case createRealtimeClient config w of
             (Inl e, w) \<Rightarrow> Some (Inl (recognitionFailed e), w)
           | (Inr connection, w) \<Rightarrow> recognitionOnSession a w)"

subsection \<open>The route \<^verbatim>\<open>POST /synthesize\<close>\<close>

record synthesize_body =
  body_text :: "string option"
  body_voiceGender :: "string option"
  body_voiceName :: "string option"

datatype response =
    SendAudio string buffer     \<comment> \<open>content type and body\<close>
  | Status500 string string     \<comment> \<open>\<^verbatim>\<open>error\<close> and \<^verbatim>\<open>details\<close>\<close>
  | NoResponse                  \<comment> \<open>the process ended before the route answered\<close>

definition postSynthesize ::
  "config \<Rightarrow> synthesize_body \<Rightarrow> world \<Rightarrow> response \<times> log_line list \<times> world" where
  "postSynthesize config body w =
     (case synthesizeSpeechRealtime config
             (body_text body) (body_voiceGender body) (body_voiceName body) w of
        (Inr audioBuffer, logged, w') \<Rightarrow> (SendAudio ''audio/wav'' audioBuffer, logged, w')
      | (Inl e, logged, w') \<Rightarrow>
          (if e = ProcessExit then NoResponse
           else Status500 ''Speech synthesis failed (Realtime API)'' (errorMessage e),
           logged, w'))"


subsection \<open>Scripts\<close>

text \<open>The types of the provider events among the reports of a transport, in order, and
  those of a script.\<close>

definition eventTypes :: "sock_event list \<Rightarrow> string list" where
  "eventTypes es = concat (map (\<lambda>e. case e of SockMessage ev \<Rightarrow> [ev_type ev] | _ \<Rightarrow> []) es)"

definition messageTypes :: "(nat \<times> sock_event) list \<Rightarrow> string list" where
  "messageTypes s = eventTypes (map snd s)"

text \<open>A script that delivers provider events only, each at its time.\<close>

definition messages :: "(nat \<times> event) list \<Rightarrow> (nat \<times> sock_event) list" where
  "messages s = map (\<lambda>te. (fst te, SockMessage (snd te))) s"

subsection \<open>Notions used in the proofs\<close>

text \<open>A closure that is registered under one event type only.\<close>

definition onlyUnder :: "handler \<Rightarrow> string \<Rightarrow> world \<Rightarrow> bool" where
  "onlyUnder h key w = (\<forall>k. h \<in> set (listeners w k) \<longrightarrow> k = key)"

text \<open>The closures of the handshake, and a client that has no others registered.\<close>

definition handshakeHandlers :: "handler set" where
  "handshakeHandlers = {OpenSessionCreated, OpenErrorLog, PreviewError, PreviewSessionCreated}"

definition handshakeOnly :: "world \<Rightarrow> bool" where
  "handshakeOnly w = (\<forall>k. set (listeners w k) \<subseteq> handshakeHandlers)"

text \<open>The state at the start of the wait: the four listeners registered, the two commands sent.\<close>

definition listening :: "string \<Rightarrow> world \<Rightarrow> world" where
  "listening t w1 =
     send ResponseCreate (send (ConversationItemCreate t)
       (on ''server.*'' TtsLogAll (on ''response.done'' TtsResponseDone
         (on ''response.output_audio.delta'' TtsAudioDelta (on ''error'' TtsError w1)))))"

text \<open>What a message does to a session whose handshake is over and on which the synthesis
  has registered its listeners.\<close>

definition synthStep :: "event \<Rightarrow> world \<Rightarrow> world" where
  "synthStep ev w =
     (if ev_type ev = ''response.done'' then w\<lparr>responseDone := True\<rparr>
      else if ev_type ev = ''response.output_audio.delta'' then
        (case ev_delta ev of
           None \<Rightarrow> w
         | Some d \<Rightarrow> w\<lparr>audioChunks := audioChunks w @ [base64_decode d]\<rparr>)
      else w)"

text \<open>The events on which no listener of the synthesis throws: not of type \<open>error\<close>, and
  an audio delta only with its payload.\<close>

definition quiet :: "event \<Rightarrow> bool" where
  "quiet ev = (ev_type ev \<noteq> ''error''
     \<and> (ev_type ev = ''response.output_audio.delta'' \<longrightarrow> ev_delta ev \<noteq> None))"

text \<open>The chunks that a run of messages carries: the decoded payloads of its audio-delta
  events, in order.\<close>

fun deltaChunks :: "event list \<Rightarrow> buffer list" where
  "deltaChunks [] = []"
| "deltaChunks (ev # evs) =
     (if ev_type ev = ''response.output_audio.delta'' then
        (case ev_delta ev of None \<Rightarrow> [] | Some d \<Rightarrow> [base64_decode d])
      else []) @ deltaChunks evs"

subsection \<open>Concrete inputs\<close>

text \<open>A process at time 0 with nothing scripted, a GA configuration, a Preview
  configuration, and the provider events the service listens for.\<close>

definition idle :: world where
  "idle = \<lparr>now = 0, script = [], timerLag = [], audioChars = 0, sockets = 0, closeCalls = 0,
     sent = [], clientVariant = GA, socketOpen = False, listeners = (\<lambda>_. []),
     settled = None, uncaught = False,
     audioChunks = [], responseDone = False, transcriptText = None,
     sessionConfigured = False\<rparr>"

definition gaConfig :: config where
  "gaConfig = \<lparr>azureOpenAiRealtimeEndpoint = Some ''https://example.openai.azure.com/'',
     azureOpenAiRealtimeKey = Some ''key'', azureOpenAiRealtimeDeployment = None\<rparr>"

definition previewConfig :: config where
  "previewConfig = \<lparr>azureOpenAiRealtimeEndpoint = Some ''https://example.openai.azure.com/'',
     azureOpenAiRealtimeKey = Some ''key'',
     azureOpenAiRealtimeDeployment = Some ''gpt-4o-realtime-preview''\<rparr>"

definition plainEvent :: "string \<Rightarrow> event" where
  "plainEvent ty = \<lparr>ev_type = ty, ev_delta = None, ev_transcript = None,
     ev_error_message = None\<rparr>"

definition audioDelta :: "string \<Rightarrow> event" where
  "audioDelta d = \<lparr>ev_type = ''response.output_audio.delta'', ev_delta = Some d,
     ev_transcript = None, ev_error_message = None\<rparr>"


text \<open>Base64 texts of 100, 200 and 50 bytes, and a session that opens at time 20, delivers
  them as three audio chunks and then completes.\<close>

definition chunk100 :: string where
  "chunk100 = replicate 134 CHR ''A'' @ ''==''"

definition chunk200 :: string where
  "chunk200 = replicate 267 CHR ''B'' @ ''=''"

definition chunk50 :: string where
  "chunk50 = replicate 67 CHR ''C'' @ ''=''"

definition threeChunkSession :: world where
  "threeChunkSession = idle\<lparr>script :=
     [(5, SockOpen),
      (20, SockMessage (plainEvent ''session.created'')),
      (130, SockMessage (audioDelta chunk100)),
      (250, SockMessage (audioDelta chunk200)),
      (260, SockMessage (audioDelta chunk50)),
      (300, SockMessage (plainEvent ''response.done''))]\<rparr>"

text \<open>A session that opens at time 20 and completes a response without any audio.\<close>

definition noAudioSession :: world where
  "noAudioSession = idle\<lparr>script :=
     [(5, SockOpen),
      (20, SockMessage (plainEvent ''session.created'')),
      (130, SockMessage (plainEvent ''response.created'')),
      (200, SockMessage (plainEvent ''response.done'')),
      (210, SockMessage (plainEvent ''rate_limits.updated''))]\<rparr>"

text \<open>A session that opens at time 20 and whose transport fails at time 130; a Preview
  session that opens at time 20 and reports a provider error at time 130; and a session
  whose provider sends a chunk and the completion together with \<open>session.created\<close>.\<close>

definition brokenSession :: world where
  "brokenSession = idle\<lparr>script :=
     [(5, SockOpen),
      (20, SockMessage (plainEvent ''session.created'')),
      (130, SockError ''read ECONNRESET'')]\<rparr>"

definition previewErrorSession :: world where
  "previewErrorSession = idle\<lparr>script :=
     [(5, SockOpen),
      (20, SockMessage (plainEvent ''session.created'')),
      (130, SockMessage ((plainEvent ''error'')\<lparr>ev_error_message := Some ''rate limit''\<rparr>))]\<rparr>"

definition hastySession :: world where
  "hastySession = idle\<lparr>script :=
     [(5, SockOpen),
      (20, SockMessage (plainEvent ''session.created'')),
      (20, SockMessage (audioDelta ''AAEC'')),
      (20, SockMessage (plainEvent ''response.done''))]\<rparr>"

text \<open>A session that opens at time 20 and then delivers nothing.\<close>

definition openOnlySession :: world where
  "openOnlySession = idle\<lparr>script :=
     [(5, SockOpen),
      (20, SockMessage (plainEvent ''session.created''))]\<rparr>"

section \<open>Properties\<close>

subsection \<open>The WAV header\<close>

lemma le_bytes4: "le_bytes 4 v = [word_of_nat v, word_of_nat (v div 256), word_of_nat (v div 65536), word_of_nat (v div 16777216)]"
  unfolding le_bytes_def by (simp add: upt_conv_Cons)

lemma le_bytes2: "le_bytes 2 v = [word_of_nat v, word_of_nat (v div 256)]"
  unfolding le_bytes_def by (simp add: upt_conv_Cons)

lemma createWavHeader_closed:
  assumes dl: "dataLength \<le> 4294967259"
    and nc: "0 \<le> numChannels" "numChannels \<le> 65535"
    and sr: "0 \<le> sampleRate" "sampleRate \<le> 4294967295"
    and bps: "0 \<le> bitsPerSample" "bitsPerSample \<le> 65535"
    and br: "sampleRate * numChannels * bitsPerSample = 8 * byteRate" "byteRate \<le> 4294967295"
    and ba: "numChannels * bitsPerSample = 8 * blockAlign" "blockAlign \<le> 65535"
  shows "createWavHeader dataLength sampleRate numChannels bitsPerSample =
     Inr (ascii ''RIFF'' @ le_bytes 4 (36 + dataLength) @ ascii ''WAVE'' @ ascii ''fmt '' @
          le_bytes 4 16 @ le_bytes 2 1 @ le_bytes 2 (nat numChannels) @
          le_bytes 4 (nat sampleRate) @ le_bytes 4 (nat byteRate) @
          le_bytes 2 (nat blockAlign) @ le_bytes 2 (nat bitsPerSample) @
          ascii ''data'' @ le_bytes 4 dataLength)"
proof -
  have br0: "0 \<le> byteRate" using br(1) nc(1) sr(1) bps(1)
    by (smt (verit) mult_nonneg_nonneg)
  have ba0: "0 \<le> blockAlign" using ba(1) nc(1) bps(1)
    by (smt (verit) mult_nonneg_nonneg)
  have q1: "rat_of_int (sampleRate * numChannels * bitsPerSample) / 8 = of_int byteRate"
    unfolding br(1) by simp
  have q2: "rat_of_int (numChannels * bitsPerSample) / 8 = of_int blockAlign"
    unfolding ba(1) by simp
  show ?thesis
    unfolding createWavHeader_def Let_def q1 q2
    using dl nc sr bps br(2) ba(2) br0 ba0
    by (simp add: writeUInt32LE_def writeUInt16LE_def writeUIntLE_def andThen_def
        Buffer_alloc_def buf_write_def ascii_def le_bytes4 le_bytes2 nat_add_distrib)
qed


lemma read2:
  assumes "v < 65536"
  shows "unat (word_of_nat v :: byte) + 256 * unat (word_of_nat (v div 256) :: byte) = v"
proof -
  have "v div 256 < 256" using assms by simp
  then show ?thesis by (simp add: unat_of_nat)
qed

lemma read4:
  assumes "v < 4294967296"
  shows "unat (word_of_nat v :: byte) + 256 * unat (word_of_nat (v div 256) :: byte)
     + 65536 * unat (word_of_nat (v div 65536) :: byte)
     + 16777216 * unat (word_of_nat (v div 16777216) :: byte) = v"
proof -
  define a where "a = v div 256"
  define b where "b = a div 256"
  define c where "c = b div 256"
  have b: "v div 65536 = b" by (simp add: a_def b_def div_mult2_eq)
  have c: "v div 16777216 = c" by (simp add: a_def b_def c_def div_mult2_eq)
  have "c < 256" using assms unfolding c[symmetric] by simp
  then have c': "c mod 256 = c" by simp
  have "v = v mod 256 + 256 * a" by (simp add: a_def)
  moreover have "a = a mod 256 + 256 * b" by (simp add: b_def)
  moreover have "b = b mod 256 + 256 * c" by (simp add: c_def)
  ultimately have "v = v mod 256 + 256 * (a mod 256) + 65536 * (b mod 256) + 16777216 * c"
    by arith
  then show ?thesis
    by (simp add: unat_of_nat b c c' a_def[symmetric])
qed

lemma readUInt32LE_le_bytes:
  assumes "length pre = offset" "v < 4294967296"
  shows "readUInt32LE (pre @ le_bytes 4 v @ post) offset = v"
proof -
  have "readUInt32LE (pre @ le_bytes 4 v @ post) offset =
      unat (word_of_nat v :: byte) + 256 * unat (word_of_nat (v div 256) :: byte)
     + 65536 * unat (word_of_nat (v div 65536) :: byte)
     + 16777216 * unat (word_of_nat (v div 16777216) :: byte)"
    using assms(1)
    by (simp add: readUInt32LE_def readUIntLE_def le_bytes4 upt_conv_Cons nth_append)
  then show ?thesis using read4 [OF assms(2)] by simp
qed

lemma readUInt16LE_le_bytes:
  assumes "length pre = offset" "v < 65536"
  shows "readUInt16LE (pre @ le_bytes 2 v @ post) offset = v"
proof -
  have "readUInt16LE (pre @ le_bytes 2 v @ post) offset =
      unat (word_of_nat v :: byte) + 256 * unat (word_of_nat (v div 256) :: byte)"
    using assms(1)
    by (simp add: readUInt16LE_def readUIntLE_def le_bytes2 upt_conv_Cons nth_append)
  then show ?thesis using read2 [OF assms(2)] by simp
qed

lemma length_le_bytes: "length (le_bytes n v) = n"
  by (simp add: le_bytes_def)


text \<open>
  C1 (as amended). For every PCM byte sequence \<open>p\<close> and every sample rate, channel count
  and bit depth, the bit depth a multiple of 8, such that every header field fits its
  width (\<open>36 + len p\<close>, the sample rate and the byte rate in 32 bits unsigned; the channel
  count, the bit depth and the block align in 16 bits unsigned), the frame is a 44 byte
  header followed by \<open>p\<close> unmodified: it starts with \<open>RIFF\<close>, bytes 8 to 11 are \<open>WAVE\<close>,
  the little-endian 32 bit value at offset 4 is \<open>36 + len p\<close>, the 16 bit value at offset
  20 is 1, the 32 bit value at offset 28 is \<open>sampleRate * channels * bitsPerSample / 8\<close>,
  the 16 bit value at offset 32 is \<open>channels * bitsPerSample / 8\<close>, and the 32 bit value
  at offset 40 is \<open>len p\<close>.
\<close>

theorem wavFrame_layout:
  assumes bits: "8 dvd bitsPerSample"
    and dl: "36 + length p \<le> 4294967295"
    and nc: "0 \<le> numChannels" "numChannels \<le> 65535"
    and sr: "0 \<le> sampleRate" "sampleRate \<le> 4294967295"
    and bps: "0 \<le> bitsPerSample" "bitsPerSample \<le> 65535"
    and br: "sampleRate * numChannels * bitsPerSample div 8 \<le> 4294967295"
    and ba: "numChannels * bitsPerSample div 8 \<le> 65535"
  shows "\<exists>header. wavFrame p sampleRate numChannels bitsPerSample = Inr (header @ p)
     \<and> length header = 44
     \<and> buf_slice (header @ p) 0 4 = ascii ''RIFF''
     \<and> buf_slice (header @ p) 8 12 = ascii ''WAVE''
     \<and> readUInt32LE (header @ p) 4 = 36 + length p
     \<and> readUInt16LE (header @ p) 20 = 1
     \<and> int (readUInt32LE (header @ p) 28) = sampleRate * numChannels * bitsPerSample div 8
     \<and> int (readUInt16LE (header @ p) 32) = numChannels * bitsPerSample div 8
     \<and> readUInt32LE (header @ p) 40 = length p"
proof -
  from bits obtain k where k: "bitsPerSample = 8 * k" by (auto simp: dvd_def)
  define byteRate where "byteRate = sampleRate * numChannels * k"
  define blockAlign where "blockAlign = numChannels * k"
  have k0: "0 \<le> k" using bps(1) k by simp
  have br1: "sampleRate * numChannels * bitsPerSample = 8 * byteRate"
    by (simp add: k byteRate_def)
  have ba1: "numChannels * bitsPerSample = 8 * blockAlign"
    by (simp add: k blockAlign_def)
  have br2: "byteRate \<le> 4294967295" using br unfolding br1 by simp
  have ba2: "blockAlign \<le> 65535" using ba unfolding ba1 by simp
  have br0: "0 \<le> byteRate" unfolding byteRate_def using sr(1) nc(1) k0 by simp
  have ba0: "0 \<le> blockAlign" unfolding blockAlign_def using nc(1) k0 by simp
  define header where "header =
          ascii ''RIFF'' @ le_bytes 4 (36 + length p) @ ascii ''WAVE'' @ ascii ''fmt '' @
          le_bytes 4 16 @ le_bytes 2 1 @ le_bytes 2 (nat numChannels) @
          le_bytes 4 (nat sampleRate) @ le_bytes 4 (nat byteRate) @
          le_bytes 2 (nat blockAlign) @ le_bytes 2 (nat bitsPerSample) @
          ascii ''data'' @ le_bytes 4 (length p)"
  have hdr: "createWavHeader (length p) sampleRate numChannels bitsPerSample = Inr header"
    unfolding header_def
    using dl by (intro createWavHeader_closed nc sr bps br1 br2 ba1 ba2) simp
  have frame: "wavFrame p sampleRate numChannels bitsPerSample = Inr (header @ p)"
    by (simp add: wavFrame_def hdr andThen_def)
  have len: "length header = 44"
    by (simp add: header_def ascii_def length_le_bytes)
  have riff: "buf_slice (header @ p) 0 4 = ascii ''RIFF''"
    by (simp add: header_def buf_slice_def ascii_def)
  have wave: "buf_slice (header @ p) 8 12 = ascii ''WAVE''"
    by (simp add: header_def buf_slice_def ascii_def length_le_bytes)
  have f4: "readUInt32LE (header @ p) 4 = 36 + length p"
  proof -
    have e: "header @ p = take 4 header @ le_bytes 4 (36 + length p) @ (drop 8 header @ p)"
      by (simp add: header_def ascii_def length_le_bytes)
    show ?thesis
      by (subst e, rule readUInt32LE_le_bytes) (use len dl in simp_all)
  qed
  have f20: "readUInt16LE (header @ p) 20 = 1"
  proof -
    have e: "header @ p = take 20 header @ le_bytes 2 1 @ (drop 22 header @ p)"
      by (simp add: header_def ascii_def length_le_bytes le_bytes4)
    show ?thesis
      by (subst e, rule readUInt16LE_le_bytes) (use len in simp_all)
  qed
  have f28: "readUInt32LE (header @ p) 28 = nat byteRate"
  proof -
    have e: "header @ p = take 28 header @ le_bytes 4 (nat byteRate) @ (drop 32 header @ p)"
      by (simp add: header_def ascii_def length_le_bytes le_bytes4 le_bytes2)
    show ?thesis
      by (subst e, rule readUInt32LE_le_bytes) (use len br2 in simp_all)
  qed
  have f32: "readUInt16LE (header @ p) 32 = nat blockAlign"
  proof -
    have e: "header @ p = take 32 header @ le_bytes 2 (nat blockAlign) @ (drop 34 header @ p)"
      by (simp add: header_def ascii_def length_le_bytes le_bytes4 le_bytes2)
    show ?thesis
      by (subst e, rule readUInt16LE_le_bytes) (use len ba2 in simp_all)
  qed
  have f40: "readUInt32LE (header @ p) 40 = length p"
  proof -
    have e: "header @ p = take 40 header @ le_bytes 4 (length p) @ p"
      by (simp add: header_def ascii_def length_le_bytes le_bytes4 le_bytes2)
    show ?thesis
      by (subst e, rule readUInt32LE_le_bytes) (use len dl in simp_all)
  qed
  have "int (readUInt32LE (header @ p) 28) = sampleRate * numChannels * bitsPerSample div 8"
    using f28 br0 by (simp add: br1)
  moreover have "int (readUInt16LE (header @ p) 32) = numChannels * bitsPerSample div 8"
    using f32 ba0 by (simp add: ba1)
  ultimately show ?thesis
    using frame len riff wave f4 f20 f40 by blast
qed

theorem wavFrame_layout_witness:
  "\<exists>header. wavFrame [1, 2, 3, 4] 24000 1 16 = Inr (header @ [1, 2, 3, 4])
     \<and> length header = 44
     \<and> buf_slice (header @ [1, 2, 3, 4]) 0 4 = ascii ''RIFF''
     \<and> buf_slice (header @ [1, 2, 3, 4]) 8 12 = ascii ''WAVE''
     \<and> readUInt32LE (header @ [1, 2, 3, 4]) 4 = 36 + length [1, 2, 3, 4 :: byte]
     \<and> readUInt16LE (header @ [1, 2, 3, 4]) 20 = 1
     \<and> readUInt32LE (header @ [1, 2, 3, 4]) 28 = 48000
     \<and> readUInt16LE (header @ [1, 2, 3, 4]) 32 = 2
     \<and> readUInt32LE (header @ [1, 2, 3, 4]) 40 = length [1, 2, 3, 4 :: byte]"
  using wavFrame_layout [of 16 "[1, 2, 3, 4]" 1 24000] by simp


text \<open>
  C1 as stated asks this of every triple with a bit depth that is a multiple of 8. With
  65536 channels the 16 bit write of the channel count throws, and there is no frame.
\<close>

theorem wavFrame_channels_out_of_range:
  "wavFrame [] 24000 65536 16 = Inl (RangeError ''ERR_OUT_OF_RANGE'')"
  by (simp add: wavFrame_def createWavHeader_def andThen_def writeUInt32LE_def
      writeUInt16LE_def writeUIntLE_def Buffer_alloc_def buf_write_def le_bytes4 le_bytes2)


subsection \<open>Voice resolution\<close>

lemma VOICE_MAP_entry:
  assumes "map_of VOICE_MAP k = Some t"
  shows "k \<noteq> [] \<and> t \<in> set voiceTokens"
  using assms by (auto simp: VOICE_MAP_def voiceTokens_def split: if_splits)

lemma voiceTokens_nonempty: "t \<in> set voiceTokens \<Longrightarrow> t \<noteq> []"
  by (auto simp: voiceTokens_def)

lemma mappedVoice_key:
  assumes "map_of VOICE_MAP k = Some t"
  shows "mappedVoice (Some k) = Some (Str t)"
  using VOICE_MAP_entry [OF assms] voiceTokens_nonempty [of t] assms
  by (simp add: mappedVoice_def getProperty_def)

lemma mappedVoice_cases:
  "mappedVoice key = None
   \<or> (\<exists>k t. key = Some k \<and> map_of VOICE_MAP k = Some t \<and> mappedVoice key = Some (Str t))
   \<or> (\<exists>k. key = Some k \<and> k \<in> set Object_prototype_keys \<and> map_of VOICE_MAP k = None
          \<and> mappedVoice key = Some (PrototypeMember k))"
  by (cases key) (auto simp: mappedVoice_def getProperty_def split: option.splits)


text \<open>
  C3 (as amended). Voice resolution is a case-sensitive exact lookup in this order: the name
  when it is a key of the mapping table, else the gender fallback when it is a key, else the
  fixed default \<open>alloy\<close>. \<open>resolve(JennyNeural, undefined)\<close> is the token mapped for
  \<open>JennyNeural\<close>; the gender keys of the table are \<open>Male\<close> and \<open>Female\<close>, so
  \<open>resolve(undefined, Female)\<close> is the token mapped for \<open>Female\<close>, while \<open>female\<close> is no
  key and resolves to the default, as \<open>resolve(unknown-name, unknown-gender)\<close> does. The
  operation never fails, and when neither argument is the name of a member of
  \<^verbatim>\<open>Object.prototype\<close> the result is one of the six voice tokens.
\<close>

theorem selectVoice_resolution:
  "(map_of VOICE_MAP name = Some t \<longrightarrow> selectVoice (Some name) gender = Str t)
   \<and> (mappedVoice name' = None \<and> map_of VOICE_MAP g = Some t'
        \<longrightarrow> selectVoice name' (Some g) = Str t')
   \<and> (mappedVoice voiceName = None \<and> mappedVoice voiceGender = None
        \<longrightarrow> selectVoice voiceName voiceGender = Str ''alloy'')
   \<and> (mappedVoice (Some k) = None
        \<longleftrightarrow> k = [] \<or> (map_of VOICE_MAP k = None \<and> k \<notin> set Object_prototype_keys))
   \<and> mappedVoice None = None
   \<and> map_of VOICE_MAP ''JennyNeural'' = Some ''alloy''
   \<and> selectVoice (Some ''JennyNeural'') None = Str ''alloy''
   \<and> map_of VOICE_MAP ''Female'' = Some ''alloy''
   \<and> selectVoice None (Some ''Female'') = Str ''alloy''
   \<and> map_of VOICE_MAP ''female'' = None
   \<and> selectVoice None (Some ''female'') = Str ''alloy''
   \<and> selectVoice (Some ''unknown-name'') (Some ''unknown-gender'') = Str ''alloy''
   \<and> selectVoice (Some ''echo'') None = Str ''echo''
   \<and> selectVoice (Some ''Echo'') None = Str ''alloy''
   \<and> (set_option vn \<inter> set Object_prototype_keys = {}
        \<and> set_option vg \<inter> set Object_prototype_keys = {}
        \<longrightarrow> (\<exists>tok \<in> set voiceTokens. selectVoice vn vg = Str tok))"
proof -
  have a: "map_of VOICE_MAP name = Some t \<longrightarrow> selectVoice (Some name) gender = Str t"
    by (simp add: selectVoice_def mappedVoice_key)
  have b: "mappedVoice name' = None \<and> map_of VOICE_MAP g = Some t'
        \<longrightarrow> selectVoice name' (Some g) = Str t'"
    by (simp add: selectVoice_def mappedVoice_key)
  have c: "mappedVoice voiceName = None \<and> mappedVoice voiceGender = None
        \<longrightarrow> selectVoice voiceName voiceGender = Str ''alloy''"
    by (simp add: selectVoice_def)
  have d: "mappedVoice (Some k) = None
        \<longleftrightarrow> k = [] \<or> (map_of VOICE_MAP k = None \<and> k \<notin> set Object_prototype_keys)"
    using VOICE_MAP_entry [of k] voiceTokens_nonempty
    by (auto simp: mappedVoice_def getProperty_def split: option.splits)
  have e: "mappedVoice None = None"
    by (simp add: mappedVoice_def)
  have ex: "map_of VOICE_MAP ''JennyNeural'' = Some ''alloy''"
    "selectVoice (Some ''JennyNeural'') None = Str ''alloy''"
    "map_of VOICE_MAP ''Female'' = Some ''alloy''"
    "selectVoice None (Some ''Female'') = Str ''alloy''"
    "map_of VOICE_MAP ''female'' = None"
    "selectVoice None (Some ''female'') = Str ''alloy''"
    "selectVoice (Some ''unknown-name'') (Some ''unknown-gender'') = Str ''alloy''"
    "selectVoice (Some ''echo'') None = Str ''echo''"
    "selectVoice (Some ''Echo'') None = Str ''alloy''"
    by (simp_all add: selectVoice_def mappedVoice_def getProperty_def VOICE_MAP_def
        Object_prototype_keys_def)
  have f: "set_option vn \<inter> set Object_prototype_keys = {}
        \<and> set_option vg \<inter> set Object_prototype_keys = {}
        \<longrightarrow> (\<exists>tok \<in> set voiceTokens. selectVoice vn vg = Str tok)"
  proof (intro impI, elim conjE)
    assume vn: "set_option vn \<inter> set Object_prototype_keys = {}"
      and vg: "set_option vg \<inter> set Object_prototype_keys = {}"
    have alloy: "''alloy'' \<in> set voiceTokens" by (simp add: voiceTokens_def)
    from mappedVoice_cases [of vn] vn
    consider "mappedVoice vn = None"
      | k t where "map_of VOICE_MAP k = Some t" "mappedVoice vn = Some (Str t)"
      by auto
    then show "\<exists>tok \<in> set voiceTokens. selectVoice vn vg = Str tok"
    proof cases
      case 1
      from mappedVoice_cases [of vg] vg
      consider "mappedVoice vg = None"
        | k t where "map_of VOICE_MAP k = Some t" "mappedVoice vg = Some (Str t)"
        by auto
      then show ?thesis
      proof cases
        case 1
        with \<open>mappedVoice vn = None\<close> alloy show ?thesis by (simp add: selectVoice_def)
      next
        case 2
        with \<open>mappedVoice vn = None\<close> VOICE_MAP_entry [of k t] show ?thesis
          by (simp add: selectVoice_def)
      qed
    next
      case 2
      with VOICE_MAP_entry [of k t] show ?thesis by (simp add: selectVoice_def)
    qed
  qed
  from a b c d e ex f show ?thesis by blast
qed

theorem selectVoice_resolution_witness:
  "selectVoice (Some ''GuyNeural'') (Some ''Female'') = Str ''echo''
   \<and> selectVoice None (Some ''Male'') = Str ''echo''
   \<and> selectVoice (Some '''') None = Str ''alloy''
   \<and> (\<exists>tok \<in> set voiceTokens. selectVoice (Some ''AriaNeural'') (Some ''Male'') = Str tok)"
proof -
  have h1: "map_of VOICE_MAP ''GuyNeural'' = Some ''echo''" by (simp add: VOICE_MAP_def)
  have h2: "mappedVoice None = None \<and> map_of VOICE_MAP ''Male'' = Some ''echo''"
    by (simp add: VOICE_MAP_def mappedVoice_def)
  have h3: "mappedVoice (Some '''') = None \<and> mappedVoice None = None"
    by (simp add: mappedVoice_def)
  have h4: "set_option (Some ''AriaNeural'') \<inter> set Object_prototype_keys = {}
     \<and> set_option (Some ''Male'') \<inter> set Object_prototype_keys = {}"
    by (simp add: Object_prototype_keys_def)
  from h1 h2 h3 h4
    selectVoice_resolution [of "''GuyNeural''" "''echo''" "Some ''Female''" None "''Male''" "''echo''"
      "Some ''''" None "''x''" "Some ''AriaNeural''" "Some ''Male''"]
  show ?thesis by blast
qed


text \<open>
  C3 as stated has \<open>resolve(undefined, female)\<close> return the token mapped for \<open>female\<close>, and
  every result be a voice token. The table maps no \<open>female\<close>: the call falls through to
  the default. And the name \<open>constructor\<close>, read from the object literal, gives the
  inherited member, which is truthy and no token.
\<close>

theorem selectVoice_female_and_prototype:
  "map_of VOICE_MAP ''female'' = None
   \<and> selectVoice None (Some ''female'') = Str ''alloy''
   \<and> selectVoice (Some ''constructor'') None = PrototypeMember ''constructor''"
  by (simp add: selectVoice_def mappedVoice_def getProperty_def VOICE_MAP_def
      Object_prototype_keys_def)


subsection \<open>Validation of the input\<close>

text \<open>
  C4. With an empty string (or no value) as its input, each of \<open>synthesize\<close> and
  \<open>recognize\<close> fails at once with its validation error, and the state of the process is
  the one it started in: no transport was created (\<open>sockets\<close>), nothing was sent, and no
  telemetry was recorded (\<open>audioChars\<close>).
\<close>

theorem empty_input_rejected:
  "synthesizeSpeechRealtime config (Some '''') voiceName voiceGender w
     = (Inl (Error ''No text provided for synthesis''), [], w)
   \<and> synthesizeSpeechRealtime config None voiceName voiceGender w
     = (Inl (Error ''No text provided for synthesis''), [], w)
   \<and> recognizeSpeechRealtime config (Some '''') w = Some (Inl (Error ''No audio data provided''), w)
   \<and> recognizeSpeechRealtime config None w = Some (Inl (Error ''No audio data provided''), w)"
  by (simp add: synthesizeSpeechRealtime_def recognizeSpeechRealtime_def)


subsection \<open>What the resolved voice reaches\<close>

lemma synthesize_nonempty:
  assumes "t \<noteq> []"
  shows "synthesizeSpeechRealtime config (Some t) voiceName voiceGender w =
     (case createRealtimeClient config (beginSynthesis t w) of
        (Inl e, w1) \<Rightarrow>
          (Inl (synthesisFailed e),
           [LogSynthesizing (length t) (selectVoice voiceName voiceGender)], w1)
      | (Inr u, w1) \<Rightarrow>
          (fst (synthesisOnSession t (selectVoice voiceName voiceGender) w1),
           [LogSynthesizing (length t) (selectVoice voiceName voiceGender)],
           snd (synthesisOnSession t (selectVoice voiceName voiceGender) w1)))"
  using assms
  by (simp add: synthesizeSpeechRealtime_def Let_def split: prod.splits sum.splits)

lemma synthesisOnSession_voice:
  "synthesisOnSession t voice1 w = synthesisOnSession t voice2 w"
  by (simp add: synthesisOnSession_def configureRealtimeSession_def)

lemma synthesize_logged:
  assumes "t \<noteq> []"
  shows "fst (snd (synthesizeSpeechRealtime config (Some t) voiceName voiceGender w))
           = [LogSynthesizing (length t) (selectVoice voiceName voiceGender)]"
  by (simp add: synthesize_nonempty [OF assms] split: prod.splits sum.splits)

text \<open>
  C8. For every request body that supplies a \<open>voiceName\<close> and a \<open>voiceGender\<close>, the
  route calls the operation with \<open>voiceGender\<close> in the place of its name parameter and
  \<open>voiceName\<close> in the place of its gender fallback. So, for a non-empty text, the voice
  the operation resolves (and logs) is \<open>selectVoice voiceGender voiceName\<close>: whenever
  \<open>voiceGender\<close> is a key of the mapping table its token is the one used, whatever
  \<open>voiceName\<close> is.
\<close>

theorem postSynthesize_swaps_voice_arguments:
  assumes "body_voiceGender body = Some g" and "body_voiceName body = Some n"
  shows "postSynthesize config body w =
           (case synthesizeSpeechRealtime config (body_text body) (Some g) (Some n) w of
              (Inr audioBuffer, logged, w') \<Rightarrow> (SendAudio ''audio/wav'' audioBuffer, logged, w')
            | (Inl e, logged, w') \<Rightarrow>
                (if e = ProcessExit then NoResponse
                 else Status500 ''Speech synthesis failed (Realtime API)'' (errorMessage e),
                 logged, w'))
       \<and> (\<forall>t. body_text body = Some t \<and> t \<noteq> [] \<longrightarrow>
             fst (snd (postSynthesize config body w))
               = [LogSynthesizing (length t) (selectVoice (Some g) (Some n))]
             \<and> (\<forall>tok. map_of VOICE_MAP g = Some tok \<longrightarrow>
                   fst (snd (postSynthesize config body w))
                     = [LogSynthesizing (length t) (Str tok)]))"
proof -
  have bind: "postSynthesize config body w =
           (case synthesizeSpeechRealtime config (body_text body) (Some g) (Some n) w of
              (Inr audioBuffer, logged, w') \<Rightarrow> (SendAudio ''audio/wav'' audioBuffer, logged, w')
            | (Inl e, logged, w') \<Rightarrow>
                (if e = ProcessExit then NoResponse
                 else Status500 ''Speech synthesis failed (Realtime API)'' (errorMessage e),
                 logged, w'))"
    by (simp only: postSynthesize_def assms)
  have logs: "fst (snd (postSynthesize config body w))
               = [LogSynthesizing (length t) (selectVoice (Some g) (Some n))]"
    if "body_text body = Some t" "t \<noteq> []" for t
  proof -
    have "fst (snd (postSynthesize config body w))
        = fst (snd (synthesizeSpeechRealtime config (Some t) (Some g) (Some n) w))"
      using assms that(1) by (simp add: postSynthesize_def split: prod.splits sum.splits)
    then show ?thesis
      using synthesize_logged [OF that(2)] by simp
  qed
  have tok: "selectVoice (Some g) (Some n) = Str tok" if "map_of VOICE_MAP g = Some tok" for tok
    using that by (simp add: selectVoice_def mappedVoice_key)
  from bind logs tok show ?thesis by simp
qed

theorem postSynthesize_swaps_voice_arguments_witness:
  "fst (snd (postSynthesize gaConfig
       \<lparr>body_text = Some ''Hi'', body_voiceGender = Some ''Male'',
          body_voiceName = Some ''JennyNeural''\<rparr>
       idle)) = [LogSynthesizing (length ''Hi'') (Str ''echo'')]"
proof -
  let ?body = "\<lparr>body_text = Some ''Hi'', body_voiceGender = Some ''Male'',
          body_voiceName = Some ''JennyNeural''\<rparr>"
  have m: "map_of VOICE_MAP ''Male'' = Some ''echo''" by (simp add: VOICE_MAP_def)
  have g: "body_voiceGender ?body = Some ''Male''" and n: "body_voiceName ?body = Some ''JennyNeural''"
    and t: "body_text ?body = Some ''Hi'' \<and> ''Hi'' \<noteq> []"
    by simp_all
  from postSynthesize_swaps_voice_arguments [OF g n, of gaConfig idle, THEN conjunct2,
      rule_format, OF t, THEN conjunct2, rule_format, OF m]
  show ?thesis .
qed

text \<open>
  C9. For every text and any two pairs of voice name and voice gender, the synthesis
  returns the same result and leaves the same state, hence has sent the same commands: the
  session configuration sends nothing, and the resolved voice goes nowhere but the log.
\<close>

theorem synthesize_ignores_voice:
  "fst (synthesizeSpeechRealtime config text voiceName1 voiceGender1 w)
     = fst (synthesizeSpeechRealtime config text voiceName2 voiceGender2 w)
   \<and> snd (snd (synthesizeSpeechRealtime config text voiceName1 voiceGender1 w))
     = snd (snd (synthesizeSpeechRealtime config text voiceName2 voiceGender2 w))
   \<and> sent (snd (snd (synthesizeSpeechRealtime config text voiceName1 voiceGender1 w)))
     = sent (snd (snd (synthesizeSpeechRealtime config text voiceName2 voiceGender2 w)))
   \<and> sent (configureRealtimeSession voice w) = sent w"
proof (cases "truthyStr text")
  case False
  then show ?thesis
    by (simp add: synthesizeSpeechRealtime_def configureRealtimeSession_def)
next
  case True
  then obtain t where t1: "text = Some t" and t2: "t \<noteq> []"
    by (cases "text") auto
  show ?thesis
    unfolding t1 synthesize_nonempty [OF t2]
    using synthesisOnSession_voice [of t "selectVoice voiceName1 voiceGender1" _
        "selectVoice voiceName2 voiceGender2"]
    by (simp add: configureRealtimeSession_def split: prod.splits sum.splits)
qed



subsection \<open>What the parts of the client leave untouched\<close>

lemma settle_fields:
  "listeners (settle r w) = listeners w" "script (settle r w) = script w"
  "now (settle r w) = now w" "timerLag (settle r w) = timerLag w"
  "sockets (settle r w) = sockets w" "closeCalls (settle r w) = closeCalls w"
  "sent (settle r w) = sent w" "clientVariant (settle r w) = clientVariant w"
  "socketOpen (settle r w) = socketOpen w"
  "uncaught (settle r w) = uncaught w" "audioChars (settle r w) = audioChars w"
  "audioChunks (settle r w) = audioChunks w" "responseDone (settle r w) = responseDone w"
  "transcriptText (settle r w) = transcriptText w"
  "sessionConfigured (settle r w) = sessionConfigured w"
  by (simp_all add: settle_def)

lemma runHandler_frame:
  assumes "runHandler h p w = Inr w'"
  shows "listeners w' = listeners w \<and> script w' = script w \<and> now w' = now w
    \<and> timerLag w' = timerLag w \<and> sockets w' = sockets w \<and> closeCalls w' = closeCalls w
    \<and> sent w' = sent w \<and> clientVariant w' = clientVariant w \<and> uncaught w' = uncaught w
    \<and> audioChars w' = audioChars w \<and> socketOpen w' = socketOpen w"
  using assms
  by (cases h; cases p) (auto simp: settle_fields split: option.splits)

lemma forEach_frame:
  "listeners (snd (forEach hs p w)) = listeners w \<and> script (snd (forEach hs p w)) = script w
    \<and> now (snd (forEach hs p w)) = now w \<and> timerLag (snd (forEach hs p w)) = timerLag w
    \<and> sockets (snd (forEach hs p w)) = sockets w
    \<and> closeCalls (snd (forEach hs p w)) = closeCalls w
    \<and> sent (snd (forEach hs p w)) = sent w
    \<and> clientVariant (snd (forEach hs p w)) = clientVariant w
    \<and> uncaught (snd (forEach hs p w)) = uncaught w
    \<and> audioChars (snd (forEach hs p w)) = audioChars w
    \<and> socketOpen (snd (forEach hs p w)) = socketOpen w"
proof (induction hs arbitrary: w)
  case Nil
  show ?case by simp
next
  case (Cons h hs)
  show ?case
  proof (cases "runHandler h p w")
    case (Inl e)
    then show ?thesis by simp
  next
    case (Inr w')
    with Cons [of w'] runHandler_frame [OF Inr] show ?thesis by simp
  qed
qed

text \<open>A field that only one closure writes keeps its value when that closure is not called.\<close>

lemma forEach_untouched:
  assumes "\<And>h p w w'. h \<noteq> hw \<Longrightarrow> runHandler h p w = Inr w' \<Longrightarrow> f w' = f w"
    and "hw \<notin> set hs"
  shows "f (snd (forEach hs p w)) = f w"
  using assms(2)
proof (induction hs arbitrary: w)
  case Nil
  show ?case by simp
next
  case (Cons h hs)
  show ?case
  proof (cases "runHandler h p w")
    case (Inl e)
    then show ?thesis by simp
  next
    case (Inr w')
    with Cons assms(1) [of h p w w'] show ?thesis by auto
  qed
qed

lemma responseDone_writer:
  "h \<noteq> TtsResponseDone \<Longrightarrow> runHandler h p w = Inr w' \<Longrightarrow> responseDone w' = responseDone w"
  by (cases h; cases p) (auto simp: settle_fields split: option.splits)

lemma sessionConfigured_writer:
  "h \<noteq> SttSessionUpdated \<Longrightarrow> runHandler h p w = Inr w' \<Longrightarrow> sessionConfigured w' = sessionConfigured w"
  by (cases h; cases p) (auto simp: settle_fields split: option.splits)

lemma transcriptText_writer:
  "h \<noteq> SttTranscription \<Longrightarrow> runHandler h p w = Inr w' \<Longrightarrow> transcriptText w' = transcriptText w"
  by (cases h; cases p) (auto simp: settle_fields split: option.splits)

lemma audioChunks_writer:
  "h \<noteq> TtsAudioDelta \<Longrightarrow> runHandler h p w = Inr w' \<Longrightarrow> audioChunks w' = audioChunks w"
  by (cases h; cases p) (auto simp: settle_fields split: option.splits)

text \<open>A promise that is settled stays as it is.\<close>

lemma runHandler_settled:
  assumes "runHandler h p w = Inr w'" and "settled w \<noteq> None"
  shows "settled w' = settled w"
  using assms
  by (cases h; cases p) (auto simp: settle_def split: option.splits)

lemma forEach_settled:
  assumes "settled w \<noteq> None"
  shows "settled (snd (forEach hs p w)) = settled w"
  using assms
proof (induction hs arbitrary: w)
  case Nil
  show ?case by simp
next
  case (Cons h hs)
  show ?case
  proof (cases "runHandler h p w")
    case (Inl e)
    then show ?thesis by simp
  next
    case (Inr w')
    from runHandler_settled [OF Inr Cons.prems] have "settled w' = settled w" .
    with Cons.IH [of w'] Cons.prems Inr show ?thesis by simp
  qed
qed

lemma on_fields:
  "script (on k h w) = script w" "now (on k h w) = now w" "timerLag (on k h w) = timerLag w"
  "sockets (on k h w) = sockets w" "closeCalls (on k h w) = closeCalls w"
  "sent (on k h w) = sent w" "clientVariant (on k h w) = clientVariant w"
  "socketOpen (on k h w) = socketOpen w"
  "uncaught (on k h w) = uncaught w" "audioChars (on k h w) = audioChars w"
  "audioChunks (on k h w) = audioChunks w" "responseDone (on k h w) = responseDone w"
  "transcriptText (on k h w) = transcriptText w"
  "sessionConfigured (on k h w) = sessionConfigured w" "settled (on k h w) = settled w"
  by (simp_all add: on_def)

lemma close_fields:
  "script (close w) = script w" "now (close w) = now w" "timerLag (close w) = timerLag w"
  "sockets (close w) = sockets w" "listeners (close w) = listeners w"
  "sent (close w) = sent w" "clientVariant (close w) = clientVariant w"
  "socketOpen (close w) = socketOpen w"
  "uncaught (close w) = uncaught w" "audioChars (close w) = audioChars w"
  "audioChunks (close w) = audioChunks w" "responseDone (close w) = responseDone w"
  "transcriptText (close w) = transcriptText w"
  "sessionConfigured (close w) = sessionConfigured w" "settled (close w) = settled w"
  "closeCalls (close w) = closeCalls w + 1"
  by (simp_all add: close_def)

lemma send_fields:
  "script (send c w) = script w" "now (send c w) = now w" "timerLag (send c w) = timerLag w"
  "sockets (send c w) = sockets w" "listeners (send c w) = listeners w"
  "closeCalls (send c w) = closeCalls w" "clientVariant (send c w) = clientVariant w"
  "socketOpen (send c w) = socketOpen w"
  "uncaught (send c w) = uncaught w" "audioChars (send c w) = audioChars w"
  "audioChunks (send c w) = audioChunks w" "responseDone (send c w) = responseDone w"
  "transcriptText (send c w) = transcriptText w"
  "sessionConfigured (send c w) = sessionConfigured w" "settled (send c w) = settled w"
  "sent (send c w) = sent w @ [c]"
  by (simp_all add: send_def)

text \<open>The five ways a report of the transport is handled.\<close>

lemma onSocketEvent_cases:
  obtains (dead) "uncaught w" and "onSocketEvent e w = w"
  | (opened) "\<not> uncaught w" and "e = SockOpen" and "onSocketEvent e w = onOpen w"
  | (ga) ev r w1 where "\<not> uncaught w" and "e = SockMessage ev" and "clientVariant w = GA"
      and "forEach (listeners w (ev_type ev)) (ServerEvent ev) w = (r, w1)"
      and "onSocketEvent e w =
             (case r of
                Some x \<Rightarrow> w1
              | None \<Rightarrow> snd (forEach (listeners w1 ''server.*'') (ServerEvent ev) w1))"
  | (sdk) ev p r w1 where "\<not> uncaught w" and "e = SockMessage ev"
      and "clientVariant w = Preview"
      and "forEach (listeners w (ev_type ev)) p w = (r, w1)"
      and "onSocketEvent e w = (case r of Some x \<Rightarrow> w1\<lparr>uncaught := True\<rparr> | None \<Rightarrow> w1)"
  | (failed) msg r w1 where "\<not> uncaught w" and "e = SockError msg"
      and "forEach (listeners w ''error'') (SocketError msg) w = (r, w1)"
      and "onSocketEvent e w =
             (case r of
                Some x \<Rightarrow> w1\<lparr>uncaught := True\<rparr>
              | None \<Rightarrow>
                  (case clientVariant w1 of
                     GA \<Rightarrow> settle (Inl (Error msg)) (close w1)
                   | Preview \<Rightarrow> w1))"
proof (cases "uncaught w")
  case True
  then have "onSocketEvent e w = w" by (simp add: onSocketEvent_def)
  from dead [OF True this] show ?thesis .
next
  case False
  show ?thesis
  proof (cases e)
    case SockOpen
    with False have "onSocketEvent e w = onOpen w" by (simp add: onSocketEvent_def)
    from opened [OF False SockOpen this] show ?thesis .
  next
    case (SockMessage ev)
    show ?thesis
    proof (cases "clientVariant w")
      case GA
      obtain r w1 where f: "forEach (listeners w (ev_type ev)) (ServerEvent ev) w = (r, w1)"
        by (cases "forEach (listeners w (ev_type ev)) (ServerEvent ev) w")
      have "onSocketEvent e w =
             (case r of
                Some x \<Rightarrow> w1
              | None \<Rightarrow> snd (forEach (listeners w1 ''server.*'') (ServerEvent ev) w1))"
        using False SockMessage GA f by (cases r) (simp_all add: onSocketEvent_def onMessage_def)
      from ga [OF False SockMessage GA f this] show ?thesis .
    next
      case Preview
      define p where
        "p = (if ev_type ev = ''error'' then SocketError (sdkErrorText ev) else ServerEvent ev)"
      obtain r w1 where f: "forEach (listeners w (ev_type ev)) p w = (r, w1)"
        by (cases "forEach (listeners w (ev_type ev)) p w")
      have "sdkMessage ev w = (case forEach (listeners w (ev_type ev)) p w of
           (Some e, w') \<Rightarrow> w'\<lparr>uncaught := True\<rparr>
         | (None, w') \<Rightarrow> w')"
        unfolding sdkMessage_def Let_def p_def by (rule refl)
      then have "onSocketEvent e w = (case r of Some x \<Rightarrow> w1\<lparr>uncaught := True\<rparr> | None \<Rightarrow> w1)"
        using False SockMessage Preview f by (cases r) (simp_all add: onSocketEvent_def)
      from sdk [OF False SockMessage Preview f this] show ?thesis .
    qed
  next
    case (SockError msg)
    obtain r w1 where f: "forEach (listeners w ''error'') (SocketError msg) w = (r, w1)"
      by (cases "forEach (listeners w ''error'') (SocketError msg) w")
    have "onSocketEvent e w =
             (case r of
                Some x \<Rightarrow> w1\<lparr>uncaught := True\<rparr>
              | None \<Rightarrow>
                  (case clientVariant w1 of
                     GA \<Rightarrow> settle (Inl (Error msg)) (close w1)
                   | Preview \<Rightarrow> w1))"
      using False SockError f by (cases r) (simp_all add: onSocketEvent_def onError_def)
    from failed [OF False SockError f this] show ?thesis .
  qed
qed

lemma onSocketEvent_frame:
  "script (onSocketEvent e w) = script w \<and> now (onSocketEvent e w) = now w
    \<and> timerLag (onSocketEvent e w) = timerLag w \<and> sockets (onSocketEvent e w) = sockets w
    \<and> sent (onSocketEvent e w) = sent w
    \<and> clientVariant (onSocketEvent e w) = clientVariant w
    \<and> audioChars (onSocketEvent e w) = audioChars w"
proof (cases rule: onSocketEvent_cases [of w e])
  case dead
  then show ?thesis by simp
next
  case opened
  then show ?thesis by (simp add: onOpen_def on_fields split: variant.splits)
next
  case (ga ev r w1)
  from forEach_frame [of "listeners w (ev_type ev)" "ServerEvent ev" w] ga(4)
  have w1: "script w1 = script w" "now w1 = now w" "timerLag w1 = timerLag w"
    "sockets w1 = sockets w" "sent w1 = sent w" "clientVariant w1 = clientVariant w"
    "audioChars w1 = audioChars w"
    by simp_all
  show ?thesis
    using ga(5) w1 forEach_frame [of "listeners w1 ''server.*''" "ServerEvent ev" w1]
    by (cases r) simp_all
next
  case (sdk ev p r w1)
  from forEach_frame [of "listeners w (ev_type ev)" p w] sdk(4)
  have w1: "script w1 = script w" "now w1 = now w" "timerLag w1 = timerLag w"
    "sockets w1 = sockets w" "sent w1 = sent w" "clientVariant w1 = clientVariant w"
    "audioChars w1 = audioChars w"
    by simp_all
  show ?thesis
    using sdk(5) w1 by (cases r) simp_all
next
  case (failed msg r w1)
  from forEach_frame [of "listeners w ''error''" "SocketError msg" w] failed(3)
  have w1: "script w1 = script w" "now w1 = now w" "timerLag w1 = timerLag w"
    "sockets w1 = sockets w" "sent w1 = sent w" "clientVariant w1 = clientVariant w"
    "audioChars w1 = audioChars w"
    by simp_all
  show ?thesis
    using failed(4) w1
    by (cases r; cases "clientVariant w1") (simp_all add: settle_fields close_fields)
qed

text \<open>The listeners only grow, and only by the two closures of the GA handshake.\<close>

lemma listeners_onSocketEvent:
  "set (listeners (onSocketEvent e w) k)
     \<subseteq> set (listeners w k) \<union> {OpenSessionCreated, OpenErrorLog}"
proof (cases rule: onSocketEvent_cases [of w e])
  case dead
  then show ?thesis by auto
next
  case opened
  then show ?thesis by (auto simp: onOpen_def on_def split: variant.splits)
next
  case (ga ev r w1)
  from forEach_frame [of "listeners w (ev_type ev)" "ServerEvent ev" w] ga(4)
  have w1: "listeners w1 = listeners w" by simp
  show ?thesis
    using ga(5) w1 forEach_frame [of "listeners w1 ''server.*''" "ServerEvent ev" w1]
    by (cases r) auto
next
  case (sdk ev p r w1)
  from forEach_frame [of "listeners w (ev_type ev)" p w] sdk(4)
  have w1: "listeners w1 = listeners w" by simp
  show ?thesis
    using sdk(5) w1 by (cases r) auto
next
  case (failed msg r w1)
  from forEach_frame [of "listeners w ''error''" "SocketError msg" w] failed(3)
  have w1: "listeners w1 = listeners w" by simp
  show ?thesis
    using failed(4) w1
    by (cases r; cases "clientVariant w1") (auto simp: settle_fields close_fields)
qed

lemma onlyUnder_onSocketEvent:
  assumes "onlyUnder h key w" and "h \<noteq> OpenSessionCreated" and "h \<noteq> OpenErrorLog"
  shows "onlyUnder h key (onSocketEvent e w)"
  using assms listeners_onSocketEvent [of e w]
  unfolding onlyUnder_def by blast

lemma onSocketEvent_settled:
  assumes "settled w \<noteq> None"
  shows "settled (onSocketEvent e w) = settled w"
proof (cases rule: onSocketEvent_cases [of w e])
  case dead
  then show ?thesis by simp
next
  case opened
  then show ?thesis by (simp add: onOpen_def on_fields split: variant.splits)
next
  case (ga ev r w1)
  from forEach_settled [OF assms, of "listeners w (ev_type ev)" "ServerEvent ev"] ga(4)
  have w1: "settled w1 = settled w" by simp
  with assms have "settled w1 \<noteq> None" by simp
  from forEach_settled [OF this, of "listeners w1 ''server.*''" "ServerEvent ev"] w1 ga(5)
  show ?thesis by (cases r) simp_all
next
  case (sdk ev p r w1)
  from forEach_settled [OF assms, of "listeners w (ev_type ev)" p] sdk(4)
  have w1: "settled w1 = settled w" by simp
  with sdk(5) show ?thesis by (cases r) simp_all
next
  case (failed msg r w1)
  from forEach_settled [OF assms, of "listeners w ''error''" "SocketError msg"] failed(3)
  have w1: "settled w1 = settled w" by simp
  with failed(4) assms show ?thesis
    by (cases r; cases "clientVariant w1") (simp_all add: settle_def close_def)
qed

text \<open>
  A flag that one closure writes, registered under one event type, keeps its value through
  every report of the transport that is not a message of that type.
\<close>

lemma onSocketEvent_untouched:
  assumes writer: "\<And>h p w w'. h \<noteq> hw \<Longrightarrow> runHandler h p w = Inr w' \<Longrightarrow> f w' = f w"
    and upd: "\<And>w x. f (w\<lparr>uncaught := x\<rparr>) = f w" "\<And>w. f (close w) = f w"
      "\<And>r w. f (settle r w) = f w" "\<And>k h w. f (on k h w) = f w"
      "\<And>w x. f (w\<lparr>socketOpen := x\<rparr>) = f w"
    and only: "onlyUnder hw key w" and key: "key \<noteq> ''error''" "key \<noteq> ''server.*''"
    and e: "\<And>ev. e = SockMessage ev \<Longrightarrow> ev_type ev \<noteq> key"
  shows "f (onSocketEvent e w) = f w"
proof -
  have err: "hw \<notin> set (listeners w ''error'')" and srv: "hw \<notin> set (listeners w ''server.*'')"
    using only key unfolding onlyUnder_def by blast+
  show ?thesis
  proof (cases rule: onSocketEvent_cases [of w e])
    case dead
    then show ?thesis by simp
  next
    case opened
    then show ?thesis by (simp add: onOpen_def upd split: variant.splits)
  next
    case (ga ev r w1)
    have ty: "hw \<notin> set (listeners w (ev_type ev))"
      using only e [OF ga(2)] unfolding onlyUnder_def by blast
    from forEach_frame [of "listeners w (ev_type ev)" "ServerEvent ev" w] ga(4)
    have l1: "listeners w1 = listeners w" by simp
    from forEach_untouched [where hw = hw and f = f and hs = "listeners w (ev_type ev)"
        and p = "ServerEvent ev" and w = w, OF writer ty] ga(4)
    have fw1: "f w1 = f w" by simp
    from forEach_untouched [where hw = hw and f = f and hs = "listeners w1 ''server.*''"
        and p = "ServerEvent ev" and w = w1, OF writer] srv l1
    have "f (snd (forEach (listeners w1 ''server.*'') (ServerEvent ev) w1)) = f w1" by simp
    with ga(5) fw1 show ?thesis by (cases r) simp_all
  next
    case (sdk ev p r w1)
    have ty: "hw \<notin> set (listeners w (ev_type ev))"
      using only e [OF sdk(2)] unfolding onlyUnder_def by blast
    from forEach_untouched [where hw = hw and f = f and hs = "listeners w (ev_type ev)"
        and p = p and w = w, OF writer ty] sdk(4)
    have fw1: "f w1 = f w" by simp
    with sdk(5) show ?thesis by (cases r) (simp_all add: upd)
  next
    case (failed msg r w1)
    from forEach_untouched [where hw = hw and f = f and hs = "listeners w ''error''"
        and p = "SocketError msg" and w = w, OF writer err] failed(3)
    have fw1: "f w1 = f w" by simp
    with failed(4) show ?thesis
      by (cases r; cases "clientVariant w1") (simp_all add: upd)
  qed
qed



subsection \<open>Waiting on a timer\<close>

lemma messageTypes_takeWhile: "set (messageTypes (takeWhile P s)) \<subseteq> set (messageTypes s)"
  by (induction s) (auto simp: messageTypes_def eventTypes_def split: sock_event.splits)

lemma messageTypes_dropWhile: "set (messageTypes (dropWhile P s)) \<subseteq> set (messageTypes s)"
  by (induction s) (auto simp: messageTypes_def eventTypes_def split: sock_event.splits)

lemma deliver_frame:
  "script (deliver es w) = script w \<and> now (deliver es w) = now w
    \<and> timerLag (deliver es w) = timerLag w \<and> sockets (deliver es w) = sockets w
    \<and> sent (deliver es w) = sent w \<and> clientVariant (deliver es w) = clientVariant w
    \<and> audioChars (deliver es w) = audioChars w"
proof (induction es arbitrary: w)
  case Nil
  show ?case by (simp add: deliver_def)
next
  case (Cons e es)
  from Cons [of "onSocketEvent e w"] onSocketEvent_frame [of e w]
  show ?case by (simp add: deliver_def)
qed

lemma deliver_settled:
  assumes "settled w \<noteq> None"
  shows "settled (deliver es w) = settled w"
  using assms
proof (induction es arbitrary: w)
  case Nil
  show ?case by (simp add: deliver_def)
next
  case (Cons e es)
  from onSocketEvent_settled [OF Cons.prems, of e]
  have 1: "settled (onSocketEvent e w) = settled w" .
  with Cons.prems have "settled (onSocketEvent e w) \<noteq> None" by simp
  from Cons.IH [OF this] 1 show ?case by (simp add: deliver_def)
qed

lemma deliver_untouched:
  assumes writer: "\<And>h p w w'. h \<noteq> hw \<Longrightarrow> runHandler h p w = Inr w' \<Longrightarrow> f w' = f w"
    and upd: "\<And>w x. f (w\<lparr>uncaught := x\<rparr>) = f w" "\<And>w. f (close w) = f w"
      "\<And>r w. f (settle r w) = f w" "\<And>k h w. f (on k h w) = f w"
      "\<And>w x. f (w\<lparr>socketOpen := x\<rparr>) = f w"
    and hw: "hw \<noteq> OpenSessionCreated" "hw \<noteq> OpenErrorLog"
    and key: "key \<noteq> ''error''" "key \<noteq> ''server.*''"
    and only: "onlyUnder hw key w"
    and es: "key \<notin> set (eventTypes es)"
  shows "f (deliver es w) = f w \<and> onlyUnder hw key (deliver es w)"
  using only es
proof (induction es arbitrary: w)
  case Nil
  then show ?case by (simp add: deliver_def)
next
  case (Cons e es)
  have e: "ev_type ev \<noteq> key" if "e = SockMessage ev" for ev
    using Cons.prems(2) that by (auto simp: eventTypes_def)
  have rest: "key \<notin> set (eventTypes es)"
    using Cons.prems(2) by (auto simp: eventTypes_def)
  have 1: "f (onSocketEvent e w) = f w"
    using writer upd Cons.prems(1) key e
    by (rule onSocketEvent_untouched [where hw = hw and key = key and f = f and e = e and w = w])
  have 2: "onlyUnder hw key (onSocketEvent e w)"
    by (rule onlyUnder_onSocketEvent [OF Cons.prems(1) hw])
  from Cons.IH [OF 2 rest] 1 show ?case by (simp add: deliver_def)
qed

lemma sleep_frame:
  "now (sleep ms w) = now w + ms + nextLag w \<and> timerLag (sleep ms w) = tl (timerLag w)
    \<and> script (sleep ms w) = dropWhile (due (now w + ms + nextLag w)) (script w)
    \<and> sockets (sleep ms w) = sockets w \<and> sent (sleep ms w) = sent w
    \<and> clientVariant (sleep ms w) = clientVariant w \<and> audioChars (sleep ms w) = audioChars w"
  using deliver_frame [of "map snd (takeWhile (due (now w + ms + nextLag w)) (script w))"
      "w\<lparr>timerLag := tl (timerLag w),
         script := dropWhile (due (now w + ms + nextLag w)) (script w)\<rparr>"]
  by (simp add: sleep_def Let_def)

lemma nextLag_bound: "\<forall>l \<in> set (timerLag w). l \<le> m \<Longrightarrow> nextLag w \<le> m"
  by (cases "timerLag w") (simp_all add: nextLag_def)



subsection \<open>The handshake\<close>

lemma handshake_never_throws:
  assumes "set hs \<subseteq> handshakeHandlers"
  shows "fst (forEach hs p w) = None"
  using assms
proof (induction hs arbitrary: w)
  case Nil
  show ?case by simp
next
  case (Cons h hs)
  then have "h \<in> handshakeHandlers" and hs: "set hs \<subseteq> handshakeHandlers" by simp_all
  then obtain w' where "runHandler h p w = Inr w'"
    by (auto simp: handshakeHandlers_def)
  with Cons.IH [OF hs, of w'] show ?case by simp
qed

lemma handshakeOnly_onSocketEvent:
  assumes "handshakeOnly w"
  shows "handshakeOnly (onSocketEvent e w)"
  using assms listeners_onSocketEvent [of e w]
  unfolding handshakeOnly_def handshakeHandlers_def by blast

text \<open>No closure of the handshake throws: while only they are registered, the process
  lives.\<close>

lemma handshake_stays_caught:
  assumes "handshakeOnly w" and "\<not> uncaught w"
  shows "\<not> uncaught (onSocketEvent e w)"
proof (cases rule: onSocketEvent_cases [of w e])
  case dead
  with assms(2) show ?thesis by simp
next
  case opened
  with assms(2) show ?thesis by (simp add: onOpen_def on_fields split: variant.splits)
next
  case (ga ev r w1)
  from forEach_frame [of "listeners w (ev_type ev)" "ServerEvent ev" w] ga(4)
  have w1: "uncaught w1 = uncaught w" by simp
  show ?thesis
    using assms(2) ga(5) w1 forEach_frame [of "listeners w1 ''server.*''" "ServerEvent ev" w1]
    by (cases r) simp_all
next
  case (sdk ev p r w1)
  have "fst (forEach (listeners w (ev_type ev)) p w) = None"
    using assms(1) by (intro handshake_never_throws) (simp add: handshakeOnly_def)
  with sdk(4) have r: "r = None" by simp
  from forEach_frame [of "listeners w (ev_type ev)" p w] sdk(4)
  have w1: "uncaught w1 = uncaught w" by simp
  with assms(2) sdk(5) r show ?thesis by simp
next
  case (failed msg r w1)
  have "fst (forEach (listeners w ''error'') (SocketError msg) w) = None"
    using assms(1) by (intro handshake_never_throws) (simp add: handshakeOnly_def)
  with failed(3) have r: "r = None" by simp
  from forEach_frame [of "listeners w ''error''" "SocketError msg" w] failed(3)
  have w1: "uncaught w1 = uncaught w" by simp
  with assms(2) failed(4) r show ?thesis
    by (cases "clientVariant w1") (simp_all add: settle_fields close_fields)
qed

text \<open>A closure that is registered nowhere writes nothing.\<close>

lemma onSocketEvent_unregistered:
  assumes writer: "\<And>h p w w'. h \<noteq> hw \<Longrightarrow> runHandler h p w = Inr w' \<Longrightarrow> f w' = f w"
    and upd: "\<And>w x. f (w\<lparr>uncaught := x\<rparr>) = f w" "\<And>w. f (close w) = f w"
      "\<And>r w. f (settle r w) = f w" "\<And>k h w. f (on k h w) = f w"
      "\<And>w x. f (w\<lparr>socketOpen := x\<rparr>) = f w"
    and nowhere: "\<forall>k. hw \<notin> set (listeners w k)"
  shows "f (onSocketEvent e w) = f w"
proof -
  define key where "key = ''server.*_'' @ (case e of SockMessage ev \<Rightarrow> ev_type ev | _ \<Rightarrow> [])"
  have only: "onlyUnder hw key w"
    using nowhere by (simp add: onlyUnder_def)
  have k1: "key \<noteq> ''error''" and k2: "key \<noteq> ''server.*''"
    by (simp_all add: key_def)
  have k3: "ev_type ev \<noteq> key" if "e = SockMessage ev" for ev
    using that by (simp add: key_def)
  from writer upd only k1 k2 k3 show ?thesis
    by (rule onSocketEvent_untouched [where hw = hw and key = key and f = f and e = e and w = w])
qed

lemma deliver_handshake:
  assumes "handshakeOnly w"
  shows "handshakeOnly (deliver es w) \<and> (\<not> uncaught w \<longrightarrow> \<not> uncaught (deliver es w))"
  using assms
proof (induction es arbitrary: w)
  case Nil
  then show ?case by (simp add: deliver_def)
next
  case (Cons e es)
  have 1: "handshakeOnly (onSocketEvent e w)"
    by (rule handshakeOnly_onSocketEvent [OF Cons.prems])
  from Cons.IH [OF 1] handshake_stays_caught [OF Cons.prems, of e]
  show ?case by (auto simp: deliver_def)
qed

lemma deliver_unregistered:
  assumes writer: "\<And>h p w w'. h \<noteq> hw \<Longrightarrow> runHandler h p w = Inr w' \<Longrightarrow> f w' = f w"
    and upd: "\<And>w x. f (w\<lparr>uncaught := x\<rparr>) = f w" "\<And>w. f (close w) = f w"
      "\<And>r w. f (settle r w) = f w" "\<And>k h w. f (on k h w) = f w"
      "\<And>w x. f (w\<lparr>socketOpen := x\<rparr>) = f w"
    and hw: "hw \<notin> handshakeHandlers"
    and hs: "handshakeOnly w"
  shows "f (deliver es w) = f w"
  using hs
proof (induction es arbitrary: w)
  case Nil
  show ?case by (simp add: deliver_def)
next
  case (Cons e es)
  have nowhere: "\<forall>k. hw \<notin> set (listeners w k)"
    using Cons.prems hw unfolding handshakeOnly_def by blast
  from writer upd nowhere have 1: "f (onSocketEvent e w) = f w"
    by (rule onSocketEvent_unregistered [where hw = hw and f = f and e = e and w = w])
  have 2: "handshakeOnly (onSocketEvent e w)"
    by (rule handshakeOnly_onSocketEvent [OF Cons.prems])
  from Cons.IH [OF 2] 1 show ?case by (simp add: deliver_def)
qed

text \<open>The timer of the handshake.\<close>

lemma openTimeout_frame:
  "script (openTimeout w) = script w \<and> now (openTimeout w) = now w
    \<and> timerLag (openTimeout w) = timerLag w \<and> sockets (openTimeout w) = sockets w
    \<and> sent (openTimeout w) = sent w \<and> clientVariant (openTimeout w) = clientVariant w
    \<and> audioChars (openTimeout w) = audioChars w"
proof (cases "clientVariant w")
  case Preview
  then show ?thesis by (simp add: openTimeout_def settle_fields)
next
  case GA
  let ?w1 = "settle
      (Inl (Error ''WebSocket connection timeout - did not receive session.created''))
      (close w)"
  from onSocketEvent_frame
    [of "SockError ''WebSocket was closed before the connection was established''" ?w1]
  show ?thesis
    using GA by (simp add: openTimeout_def Let_def settle_fields close_fields)
qed

lemma openTimeout_handshake:
  assumes "handshakeOnly w" and "settled w = None"
  shows "handshakeOnly (openTimeout w) \<and> (\<exists>e. settled (openTimeout w) = Some (Inl e))"
proof (cases "clientVariant w")
  case Preview
  with assms show ?thesis
    by (simp add: openTimeout_def handshakeOnly_def settle_def)
next
  case GA
  let ?w1 = "settle
      (Inl (Error ''WebSocket connection timeout - did not receive session.created''))
      (close w)"
  let ?e = "SockError ''WebSocket was closed before the connection was established''"
  have h1: "handshakeOnly ?w1"
    using assms(1) by (simp add: handshakeOnly_def settle_fields close_fields)
  have s1: "settled ?w1
      = Some (Inl (Error ''WebSocket connection timeout - did not receive session.created''))"
    using assms(2) by (simp add: settle_def close_def)
  then have "settled ?w1 \<noteq> None" by simp
  from onSocketEvent_settled [OF this, of ?e] s1
  have s2: "settled (onSocketEvent ?e ?w1)
      = Some (Inl (Error ''WebSocket connection timeout - did not receive session.created''))"
    by simp
  from handshakeOnly_onSocketEvent [OF h1, of ?e] h1 s1 s2 GA
  show ?thesis by (simp add: openTimeout_def Let_def)
qed

lemma openTimeout_untouched:
  assumes writer: "\<And>h p w w'. h \<noteq> hw \<Longrightarrow> runHandler h p w = Inr w' \<Longrightarrow> f w' = f w"
    and upd: "\<And>w x. f (w\<lparr>uncaught := x\<rparr>) = f w" "\<And>w. f (close w) = f w"
      "\<And>r w. f (settle r w) = f w" "\<And>k h w. f (on k h w) = f w"
      "\<And>w x. f (w\<lparr>socketOpen := x\<rparr>) = f w"
    and hw: "hw \<notin> handshakeHandlers"
    and hs: "handshakeOnly w"
  shows "f (openTimeout w) = f w"
proof (cases "clientVariant w")
  case Preview
  then show ?thesis by (simp add: openTimeout_def upd)
next
  case GA
  let ?w1 = "settle
      (Inl (Error ''WebSocket connection timeout - did not receive session.created''))
      (close w)"
  let ?e = "SockError ''WebSocket was closed before the connection was established''"
  have "handshakeOnly ?w1"
    using hs by (simp add: handshakeOnly_def settle_fields close_fields)
  then have nowhere: "\<forall>k. hw \<notin> set (listeners ?w1 k)"
    using hw unfolding handshakeOnly_def by blast
  from writer upd nowhere have "f (onSocketEvent ?e ?w1) = f ?w1"
    by (rule onSocketEvent_unregistered [where hw = hw and f = f and e = ?e and w = ?w1])
  with GA show ?thesis by (simp add: openTimeout_def Let_def upd)
qed

text \<open>The reports read together with the one that settles the promise.\<close>

lemma sameRead_frame:
  "now (sameRead w) = now w
    \<and> script (sameRead w) = dropWhile (due (now w + 1)) (script w)
    \<and> timerLag (sameRead w) = timerLag w \<and> sockets (sameRead w) = sockets w
    \<and> sent (sameRead w) = sent w \<and> clientVariant (sameRead w) = clientVariant w
    \<and> audioChars (sameRead w) = audioChars w"
  using deliver_frame [of "map snd (takeWhile (due (now w + 1)) (script w))"
      "w\<lparr>script := dropWhile (due (now w + 1)) (script w)\<rparr>"]
  by (simp add: sameRead_def Let_def)

lemma sameRead_handshake:
  assumes "handshakeOnly w"
  shows "handshakeOnly (sameRead w) \<and> (\<not> uncaught w \<longrightarrow> \<not> uncaught (sameRead w))
    \<and> (settled w \<noteq> None \<longrightarrow> settled (sameRead w) = settled w)"
proof -
  let ?w0 = "w\<lparr>script := dropWhile (due (now w + 1)) (script w)\<rparr>"
  let ?es = "map snd (takeWhile (due (now w + 1)) (script w))"
  have "handshakeOnly ?w0" using assms by (simp add: handshakeOnly_def)
  from deliver_handshake [OF this, of ?es] deliver_settled [of ?w0 ?es]
  show ?thesis by (simp add: sameRead_def Let_def)
qed

lemma sameRead_untouched:
  assumes writer: "\<And>h p w w'. h \<noteq> hw \<Longrightarrow> runHandler h p w = Inr w' \<Longrightarrow> f w' = f w"
    and upd: "\<And>w x. f (w\<lparr>uncaught := x\<rparr>) = f w" "\<And>w. f (close w) = f w"
      "\<And>r w. f (settle r w) = f w" "\<And>k h w. f (on k h w) = f w"
      "\<And>w x. f (w\<lparr>socketOpen := x\<rparr>) = f w"
    and upd3: "\<And>w x. f (w\<lparr>script := x\<rparr>) = f w"
    and hw: "hw \<notin> handshakeHandlers"
    and hs: "handshakeOnly w"
  shows "f (sameRead w) = f w"
proof -
  let ?w0 = "w\<lparr>script := dropWhile (due (now w + 1)) (script w)\<rparr>"
  let ?es = "map snd (takeWhile (due (now w + 1)) (script w))"
  have h0: "handshakeOnly ?w0" using hs by (simp add: handshakeOnly_def)
  from writer upd hw h0 have "f (deliver ?es ?w0) = f ?w0"
    by (rule deliver_unregistered [where hw = hw and f = f and es = ?es and w = ?w0])
  then show ?thesis by (simp add: sameRead_def Let_def upd3)
qed

text \<open>What is left of the script when the caller resumes comes later than that moment.\<close>

lemma sameRead_later:
  "script (sameRead w) = [] \<or> now (sameRead w) < fst (hd (script (sameRead w)))"
proof (cases "dropWhile (due (now w + 1)) (script w) = []")
  case True
  with sameRead_frame [of w] show ?thesis by simp
next
  case False
  then have "\<not> due (now w + 1) (hd (dropWhile (due (now w + 1)) (script w)))"
    by (rule hd_dropWhile)
  with sameRead_frame [of w] show ?thesis by (simp add: due_def)
qed

lemma awaitSettled_handshake:
  assumes "handshakeOnly w" and "settled w = None"
  shows "handshakeOnly (awaitSettled deadline s w)
    \<and> settled (awaitSettled deadline s w) \<noteq> None
    \<and> (settled (awaitSettled deadline s w) = Some (Inr ())
          \<longrightarrow> \<not> uncaught (awaitSettled deadline s w)
              \<and> (script (awaitSettled deadline s w) = []
                  \<or> now (awaitSettled deadline s w)
                       < fst (hd (script (awaitSettled deadline s w)))))"
  using assms
proof (induction s arbitrary: w)
  case Nil
  let ?w = "w\<lparr>script := [], now := deadline\<rparr>"
  have "handshakeOnly ?w" "settled ?w = None"
    using Nil by (simp_all add: handshakeOnly_def)
  from openTimeout_handshake [OF this] show ?case by auto
next
  case (Cons te s)
  obtain t e where te: "te = (t, e)" by (cases te)
  show ?case
  proof (cases "t < deadline")
    case False
    let ?w = "w\<lparr>script := (t, e) # s, now := deadline\<rparr>"
    have "handshakeOnly ?w" "settled ?w = None"
      using Cons.prems by (simp_all add: handshakeOnly_def)
    from openTimeout_handshake [OF this] False show ?thesis
      unfolding te by auto
  next
    case True
    let ?w0 = "w\<lparr>script := s, now := max (now w) t\<rparr>"
    let ?w' = "onSocketEvent e ?w0"
    have h0: "handshakeOnly ?w0" using Cons.prems(1) by (simp add: handshakeOnly_def)
    have h': "handshakeOnly ?w'" by (rule handshakeOnly_onSocketEvent [OF h0])
    show ?thesis
    proof (cases "settled ?w' = None")
      case True
      with Cons.IH [OF h' True] \<open>t < deadline\<close> show ?thesis
        unfolding te by (simp add: Let_def)
    next
      case False
      have res: "awaitSettled deadline (te # s) w = sameRead ?w'"
        using False \<open>t < deadline\<close> unfolding te by (auto simp: Let_def)
      from sameRead_handshake [OF h'] False
      have hs: "handshakeOnly (sameRead ?w')" and st: "settled (sameRead ?w') = settled ?w'"
        and unc: "\<not> uncaught ?w' \<longrightarrow> \<not> uncaught (sameRead ?w')"
        by simp_all
      have "\<not> uncaught ?w'"
      proof (cases "uncaught w")
        case True
        then have "?w' = ?w0" by (simp add: onSocketEvent_def)
        with Cons.prems(2) False show ?thesis by simp
      next
        case False
        then have "\<not> uncaught ?w0" by simp
        from handshake_stays_caught [OF h0 this] show ?thesis .
      qed
      with unc have "\<not> uncaught (sameRead ?w')" by simp
      with hs st False sameRead_later [of ?w'] show ?thesis
        unfolding res by simp
    qed
  qed
qed

lemma awaitSettled_untouched:
  assumes writer: "\<And>h p w w'. h \<noteq> hw \<Longrightarrow> runHandler h p w = Inr w' \<Longrightarrow> f w' = f w"
    and upd: "\<And>w x. f (w\<lparr>uncaught := x\<rparr>) = f w" "\<And>w. f (close w) = f w"
      "\<And>r w. f (settle r w) = f w" "\<And>k h w. f (on k h w) = f w"
      "\<And>w x. f (w\<lparr>socketOpen := x\<rparr>) = f w"
    and upd2: "\<And>w x y. f (w\<lparr>script := x, now := y\<rparr>) = f w"
    and upd3: "\<And>w x. f (w\<lparr>script := x\<rparr>) = f w"
    and hw: "hw \<notin> handshakeHandlers"
    and hs: "handshakeOnly w"
  shows "f (awaitSettled deadline s w) = f w"
  using hs
proof (induction s arbitrary: w)
  case Nil
  have "handshakeOnly (w\<lparr>script := [], now := deadline\<rparr>)"
    using Nil by (simp add: handshakeOnly_def)
  with writer upd hw have "f (openTimeout (w\<lparr>script := [], now := deadline\<rparr>))
      = f (w\<lparr>script := [], now := deadline\<rparr>)"
    by (rule openTimeout_untouched [where hw = hw and f = f])
  then show ?case by (simp add: upd2)
next
  case (Cons te s)
  obtain t e where te: "te = (t, e)" by (cases te)
  let ?w0 = "w\<lparr>script := s, now := max (now w) t\<rparr>"
  let ?wt = "w\<lparr>script := (t, e) # s, now := deadline\<rparr>"
  have h0: "handshakeOnly ?w0" and ht: "handshakeOnly ?wt"
    using Cons.prems by (simp_all add: handshakeOnly_def)
  have nowhere: "\<forall>k. hw \<notin> set (listeners ?w0 k)"
    using h0 hw unfolding handshakeOnly_def by blast
  from writer upd nowhere have 1: "f (onSocketEvent e ?w0) = f ?w0"
    by (rule onSocketEvent_unregistered [where hw = hw and f = f and e = e and w = ?w0])
  have 2: "handshakeOnly (onSocketEvent e ?w0)"
    by (rule handshakeOnly_onSocketEvent [OF h0])
  from writer upd upd3 hw 2 have 3: "f (sameRead (onSocketEvent e ?w0)) = f (onSocketEvent e ?w0)"
    by (rule sameRead_untouched [where hw = hw and f = f])
  from writer upd hw ht have 4: "f (openTimeout ?wt) = f ?wt"
    by (rule openTimeout_untouched [where hw = hw and f = f])
  from Cons.IH [OF 2] 1 3 4 show ?case
    unfolding te by (simp add: Let_def upd2)
qed

lemma awaitSettled_frame:
  "sent (awaitSettled deadline s w) = sent w
    \<and> audioChars (awaitSettled deadline s w) = audioChars w
    \<and> sockets (awaitSettled deadline s w) = sockets w
    \<and> timerLag (awaitSettled deadline s w) = timerLag w
    \<and> clientVariant (awaitSettled deadline s w) = clientVariant w"
proof (induction s arbitrary: w)
  case Nil
  from openTimeout_frame [of "w\<lparr>script := [], now := deadline\<rparr>"]
  show ?case by simp
next
  case (Cons te s)
  obtain t e where te: "te = (t, e)" by (cases te)
  let ?w0 = "w\<lparr>script := s, now := max (now w) t\<rparr>"
  from Cons [of "onSocketEvent e ?w0"] onSocketEvent_frame [of e ?w0]
    sameRead_frame [of "onSocketEvent e ?w0"]
    openTimeout_frame [of "w\<lparr>script := (t, e) # s, now := deadline\<rparr>"]
  show ?case
    unfolding te by (simp add: Let_def)
qed

text \<open>What a caller knows of the state once \<^verbatim>\<open>createRealtimeClient\<close> has resolved.\<close>

lemma createRealtimeClient_resolved:
  assumes "createRealtimeClient config w = (Inr u, w1)"
  shows "handshakeOnly w1 \<and> settled w1 = Some (Inr ()) \<and> \<not> uncaught w1
    \<and> responseDone w1 = responseDone w \<and> audioChunks w1 = audioChunks w
    \<and> sessionConfigured w1 = sessionConfigured w \<and> transcriptText w1 = transcriptText w
    \<and> sent w1 = sent w \<and> audioChars w1 = audioChars w \<and> sockets w1 = sockets w + 1
    \<and> timerLag w1 = tl (timerLag w)
    \<and> (script w1 = [] \<or> now w1 < fst (hd (script w1)))"
proof (cases "getRealtimeConfig config")
  case (Inl e)
  with assms show ?thesis by (simp add: createRealtimeClient_def)
next
  case (Inr c)
  define v where "v = (if isGAModel (deployment c) then GA else Preview)"
  define client where "client = w\<lparr>sockets := sockets w + 1, clientVariant := v,
                          socketOpen := False, listeners := (\<lambda>_. []), settled := None\<rparr>"
  define client' where "client' = (case v of
                           GA \<Rightarrow> client
                         | Preview \<Rightarrow>
                             on ''session.created'' PreviewSessionCreated
                               (on ''error'' PreviewError client))"
  define w0 where "w0 = client'\<lparr>timerLag := tl (timerLag w)\<rparr>"
  define w' where "w' = awaitSettled (now w + 10000 + nextLag w) (script w) w0"
  have res: "createRealtimeClient config w =
      (case settled w' of Some (Inl e) \<Rightarrow> (Inl e, w') | _ \<Rightarrow> (Inr (), w'))"
    by (simp only: createRealtimeClient_def Inr Let_def v_def client_def client'_def w0_def
        w'_def sum.case)
  have hs0: "handshakeOnly w0"
    by (cases v) (auto simp: w0_def client'_def client_def handshakeOnly_def
          handshakeHandlers_def on_def)
  have st0: "settled w0 = None"
    by (cases v) (simp_all add: w0_def client'_def client_def on_def)
  have f0: "responseDone w0 = responseDone w" "audioChunks w0 = audioChunks w"
    "sessionConfigured w0 = sessionConfigured w" "transcriptText w0 = transcriptText w"
    "sent w0 = sent w" "audioChars w0 = audioChars w" "sockets w0 = sockets w + 1"
    "timerLag w0 = tl (timerLag w)"
    by (simp_all add: w0_def client'_def client_def on_def split: variant.splits)
  from awaitSettled_handshake [OF hs0 st0, of "now w + 10000 + nextLag w" "script w"]
  have hs: "handshakeOnly w'" and st: "settled w' \<noteq> None"
    and unc: "settled w' = Some (Inr ()) \<longrightarrow> \<not> uncaught w'
        \<and> (script w' = [] \<or> now w' < fst (hd (script w')))"
    by (simp_all add: w'_def)
  from assms res st have w1: "w1 = w'" and stl: "settled w' = Some (Inr ())"
    by (auto split: option.splits sum.splits)
  have rd: "responseDone w' = responseDone w0"
    unfolding w'_def
    by (rule awaitSettled_untouched [where hw = TtsResponseDone, OF responseDone_writer _ _ _ _ _ _ _ _ hs0])
       (simp_all add: settle_fields close_fields on_fields handshakeHandlers_def)
  have ac: "audioChunks w' = audioChunks w0"
    unfolding w'_def
    by (rule awaitSettled_untouched [where hw = TtsAudioDelta, OF audioChunks_writer _ _ _ _ _ _ _ _ hs0])
       (simp_all add: settle_fields close_fields on_fields handshakeHandlers_def)
  have sc: "sessionConfigured w' = sessionConfigured w0"
    unfolding w'_def
    by (rule awaitSettled_untouched [where hw = SttSessionUpdated, OF sessionConfigured_writer _ _ _ _ _ _ _ _ hs0])
       (simp_all add: settle_fields close_fields on_fields handshakeHandlers_def)
  have tt: "transcriptText w' = transcriptText w0"
    unfolding w'_def
    by (rule awaitSettled_untouched [where hw = SttTranscription, OF transcriptText_writer _ _ _ _ _ _ _ _ hs0])
       (simp_all add: settle_fields close_fields on_fields handshakeHandlers_def)
  from awaitSettled_frame [of "now w + 10000 + nextLag w" "script w" w0]
  have fr: "sent w' = sent w0" "audioChars w' = audioChars w0" "sockets w' = sockets w0"
    "timerLag w' = timerLag w0"
    by (simp_all add: w'_def)
  from hs stl unc rd ac sc tt fr f0 show ?thesis
    unfolding w1 by simp
qed



subsection \<open>Synthesis on an open session\<close>

lemma beginSynthesis_fields:
  "responseDone (beginSynthesis t w) = False" "audioChunks (beginSynthesis t w) = []"
  "sent (beginSynthesis t w) = sent w" "audioChars (beginSynthesis t w) = audioChars w + length t"
  "sockets (beginSynthesis t w) = sockets w" "closeCalls (beginSynthesis t w) = closeCalls w"
  by (simp_all add: beginSynthesis_def recordAudioChars_def)

lemma synthesisOnSession_listening:
  "synthesisOnSession t voice w1 =
     (if uncaught (waitResponseDone (now w1) (listening t w1)) then
        (Inl ProcessExit, waitResponseDone (now w1) (listening t w1))
      else if \<not> responseDone (waitResponseDone (now w1) (listening t w1)) then
        (Inl (synthesisFailed (Error ''Synthesis timeout - no response received'')),
         close (waitResponseDone (now w1) (listening t w1)))
      else (case wavFrame (concat (audioChunks (waitResponseDone (now w1) (listening t w1))))
                   24000 1 16 of
              Inl e \<Rightarrow> (Inl (synthesisFailed e), close (waitResponseDone (now w1) (listening t w1)))
            | Inr audioBuffer \<Rightarrow>
                (Inr audioBuffer, close (waitResponseDone (now w1) (listening t w1)))))"
proof -
  have n: "now (send ResponseCreate (send (ConversationItemCreate t)
       (on ''server.*'' TtsLogAll (on ''response.done'' TtsResponseDone
         (on ''response.output_audio.delta'' TtsAudioDelta (on ''error'' TtsError w1)))))) = now w1"
    by (simp add: send_fields on_fields)
  show ?thesis
    unfolding synthesisOnSession_def listening_def configureRealtimeSession_def Let_def n
    by (rule refl)
qed

lemma listening_fields:
  "script (listening t w1) = script w1" "now (listening t w1) = now w1"
  "timerLag (listening t w1) = timerLag w1" "sockets (listening t w1) = sockets w1"
  "closeCalls (listening t w1) = closeCalls w1" "uncaught (listening t w1) = uncaught w1"
  "audioChars (listening t w1) = audioChars w1" "audioChunks (listening t w1) = audioChunks w1"
  "responseDone (listening t w1) = responseDone w1" "settled (listening t w1) = settled w1"
  "sent (listening t w1) = sent w1 @ [ConversationItemCreate t, ResponseCreate]"
  "clientVariant (listening t w1) = clientVariant w1"
  by (simp_all add: listening_def send_fields on_fields)

lemma listening_listeners:
  "listeners (listening t w1) =
     (listeners w1)
       (''error'' := listeners w1 ''error'' @ [TtsError],
        ''response.output_audio.delta'' := listeners w1 ''response.output_audio.delta'' @ [TtsAudioDelta],
        ''response.done'' := listeners w1 ''response.done'' @ [TtsResponseDone],
        ''server.*'' := listeners w1 ''server.*'' @ [TtsLogAll])"
  by (simp add: listening_def send_def on_def)



subsection \<open>The effect of a message on a listening session\<close>

lemma forEach_append:
  "forEach (xs @ ys) p w =
     (case forEach xs p w of
        (Some e, w') \<Rightarrow> (Some e, w')
      | (None, w') \<Rightarrow> forEach ys p w')"
proof (induction xs arbitrary: w)
  case Nil
  show ?case by simp
next
  case (Cons h xs)
  show ?case
    by (cases "runHandler h p w") (simp_all add: Cons)
qed

lemma handshake_idle:
  assumes "set hs \<subseteq> handshakeHandlers" and "settled w \<noteq> None"
  shows "forEach hs p w = (None, w)"
  using assms(1)
proof (induction hs)
  case Nil
  show ?case by simp
next
  case (Cons h hs)
  then have "h \<in> handshakeHandlers" by simp
  then have "runHandler h p w = Inr w"
    using assms(2) by (auto simp: handshakeHandlers_def settle_def)
  with Cons show ?case by simp
qed

text \<open>The wrapper of the GA branch, which catches what a listener throws.\<close>

lemma onMessage_listening:
  assumes l: "listeners w = listeners (listening t w1)" and hs: "handshakeOnly w1"
    and st: "settled w \<noteq> None"
  shows "onMessage ev w = synthStep ev w"
proof -
  have pre: "set (listeners w1 k) \<subseteq> handshakeHandlers" for k
    using hs by (simp add: handshakeOnly_def)
  have idle: "forEach (listeners w1 k) p w' = (None, w')" if "settled w' \<noteq> None" for k p w'
    using pre that by (rule handshake_idle)
  have srv: "forEach (listeners w' ''server.*'') p w' = (None, w')"
    if "listeners w' = listeners w" "settled w' \<noteq> None" for w' p
    using that idle [of w' "''server.*''" p]
    by (simp add: l listening_listeners forEach_append)
  consider (completion) "ev_type ev = ''response.done''"
    | (delta) "ev_type ev = ''response.output_audio.delta''"
    | (server) "ev_type ev = ''server.*''"
    | (error) "ev_type ev = ''error''"
    | (other) "ev_type ev \<noteq> ''response.done''" "ev_type ev \<noteq> ''response.output_audio.delta''"
        "ev_type ev \<noteq> ''server.*''" "ev_type ev \<noteq> ''error''"
    by blast
  then show ?thesis
  proof cases
    case completion
    have "forEach (listeners w (ev_type ev)) (ServerEvent ev) w = (None, w\<lparr>responseDone := True\<rparr>)"
      using idle [OF st, of "''response.done''" "ServerEvent ev"]
      by (simp add: l completion listening_listeners forEach_append)
    moreover have "forEach (listeners (w\<lparr>responseDone := True\<rparr>) ''server.*'') (ServerEvent ev)
        (w\<lparr>responseDone := True\<rparr>) = (None, w\<lparr>responseDone := True\<rparr>)"
      using st by (intro srv) simp_all
    ultimately show ?thesis
      by (simp add: onMessage_def synthStep_def completion)
  next
    case delta
    show ?thesis
    proof (cases "ev_delta ev")
      case None
      have "forEach (listeners w (ev_type ev)) (ServerEvent ev) w
          = (Some (TypeError ''ERR_INVALID_ARG_TYPE''), w)"
        using idle [OF st, of "''response.output_audio.delta''" "ServerEvent ev"] None
        by (simp add: l delta listening_listeners forEach_append)
      then show ?thesis
        by (simp add: onMessage_def synthStep_def delta None)
    next
      case (Some d)
      let ?w' = "w\<lparr>audioChunks := audioChunks w @ [base64_decode d]\<rparr>"
      have "forEach (listeners w (ev_type ev)) (ServerEvent ev) w = (None, ?w')"
        using idle [OF st, of "''response.output_audio.delta''" "ServerEvent ev"] Some
        by (simp add: l delta listening_listeners forEach_append)
      moreover have "forEach (listeners ?w' ''server.*'') (ServerEvent ev) ?w' = (None, ?w')"
        using st by (intro srv) simp_all
      ultimately show ?thesis
        by (simp add: onMessage_def synthStep_def delta Some)
    qed
  next
    case server
    have "forEach (listeners w (ev_type ev)) (ServerEvent ev) w = (None, w)"
      using srv [of w "ServerEvent ev"] st by (simp add: server)
    moreover have "forEach (listeners w ''server.*'') (ServerEvent ev) w = (None, w)"
      using srv [of w "ServerEvent ev"] st by simp
    ultimately show ?thesis
      by (simp add: onMessage_def synthStep_def server)
  next
    case error
    have "forEach (listeners w (ev_type ev)) (ServerEvent ev) w = (Some ThrownValue, w)"
      using idle [OF st, of "''error''" "ServerEvent ev"]
      by (simp add: l error listening_listeners forEach_append)
    then show ?thesis
      by (simp add: onMessage_def synthStep_def error)
  next
    case other
    have "forEach (listeners w (ev_type ev)) (ServerEvent ev) w = (None, w)"
      using idle [OF st, of "ev_type ev" "ServerEvent ev"] other
      by (simp add: l listening_listeners)
    moreover have "forEach (listeners w ''server.*'') (ServerEvent ev) w = (None, w)"
      using srv [of w "ServerEvent ev"] st by simp
    ultimately show ?thesis
      using other by (simp add: onMessage_def synthStep_def)
  qed
qed

text \<open>The SDK's client, which catches nothing: the same effect on the events on which no
  listener throws.\<close>

lemma sdkMessage_listening:
  assumes l: "listeners w = listeners (listening t w1)" and hs: "handshakeOnly w1"
    and st: "settled w \<noteq> None" and q: "quiet ev"
  shows "sdkMessage ev w = synthStep ev w"
proof -
  have pre: "set (listeners w1 k) \<subseteq> handshakeHandlers" for k
    using hs by (simp add: handshakeOnly_def)
  have idle: "forEach (listeners w1 k) p w' = (None, w')" if "settled w' \<noteq> None" for k p w'
    using pre that by (rule handshake_idle)
  have noerr: "ev_type ev \<noteq> ''error''" using q by (simp add: quiet_def)
  have sdk: "sdkMessage ev w =
      (case forEach (listeners w (ev_type ev)) (ServerEvent ev) w of
         (Some e, w') \<Rightarrow> w'\<lparr>uncaught := True\<rparr>
       | (None, w') \<Rightarrow> w')"
    using noerr by (simp add: sdkMessage_def)
  consider (completion) "ev_type ev = ''response.done''"
    | (delta) "ev_type ev = ''response.output_audio.delta''"
    | (server) "ev_type ev = ''server.*''"
    | (other) "ev_type ev \<noteq> ''response.done''" "ev_type ev \<noteq> ''response.output_audio.delta''"
        "ev_type ev \<noteq> ''server.*''" "ev_type ev \<noteq> ''error''"
    using noerr by blast
  then show ?thesis
  proof cases
    case completion
    have "forEach (listeners w (ev_type ev)) (ServerEvent ev) w = (None, w\<lparr>responseDone := True\<rparr>)"
      using idle [OF st, of "''response.done''" "ServerEvent ev"]
      by (simp add: l completion listening_listeners forEach_append)
    then show ?thesis
      by (simp add: sdk synthStep_def completion)
  next
    case delta
    with q obtain d where d: "ev_delta ev = Some d" by (auto simp: quiet_def)
    let ?w' = "w\<lparr>audioChunks := audioChunks w @ [base64_decode d]\<rparr>"
    have "forEach (listeners w (ev_type ev)) (ServerEvent ev) w = (None, ?w')"
      using idle [OF st, of "''response.output_audio.delta''" "ServerEvent ev"] d
      by (simp add: l delta listening_listeners forEach_append)
    then show ?thesis
      by (simp add: sdk synthStep_def delta d)
  next
    case server
    have "forEach (listeners w (ev_type ev)) (ServerEvent ev) w = (None, w)"
      using idle [OF st, of "''server.*''" "ServerEvent ev"]
      by (simp add: l server listening_listeners forEach_append)
    then show ?thesis
      by (simp add: sdk synthStep_def server)
  next
    case other
    have "forEach (listeners w (ev_type ev)) (ServerEvent ev) w = (None, w)"
      using idle [OF st, of "ev_type ev" "ServerEvent ev"] other
      by (simp add: l listening_listeners)
    then show ?thesis
      using other by (simp add: sdk synthStep_def)
  qed
qed

lemma synthStep_fields:
  "listeners (synthStep ev w) = listeners w" "settled (synthStep ev w) = settled w"
  "uncaught (synthStep ev w) = uncaught w" "script (synthStep ev w) = script w"
  "now (synthStep ev w) = now w" "timerLag (synthStep ev w) = timerLag w"
  "sockets (synthStep ev w) = sockets w" "closeCalls (synthStep ev w) = closeCalls w"
  "sent (synthStep ev w) = sent w" "audioChars (synthStep ev w) = audioChars w"
  "clientVariant (synthStep ev w) = clientVariant w"
  by (simp_all add: synthStep_def split: option.splits)

text \<open>A run of messages on a listening session: the chunks are appended in the order of
  delivery, and the completion flag is set by the first \<open>response.done\<close>.\<close>

lemma deliver_messages:
  assumes "listeners w = listeners (listening t w1)" and "handshakeOnly w1"
    and "settled w \<noteq> None" and "\<not> uncaught w"
    and "clientVariant w = GA \<or> (\<forall>ev \<in> set evs. quiet ev)"
  shows "listeners (deliver (map SockMessage evs) w) = listeners w
    \<and> settled (deliver (map SockMessage evs) w) = settled w
    \<and> uncaught (deliver (map SockMessage evs) w) = uncaught w
    \<and> closeCalls (deliver (map SockMessage evs) w) = closeCalls w
    \<and> audioChunks (deliver (map SockMessage evs) w) = audioChunks w @ deltaChunks evs
    \<and> responseDone (deliver (map SockMessage evs) w)
        = (responseDone w \<or> ''response.done'' \<in> ev_type ` set evs)"
  using assms(1,3,4,5)
proof (induction evs arbitrary: w)
  case Nil
  show ?case by (simp add: deliver_def)
next
  case (Cons ev evs)
  have step: "onSocketEvent (SockMessage ev) w = synthStep ev w"
  proof (cases "clientVariant w")
    case GA
    with Cons.prems(3) onMessage_listening [OF Cons.prems(1) assms(2) Cons.prems(2)]
    show ?thesis by (simp add: onSocketEvent_def)
  next
    case Preview
    with Cons.prems(4) have "quiet ev" by simp
    from sdkMessage_listening [OF Cons.prems(1) assms(2) Cons.prems(2) this] Preview
      Cons.prems(3)
    show ?thesis by (simp add: onSocketEvent_def)
  qed
  have d: "deliver (map SockMessage (ev # evs)) w = deliver (map SockMessage evs) (synthStep ev w)"
    by (simp add: deliver_def step)
  have "listeners (synthStep ev w) = listeners (listening t w1)"
    "settled (synthStep ev w) \<noteq> None" "\<not> uncaught (synthStep ev w)"
    "clientVariant (synthStep ev w) = GA \<or> (\<forall>ev \<in> set evs. quiet ev)"
    using Cons.prems by (auto simp: synthStep_fields)
  from Cons.IH [OF this] show ?case
    unfolding d
    by (auto simp: synthStep_fields synthStep_def split: option.splits)
qed

lemma due_messages: "takeWhile (due d) (messages s) = messages (takeWhile (due d) s)"
  "dropWhile (due d) (messages s) = messages (dropWhile (due d) s)"
  by (induction s) (simp_all add: messages_def due_def)

lemma messages_snd: "map snd (messages s) = map SockMessage (map snd s)"
  by (simp add: messages_def)

lemma sleep_messages:
  assumes "listeners w = listeners (listening t w1)" and "handshakeOnly w1"
    and "settled w \<noteq> None" and "\<not> uncaught w" and "script w = messages s"
    and "clientVariant w = GA \<or> (\<forall>te \<in> set s. quiet (snd te))"
  shows "listeners (sleep ms w) = listeners w \<and> settled (sleep ms w) = settled w
    \<and> uncaught (sleep ms w) = uncaught w \<and> closeCalls (sleep ms w) = closeCalls w
    \<and> script (sleep ms w) = messages (dropWhile (due (now w + ms + nextLag w)) s)
    \<and> audioChunks (sleep ms w)
        = audioChunks w @ deltaChunks (map snd (takeWhile (due (now w + ms + nextLag w)) s))
    \<and> responseDone (sleep ms w)
        = (responseDone w
            \<or> ''response.done'' \<in> ev_type ` snd ` set (takeWhile (due (now w + ms + nextLag w)) s))"
proof -
  let ?d = "now w + ms + nextLag w"
  let ?w1 = "w\<lparr>timerLag := tl (timerLag w), script := dropWhile (due ?d) (script w)\<rparr>"
  have q: "clientVariant ?w1 = GA \<or> (\<forall>ev \<in> set (map snd (takeWhile (due ?d) s)). quiet ev)"
    using assms(6) set_takeWhileD [of _ "due ?d" s] by auto
  have "listeners ?w1 = listeners (listening t w1)" "settled ?w1 \<noteq> None" "\<not> uncaught ?w1"
    using assms by simp_all
  from deliver_messages [OF this(1) assms(2) this(2,3) q]
    sleep_frame [of ms w]
  show ?thesis
    by (simp add: sleep_def Let_def assms(5) due_messages messages_snd image_image)
qed

lemma deltaChunks_append: "deltaChunks (xs @ ys) = deltaChunks xs @ deltaChunks ys"
  by (induction xs) simp_all

lemma deltaChunks_none:
  "''response.output_audio.delta'' \<notin> ev_type ` set evs \<Longrightarrow> deltaChunks evs = []"
  by (induction evs) auto



subsection \<open>The wait for the completion\<close>

text \<open>When no completion comes: the wait ends at the first poll after 30 s.\<close>

lemma waitResponseDone_never_done:
  assumes "listeners w = listeners (listening t w1)" and "handshakeOnly w1"
    and "settled w \<noteq> None" and "\<not> uncaught w"
    and "script w = messages s"
    and "clientVariant w = GA \<or> (\<forall>te \<in> set s. quiet (snd te))"
    and "''response.done'' \<notin> ev_type ` snd ` set s"
    and "\<not> responseDone w"
    and "\<forall>l \<in> set (timerLag w). l \<le> m"
    and "now w < startWait + 30000 + 100 + m"
  shows "\<not> responseDone (waitResponseDone startWait w)
    \<and> \<not> uncaught (waitResponseDone startWait w)
    \<and> startWait + 30000 \<le> now (waitResponseDone startWait w)
    \<and> now (waitResponseDone startWait w) < startWait + 30000 + 100 + m
    \<and> closeCalls (waitResponseDone startWait w) = closeCalls w
    \<and> sent (waitResponseDone startWait w) = sent w
    \<and> sockets (waitResponseDone startWait w) = sockets w
    \<and> audioChars (waitResponseDone startWait w) = audioChars w"
  using assms
proof (induction startWait w arbitrary: s rule: waitResponseDone.induct)
  case (1 startWait w)
  note l = "1.prems"(1) and hs = "1.prems"(2) and st = "1.prems"(3) and unc = "1.prems"(4)
    and sc = "1.prems"(5) and q = "1.prems"(6) and nodone = "1.prems"(7)
    and rd = "1.prems"(8) and lag = "1.prems"(9) and bound = "1.prems"(10)
  show ?case
  proof (cases "now w - startWait < 30000")
    case True
    let ?d = "now w + 100 + nextLag w"
    let ?w' = "sleep 100 w"
    have step: "waitResponseDone startWait w = waitResponseDone startWait ?w'"
      using True rd unc by (subst waitResponseDone.simps) simp
    from sleep_messages [OF l hs st unc sc q, of 100]
    have l2: "listeners ?w' = listeners (listening t w1)" and st2: "settled ?w' \<noteq> None"
      and unc2: "\<not> uncaught ?w'" and cc2: "closeCalls ?w' = closeCalls w"
      and sc2: "script ?w' = messages (dropWhile (due ?d) s)"
      and rd2: "responseDone ?w'
        = (responseDone w \<or> ''response.done'' \<in> ev_type ` snd ` set (takeWhile (due ?d) s))"
      using l st unc by simp_all
    have nd2: "\<not> responseDone ?w'"
      using rd2 rd nodone set_takeWhileD [of _ "due ?d" s] by auto
    have nodone2: "''response.done'' \<notin> ev_type ` snd ` set (dropWhile (due ?d) s)"
      using nodone set_dropWhileD [of _ "due ?d" s] by auto
    have q2: "clientVariant ?w' = GA \<or> (\<forall>te \<in> set (dropWhile (due ?d) s). quiet (snd te))"
      using q sleep_frame [of 100 w] set_dropWhileD [of _ "due ?d" s] by auto
    have lag2: "\<forall>l \<in> set (timerLag ?w'). l \<le> m"
      using lag sleep_frame [of 100 w] by (cases "timerLag w") auto
    have bound2: "now ?w' < startWait + 30000 + 100 + m"
      using True nextLag_bound [OF lag] sleep_frame [of 100 w] by simp
    have cond: "\<not> responseDone w \<and> now w - startWait < 30000" using rd True by simp
    from "1.IH" [OF unc cond l2 hs st2 unc2 sc2 q2 nodone2 nd2 lag2 bound2]
      cc2 sleep_frame [of 100 w]
    show ?thesis unfolding step by simp
  next
    case False
    then have "waitResponseDone startWait w = w"
      by (subst waitResponseDone.simps) simp
    with False rd unc bound show ?thesis by simp
  qed
qed

text \<open>When the completion comes in time: every message up to the first \<open>response.done\<close> is
  available before the deadline.\<close>

lemma waitResponseDone_completes:
  assumes "listeners w = listeners (listening t w1)" and "handshakeOnly w1"
    and "settled w \<noteq> None" and "\<not> uncaught w"
    and "script w = messages (pre @ (td, dn) # post)"
    and "clientVariant w = GA \<or> (\<forall>te \<in> set (pre @ (td, dn) # post). quiet (snd te))"
    and "''response.done'' \<notin> ev_type ` snd ` set pre"
    and "ev_type dn = ''response.done''"
    and "''response.output_audio.delta'' \<notin> ev_type ` snd ` set post"
    and "\<forall>te \<in> set pre. fst te < startWait + 30000" and "td < startWait + 30000"
    and "now w = startWait \<or> now w \<le> fst (hd (pre @ [(td, dn)]))"
    and "\<not> responseDone w"
  shows "responseDone (waitResponseDone startWait w)
    \<and> \<not> uncaught (waitResponseDone startWait w)
    \<and> audioChunks (waitResponseDone startWait w) = audioChunks w @ deltaChunks (map snd pre)
    \<and> closeCalls (waitResponseDone startWait w) = closeCalls w"
  using assms
proof (induction startWait w arbitrary: pre rule: waitResponseDone.induct)
  case (1 startWait w)
  note l = "1.prems"(1) and hs = "1.prems"(2) and st = "1.prems"(3) and unc = "1.prems"(4)
    and sc = "1.prems"(5) and q = "1.prems"(6) and nodone = "1.prems"(7)
    and dn = "1.prems"(8)
    and post = "1.prems"(9) and times = "1.prems"(10) and td = "1.prems"(11)
    and head = "1.prems"(12) and rd = "1.prems"(13)
  have hd_time: "fst (hd (pre @ [(td, dn)])) < startWait + 30000"
    using times td by (cases pre) auto
  have lt: "now w - startWait < 30000"
    using head hd_time by auto
  let ?d = "now w + 100 + nextLag w"
  let ?w2 = "sleep 100 w"
  let ?S = "pre @ (td, dn) # post"
  have step: "waitResponseDone startWait w = waitResponseDone startWait ?w2"
    using lt rd unc by (subst waitResponseDone.simps) simp
  from sleep_messages [OF l hs st unc sc q, of 100]
  have l2: "listeners ?w2 = listeners (listening t w1)" and st2: "settled ?w2 \<noteq> None"
    and unc2: "\<not> uncaught ?w2" and cc2: "closeCalls ?w2 = closeCalls w"
    and sc2: "script ?w2 = messages (dropWhile (due ?d) ?S)"
    and ac2: "audioChunks ?w2 = audioChunks w @ deltaChunks (map snd (takeWhile (due ?d) ?S))"
    and rd2: "responseDone ?w2
        = (responseDone w \<or> ''response.done'' \<in> ev_type ` snd ` set (takeWhile (due ?d) ?S))"
    using l st unc by simp_all
  have now2: "now ?w2 = ?d" and cv2: "clientVariant ?w2 = clientVariant w"
    using sleep_frame [of 100 w] by simp_all
  show ?case
  proof (cases "(\<forall>te \<in> set pre. due ?d te) \<and> td < ?d")
    case True
    then have tw: "takeWhile (due ?d) ?S = pre @ (td, dn) # takeWhile (due ?d) post"
      by (simp add: due_def)
    have "''response.output_audio.delta'' \<notin> ev_type ` set (map snd (takeWhile (due ?d) post))"
      using post set_takeWhileD [of _ "due ?d" post] by auto
    then have nopost: "deltaChunks (map snd (takeWhile (due ?d) post)) = []"
      by (rule deltaChunks_none)
    have done2: "responseDone ?w2" using rd2 dn by (simp add: tw)
    have ac: "audioChunks ?w2 = audioChunks w @ deltaChunks (map snd pre)"
      using ac2 dn nopost by (simp add: tw deltaChunks_append)
    have "waitResponseDone startWait ?w2 = ?w2"
      using done2 by (subst waitResponseDone.simps) simp
    with done2 ac cc2 unc2 show ?thesis unfolding step by simp
  next
    case False
    define pre1 where "pre1 = takeWhile (due ?d) pre"
    define pre2 where "pre2 = dropWhile (due ?d) pre"
    have split: "pre = pre1 @ pre2" by (simp add: pre1_def pre2_def)
    have tw: "takeWhile (due ?d) ?S = pre1" and dw: "dropWhile (due ?d) ?S = pre2 @ (td, dn) # post"
      and hd2: "?d \<le> fst (hd (pre2 @ [(td, dn)]))"
    proof -
      show "takeWhile (due ?d) ?S = pre1"
      proof (cases "\<forall>te \<in> set pre. due ?d te")
        case True
        with False have "\<not> due ?d (td, dn)" by (simp add: due_def)
        moreover have e: "pre1 = pre"
          unfolding pre1_def using True by simp
        ultimately show ?thesis unfolding e using True by simp
      next
        case False
        then show ?thesis by (auto simp: pre1_def)
      qed
      show "dropWhile (due ?d) ?S = pre2 @ (td, dn) # post"
      proof (cases "\<forall>te \<in> set pre. due ?d te")
        case True
        with False have "\<not> due ?d (td, dn)" by (simp add: due_def)
        moreover have e: "pre2 = []"
          unfolding pre2_def using True by simp
        ultimately show ?thesis unfolding e using True by simp
      next
        case False
        then show ?thesis by (auto simp: pre2_def)
      qed
      show "?d \<le> fst (hd (pre2 @ [(td, dn)]))"
      proof (cases "pre2 = []")
        case True
        then have "\<forall>te \<in> set pre. due ?d te"
          by (simp add: pre2_def)
        with False have "\<not> td < ?d" by simp
        with True show ?thesis by simp
      next
        case False
        then have "\<not> due ?d (hd pre2)"
          unfolding pre2_def by (rule hd_dropWhile)
        with False show ?thesis by (simp add: due_def)
      qed
    qed
    have nd1: "''response.done'' \<notin> ev_type ` snd ` set pre1"
      and nd2: "''response.done'' \<notin> ev_type ` snd ` set pre2"
      using nodone unfolding split by auto
    have t2: "\<forall>te \<in> set pre2. fst te < startWait + 30000"
      using times unfolding split by auto
    have q2: "clientVariant ?w2 = GA \<or> (\<forall>te \<in> set (pre2 @ (td, dn) # post). quiet (snd te))"
      using q cv2 unfolding split by auto
    have rd2': "\<not> responseDone ?w2" using rd2 rd nd1 by (simp add: tw)
    have sc2': "script ?w2 = messages (pre2 @ (td, dn) # post)" using sc2 by (simp add: dw)
    have head2: "now ?w2 = startWait \<or> now ?w2 \<le> fst (hd (pre2 @ [(td, dn)]))"
      using hd2 now2 by simp
    have cond: "\<not> responseDone w \<and> now w - startWait < 30000" using rd lt by simp
    from "1.IH" [OF unc cond l2 hs st2 unc2 sc2' q2 nd2 dn post t2 td head2 rd2']
    have "responseDone (waitResponseDone startWait ?w2)
      \<and> \<not> uncaught (waitResponseDone startWait ?w2)
      \<and> audioChunks (waitResponseDone startWait ?w2) = audioChunks ?w2 @ deltaChunks (map snd pre2)
      \<and> closeCalls (waitResponseDone startWait ?w2) = closeCalls ?w2"
      by simp
    moreover have "audioChunks ?w2 = audioChunks w @ deltaChunks (map snd pre1)"
      using ac2 unfolding tw .
    moreover have "deltaChunks (map snd pre) = deltaChunks (map snd pre1) @ deltaChunks (map snd pre2)"
      by (subst split) (simp add: deltaChunks_append)
    ultimately show ?thesis
      unfolding step using cc2 by simp
  qed
qed

text \<open>The synthesis on a session that opens and stays without a completion.\<close>

lemma synthesize_stalls:
  assumes "t \<noteq> []"
    and "createRealtimeClient config (beginSynthesis t w) = (Inr u, w1)"
    and "script w1 = messages s"
    and "''response.done'' \<notin> ev_type ` snd ` set s"
    and "clientVariant w1 = GA \<or> (\<forall>te \<in> set s. quiet (snd te))"
    and "\<forall>l \<in> set (timerLag w1). l \<le> m"
  shows "fst (synthesizeSpeechRealtime config (Some t) voiceName voiceGender w)
           = Inl (Error ''Speech synthesis failed: Synthesis timeout - no response received'')
       \<and> now w1 + 30000 \<le> now (snd (snd (synthesizeSpeechRealtime config (Some t) voiceName voiceGender w)))
       \<and> now (snd (snd (synthesizeSpeechRealtime config (Some t) voiceName voiceGender w)))
           < now w1 + 30000 + 100 + m
       \<and> closeCalls (snd (snd (synthesizeSpeechRealtime config (Some t) voiceName voiceGender w)))
           = closeCalls w1 + 1
       \<and> sent (snd (snd (synthesizeSpeechRealtime config (Some t) voiceName voiceGender w)))
           = sent w @ [ConversationItemCreate t, ResponseCreate]"
proof -
  from createRealtimeClient_resolved [OF assms(2)]
  have hs: "handshakeOnly w1" and st: "settled w1 \<noteq> None" and unc: "\<not> uncaught w1"
    and rd: "\<not> responseDone w1" and snt: "sent w1 = sent w"
    by (simp_all add: beginSynthesis_fields)
  let ?l = "listening t w1"
  let ?w = "waitResponseDone (now w1) ?l"
  have "\<not> responseDone ?w \<and> \<not> uncaught ?w
      \<and> now w1 + 30000 \<le> now ?w \<and> now ?w < now w1 + 30000 + 100 + m
      \<and> closeCalls ?w = closeCalls ?l \<and> sent ?w = sent ?l
      \<and> sockets ?w = sockets ?l \<and> audioChars ?w = audioChars ?l"
    using hs st unc rd assms(3-6)
    by (intro waitResponseDone_never_done [where ?w1.0 = w1 and t = t and s = s])
       (simp_all add: listening_fields)
  then show ?thesis
    using snt
    by (simp add: synthesize_nonempty [OF assms(1)] assms(2) synthesisOnSession_listening
        synthesisFailed_def close_fields listening_fields)
qed





text \<open>
  What the theorem leaves out, on the code. A failure of the transport during the wait
  reaches the \<open>error\<close> listener of the synthesis, which rethrows it into the callback of
  the socket: the process ends, with no timeout error and no \<open>close\<close>. With the SDK's
  client, a provider event of type \<open>error\<close> does the same. And what the provider sends
  together with \<open>session.created\<close> is dispatched before the synthesis has registered its
  listeners: a completion in there is lost, and the synthesis times out.
\<close>

lemma deliver_dead: "uncaught w \<Longrightarrow> deliver es w = w"
  by (induction es) (simp_all add: deliver_def onSocketEvent_def)

lemma fatal_listening:
  assumes l: "listeners w = listeners (listening t w1)" and hs: "handshakeOnly w1"
    and st: "settled w \<noteq> None" and unc: "\<not> uncaught w"
    and fatal: "(\<exists>m. e = SockError m)
      \<or> (clientVariant w = Preview \<and> (\<exists>ev. e = SockMessage ev \<and> ev_type ev = ''error''))"
  shows "onSocketEvent e w = w\<lparr>uncaught := True\<rparr>"
proof -
  have "set (listeners w1 ''error'') \<subseteq> handshakeHandlers"
    using hs by (simp add: handshakeOnly_def)
  from handshake_idle [OF this st]
  have thrown: "forEach (listeners w ''error'') p w = (Some (payloadError p), w)" for p
    by (simp add: l listening_listeners forEach_append)
  from fatal show ?thesis
  proof (elim disjE conjE exE)
    fix m
    assume "e = SockError m"
    with unc thrown [of "SocketError m"] show ?thesis
      by (simp add: onSocketEvent_def onError_def)
  next
    fix ev
    assume "clientVariant w = Preview" and "e = SockMessage ev" and "ev_type ev = ''error''"
    with unc thrown [of "SocketError (sdkErrorText ev)"] show ?thesis
      by (simp add: onSocketEvent_def sdkMessage_def)
  qed
qed

text \<open>The wait for the completion, when the next report is one on which the \<open>error\<close>
  listener of the synthesis throws outside any \<^verbatim>\<open>try\<close>: a failure of the transport, or,
  with the SDK's client, a provider event of type \<open>error\<close>.\<close>

lemma waitResponseDone_fatal:
  assumes "listeners w = listeners (listening t w1)" and "handshakeOnly w1"
    and "settled w \<noteq> None" and "\<not> uncaught w"
    and "script w = (tf, e) # rest"
    and "(\<exists>m. e = SockError m)
      \<or> (clientVariant w = Preview \<and> (\<exists>ev. e = SockMessage ev \<and> ev_type ev = ''error''))"
    and "tf < startWait + 30000"
    and "now w = startWait \<or> now w \<le> tf"
    and "\<not> responseDone w"
  shows "uncaught (waitResponseDone startWait w)
    \<and> closeCalls (waitResponseDone startWait w) = closeCalls w"
  using assms
proof (induction startWait w rule: waitResponseDone.induct)
  case (1 startWait w)
  note l = "1.prems"(1) and hs = "1.prems"(2) and st = "1.prems"(3) and unc = "1.prems"(4)
    and sc = "1.prems"(5) and fatal = "1.prems"(6) and tf = "1.prems"(7)
    and head = "1.prems"(8) and rd = "1.prems"(9)
  have lt: "now w - startWait < 30000" using head tf by auto
  let ?d = "now w + 100 + nextLag w"
  let ?w' = "sleep 100 w"
  have step: "waitResponseDone startWait w = waitResponseDone startWait ?w'"
    using lt rd unc by (subst waitResponseDone.simps) simp
  show ?case
  proof (cases "tf < ?d")
    case True
    let ?w0 = "w\<lparr>timerLag := tl (timerLag w), script := dropWhile (due ?d) (script w)\<rparr>"
    have "onSocketEvent e ?w0 = ?w0\<lparr>uncaught := True\<rparr>"
      using l hs st unc fatal by (intro fatal_listening [where t = t and ?w1.0 = w1]) simp_all
    then have "deliver (e # map snd (takeWhile (due ?d) rest)) ?w0 = ?w0\<lparr>uncaught := True\<rparr>"
      using deliver_dead [of "?w0\<lparr>uncaught := True\<rparr>" "map snd (takeWhile (due ?d) rest)"]
      by (simp add: deliver_def)
    then have "?w' = (?w0\<lparr>uncaught := True\<rparr>)\<lparr>now := ?d\<rparr>"
      using True by (simp add: sleep_def Let_def sc due_def)
    then have dead: "uncaught ?w'" and cc: "closeCalls ?w' = closeCalls w" by simp_all
    from dead have "waitResponseDone startWait ?w' = ?w'"
      by (subst waitResponseDone.simps) simp
    with dead cc show ?thesis unfolding step by simp
  next
    case False
    have "?w' = (w\<lparr>timerLag := tl (timerLag w), script := script w\<rparr>)\<lparr>now := ?d\<rparr>"
      using False by (simp add: sleep_def Let_def sc due_def deliver_def)
    then have l2: "listeners ?w' = listeners (listening t w1)" and st2: "settled ?w' \<noteq> None"
      and unc2: "\<not> uncaught ?w'" and sc2: "script ?w' = (tf, e) # rest"
      and cv2: "clientVariant ?w' = clientVariant w" and rd2: "\<not> responseDone ?w'"
      and now2: "now ?w' = ?d" and cc2: "closeCalls ?w' = closeCalls w"
      using l st unc sc rd by simp_all
    have fatal2: "(\<exists>m. e = SockError m)
      \<or> (clientVariant ?w' = Preview \<and> (\<exists>ev. e = SockMessage ev \<and> ev_type ev = ''error''))"
      using fatal cv2 by simp
    have head2: "now ?w' = startWait \<or> now ?w' \<le> tf" using False now2 by simp
    have cond: "\<not> responseDone w \<and> now w - startWait < 30000" using rd lt by simp
    from "1.IH" [OF unc cond l2 hs st2 unc2 sc2 fatal2 tf head2 rd2] cc2
    show ?thesis unfolding step by simp
  qed
qed

lemma synthesize_fatal_report:
  assumes "t \<noteq> []"
    and "createRealtimeClient config (beginSynthesis t w) = (Inr u, w1)"
    and "script w1 = (tf, e) # rest"
    and "(\<exists>m. e = SockError m)
      \<or> (clientVariant w1 = Preview \<and> (\<exists>ev. e = SockMessage ev \<and> ev_type ev = ''error''))"
    and "tf < now w1 + 30000"
  shows "fst (synthesizeSpeechRealtime config (Some t) voiceName voiceGender w) = Inl ProcessExit
    \<and> closeCalls (snd (snd (synthesizeSpeechRealtime config (Some t) voiceName voiceGender w)))
         = closeCalls w1"
proof -
  from createRealtimeClient_resolved [OF assms(2)]
  have hs: "handshakeOnly w1" and st: "settled w1 \<noteq> None" and unc: "\<not> uncaught w1"
    and rd: "\<not> responseDone w1"
    by (simp_all add: beginSynthesis_fields)
  let ?l = "listening t w1"
  let ?w = "waitResponseDone (now w1) ?l"
  have "uncaught ?w \<and> closeCalls ?w = closeCalls ?l"
    using hs st unc rd assms(3-5)
    by (intro waitResponseDone_fatal [where ?w1.0 = w1 and t = t and tf = tf and e = e
          and rest = rest])
       (simp_all add: listening_fields)
  then show ?thesis
    by (simp add: synthesize_nonempty [OF assms(1)] assms(2) synthesisOnSession_listening
        listening_fields)
qed

lemma brokenSession_opens:
  "(case createRealtimeClient gaConfig (beginSynthesis ''Hello'' brokenSession) of
      (r, w1) \<Rightarrow> (r, script w1, now w1, closeCalls w1, clientVariant w1, timerLag w1))
     = (Inr (), [(130, SockError ''read ECONNRESET'')], 20, 0, GA, [])"
  by code_simp

lemma brokenSession_open:
  "fst (createRealtimeClient gaConfig (beginSynthesis ''Hello'' brokenSession)) = Inr ()"
  "createRealtimeClient gaConfig (beginSynthesis ''Hello'' brokenSession)
     = (Inr (), snd (createRealtimeClient gaConfig (beginSynthesis ''Hello'' brokenSession)))"
  "script (snd (createRealtimeClient gaConfig (beginSynthesis ''Hello'' brokenSession))) = [(130, SockError ''read ECONNRESET'')]"
  "now (snd (createRealtimeClient gaConfig (beginSynthesis ''Hello'' brokenSession))) = 20"
  "closeCalls (snd (createRealtimeClient gaConfig (beginSynthesis ''Hello'' brokenSession))) = 0"
  "clientVariant (snd (createRealtimeClient gaConfig (beginSynthesis ''Hello'' brokenSession))) = GA"
  "timerLag (snd (createRealtimeClient gaConfig (beginSynthesis ''Hello'' brokenSession))) = []"
  using brokenSession_opens by (simp_all add: prod_eq_iff split: prod.splits)

lemma transport_failure_ends_process:
  "fst (synthesizeSpeechRealtime gaConfig (Some ''Hello'') None None brokenSession)
     = Inl ProcessExit
   \<and> closeCalls (snd (snd (synthesizeSpeechRealtime gaConfig (Some ''Hello'') None None
        brokenSession))) = 0"
proof -
  let ?w1 = "snd (createRealtimeClient gaConfig (beginSynthesis ''Hello'' brokenSession))"
  from brokenSession_open
  have h2: "createRealtimeClient gaConfig (beginSynthesis ''Hello'' brokenSession) = (Inr (), ?w1)"
    and h3: "script ?w1 = (130, SockError ''read ECONNRESET'') # []"
    and h5: "130 < now ?w1 + 30000" and cc: "closeCalls ?w1 = 0"
    by simp_all
  from synthesize_fatal_report [OF _ h2 h3 _ h5, of None None] cc show ?thesis by simp
qed

lemma previewErrorSession_opens:
  "(case createRealtimeClient previewConfig (beginSynthesis ''Hello'' previewErrorSession) of
      (r, w1) \<Rightarrow> (r, script w1, now w1, closeCalls w1, clientVariant w1, timerLag w1))
     = (Inr (), [(130, SockMessage ((plainEvent ''error'')\<lparr>ev_error_message := Some ''rate limit''\<rparr>))], 20, 0, Preview, [])"
  by code_simp

lemma previewErrorSession_open:
  "fst (createRealtimeClient previewConfig (beginSynthesis ''Hello'' previewErrorSession)) = Inr ()"
  "createRealtimeClient previewConfig (beginSynthesis ''Hello'' previewErrorSession)
     = (Inr (), snd (createRealtimeClient previewConfig (beginSynthesis ''Hello'' previewErrorSession)))"
  "script (snd (createRealtimeClient previewConfig (beginSynthesis ''Hello'' previewErrorSession))) = [(130, SockMessage ((plainEvent ''error'')\<lparr>ev_error_message := Some ''rate limit''\<rparr>))]"
  "now (snd (createRealtimeClient previewConfig (beginSynthesis ''Hello'' previewErrorSession))) = 20"
  "closeCalls (snd (createRealtimeClient previewConfig (beginSynthesis ''Hello'' previewErrorSession))) = 0"
  "clientVariant (snd (createRealtimeClient previewConfig (beginSynthesis ''Hello'' previewErrorSession))) = Preview"
  "timerLag (snd (createRealtimeClient previewConfig (beginSynthesis ''Hello'' previewErrorSession))) = []"
  using previewErrorSession_opens by (simp_all add: prod_eq_iff split: prod.splits)

lemma preview_error_event_ends_process:
  "fst (synthesizeSpeechRealtime previewConfig (Some ''Hello'') None None previewErrorSession)
     = Inl ProcessExit
   \<and> closeCalls (snd (snd (synthesizeSpeechRealtime previewConfig (Some ''Hello'') None None
        previewErrorSession))) = 0"
proof -
  let ?w1 = "snd (createRealtimeClient previewConfig
      (beginSynthesis ''Hello'' previewErrorSession))"
  let ?ev = "(plainEvent ''error'')\<lparr>ev_error_message := Some ''rate limit''\<rparr>"
  from previewErrorSession_open
  have h2: "createRealtimeClient previewConfig (beginSynthesis ''Hello'' previewErrorSession)
      = (Inr (), ?w1)"
    and h3: "script ?w1 = (130, SockMessage ?ev) # []"
    and h5: "130 < now ?w1 + 30000" and cc: "closeCalls ?w1 = 0"
    and cv: "clientVariant ?w1 = Preview"
    by simp_all
  have h4: "(\<exists>m. SockMessage ?ev = SockError m)
      \<or> (clientVariant ?w1 = Preview
          \<and> (\<exists>ev. SockMessage ?ev = SockMessage ev \<and> ev_type ev = ''error''))"
    using cv by (simp add: plainEvent_def)
  from synthesize_fatal_report [OF _ h2 h3 h4 h5, of None None] cc show ?thesis by simp
qed

lemma hastySession_opens:
  "(case createRealtimeClient gaConfig (beginSynthesis ''Hello'' hastySession) of
      (r, w1) \<Rightarrow> (r, script w1, now w1, closeCalls w1, clientVariant w1, timerLag w1))
     = (Inr (), messages [], 20, 0, GA, [])"
  by code_simp

lemma hastySession_open:
  "fst (createRealtimeClient gaConfig (beginSynthesis ''Hello'' hastySession)) = Inr ()"
  "createRealtimeClient gaConfig (beginSynthesis ''Hello'' hastySession)
     = (Inr (), snd (createRealtimeClient gaConfig (beginSynthesis ''Hello'' hastySession)))"
  "script (snd (createRealtimeClient gaConfig (beginSynthesis ''Hello'' hastySession))) = messages []"
  "now (snd (createRealtimeClient gaConfig (beginSynthesis ''Hello'' hastySession))) = 20"
  "closeCalls (snd (createRealtimeClient gaConfig (beginSynthesis ''Hello'' hastySession))) = 0"
  "clientVariant (snd (createRealtimeClient gaConfig (beginSynthesis ''Hello'' hastySession))) = GA"
  "timerLag (snd (createRealtimeClient gaConfig (beginSynthesis ''Hello'' hastySession))) = []"
  using hastySession_opens by (simp_all add: prod_eq_iff split: prod.splits)

lemma same_read_completion_is_lost:
  "fst (synthesizeSpeechRealtime gaConfig (Some ''Hello'') None None hastySession)
     = Inl (Error ''Speech synthesis failed: Synthesis timeout - no response received'')"
proof -
  let ?w1 = "snd (createRealtimeClient gaConfig (beginSynthesis ''Hello'' hastySession))"
  from hastySession_open
  have h2: "createRealtimeClient gaConfig (beginSynthesis ''Hello'' hastySession) = (Inr (), ?w1)"
    and h3: "script ?w1 = messages []" and h5: "clientVariant ?w1 = GA \<or> (\<forall>te \<in> set []. quiet (snd te))"
    and h6: "\<forall>l \<in> set (timerLag ?w1). l \<le> 0"
    by simp_all
  from synthesize_stalls [OF _ h2 h3 _ h5 h6, of None None] show ?thesis by simp
qed

text \<open>The synthesis on a session that opens and completes in time: the result is the frame
  of the chunks delivered before the completion, in the order of delivery.\<close>

lemma synthesize_completes:
  assumes "t \<noteq> []"
    and "createRealtimeClient config (beginSynthesis t w) = (Inr u, w1)"
    and "script w1 = messages (pre @ (td, dn) # post)"
    and "clientVariant w1 = GA \<or> (\<forall>te \<in> set (pre @ (td, dn) # post). quiet (snd te))"
    and "''response.done'' \<notin> ev_type ` snd ` set pre"
    and "ev_type dn = ''response.done''"
    and "''response.output_audio.delta'' \<notin> ev_type ` snd ` set post"
    and "\<forall>te \<in> set pre. fst te < now w1 + 30000" and "td < now w1 + 30000"
  shows "fst (synthesizeSpeechRealtime config (Some t) voiceName voiceGender w)
           = (case wavFrame (concat (deltaChunks (map snd pre))) 24000 1 16 of
                Inl e \<Rightarrow> Inl (synthesisFailed e)
              | Inr audioBuffer \<Rightarrow> Inr audioBuffer)
       \<and> closeCalls (snd (snd (synthesizeSpeechRealtime config (Some t) voiceName voiceGender w)))
           = closeCalls w1 + 1"
proof -
  from createRealtimeClient_resolved [OF assms(2)]
  have hs: "handshakeOnly w1" and st: "settled w1 \<noteq> None" and unc: "\<not> uncaught w1"
    and rd: "\<not> responseDone w1" and ac: "audioChunks w1 = []"
    by (simp_all add: beginSynthesis_fields)
  let ?l = "listening t w1"
  let ?w = "waitResponseDone (now w1) ?l"
  have "responseDone ?w \<and> \<not> uncaught ?w
      \<and> audioChunks ?w = audioChunks ?l @ deltaChunks (map snd pre)
      \<and> closeCalls ?w = closeCalls ?l"
    using hs st unc rd assms(3-9)
    by (intro waitResponseDone_completes [where ?w1.0 = w1 and t = t and td = td and dn = dn
          and post = post])
       (simp_all add: listening_fields)
  then have "responseDone ?w" and "\<not> uncaught ?w"
    and "audioChunks ?w = deltaChunks (map snd pre)"
    and "closeCalls ?w = closeCalls w1"
    using ac by (simp_all add: listening_fields)
  then show ?thesis
    by (simp add: synthesize_nonempty [OF assms(1)] assms(2) synthesisOnSession_listening
        close_fields split: sum.splits)
qed

text \<open>The frame the service builds: the header for 24000 Hz, one channel, 16 bits.\<close>

lemma wavFrame_default:
  assumes "length pcm \<le> 4294967259"
  shows "wavFrame pcm 24000 1 16 =
     Inr (ascii ''RIFF'' @ le_bytes 4 (36 + length pcm) @ ascii ''WAVE'' @ ascii ''fmt '' @
          [16, 0, 0, 0, 1, 0, 1, 0, 192, 93, 0, 0, 128, 187, 0, 0, 2, 0, 16, 0] @
          ascii ''data'' @ le_bytes 4 (length pcm) @ pcm)"
proof -
  have "createWavHeader (length pcm) 24000 1 16 =
     Inr (ascii ''RIFF'' @ le_bytes 4 (36 + length pcm) @ ascii ''WAVE'' @ ascii ''fmt '' @
          le_bytes 4 16 @ le_bytes 2 1 @ le_bytes 2 (nat 1) @
          le_bytes 4 (nat 24000) @ le_bytes 4 (nat 48000) @
          le_bytes 2 (nat 2) @ le_bytes 2 (nat 16) @
          ascii ''data'' @ le_bytes 4 (length pcm))"
    using assms by (intro createWavHeader_closed) simp_all
  then show ?thesis
    by (simp add: wavFrame_def andThen_def le_bytes4 le_bytes2)
qed

text \<open>
  C2. Let the session open, at the moment \<open>now w1\<close>, and let the transport then deliver
  three audio-delta events, whose base64 payloads decode to 100, 200 and 50 bytes, and then
  a completion event, each after the session has opened and before the 30 s deadline of the
  wait (at any times otherwise, with any timer lags). Then the synthesis of a non-empty text
  succeeds, and what it returns is the 44 byte WAV header for 350 bytes of PCM data at
  24000 Hz, mono, 16 bits (\<open>RIFF\<close>, the size 386, \<open>WAVE\<close>, the \<open>fmt\<close> chunk, \<open>data\<close>, the
  size 350) followed by exactly the three decoded chunks in the order of their delivery:
  350 bytes, none lost, none repeated. The session's \<open>close\<close> has been called once.
\<close>

theorem synthesize_three_chunks:
  assumes "t \<noteq> []"
    and "createRealtimeClient config (beginSynthesis t w) = (Inr u, w1)"
    and "script w1 = [(t1, SockMessage e1), (t2, SockMessage e2), (t3, SockMessage e3),
                      (t4, SockMessage e4)]"
    and "ev_type e1 = ''response.output_audio.delta''" and "ev_delta e1 = Some d1"
    and "ev_type e2 = ''response.output_audio.delta''" and "ev_delta e2 = Some d2"
    and "ev_type e3 = ''response.output_audio.delta''" and "ev_delta e3 = Some d3"
    and "ev_type e4 = ''response.done''"
    and "length (base64_decode d1) = 100" and "length (base64_decode d2) = 200"
    and "length (base64_decode d3) = 50"
    and "now w1 < t1" and "now w1 < t2" and "now w1 < t3" and "now w1 < t4"
    and "t1 < now w1 + 30000" and "t2 < now w1 + 30000" and "t3 < now w1 + 30000"
    and "t4 < now w1 + 30000"
  shows "fst (synthesizeSpeechRealtime config (Some t) voiceName voiceGender w)
          = Inr (ascii ''RIFF'' @ [130, 1, 0, 0] @ ascii ''WAVE'' @ ascii ''fmt '' @
                 [16, 0, 0, 0, 1, 0, 1, 0, 192, 93, 0, 0, 128, 187, 0, 0, 2, 0, 16, 0] @
                 ascii ''data'' @ [94, 1, 0, 0] @
                 base64_decode d1 @ base64_decode d2 @ base64_decode d3)
     \<and> length (ascii ''RIFF'' @ [130, 1, 0, 0] @ ascii ''WAVE'' @ ascii ''fmt '' @
                 [16, 0, 0, 0, 1, 0, 1, 0, 192, 93, 0, 0, 128, 187, 0, 0, 2, 0, 16, 0] @
                 ascii ''data'' @ [94, 1, 0, 0 :: byte]) = 44
     \<and> length (base64_decode d1 @ base64_decode d2 @ base64_decode d3) = 350
     \<and> closeCalls (snd (snd (synthesizeSpeechRealtime config (Some t) voiceName voiceGender w)))
          = closeCalls w1 + 1"
proof -
  let ?pre = "[(t1, e1), (t2, e2), (t3, e3)]"
  let ?pcm = "base64_decode d1 @ base64_decode d2 @ base64_decode d3"
  have sc: "script w1 = messages (?pre @ (t4, e4) # [])"
    by (simp add: assms(3) messages_def)
  have q: "clientVariant w1 = GA \<or> (\<forall>te \<in> set (?pre @ (t4, e4) # []). quiet (snd te))"
    by (simp add: quiet_def assms(4-10))
  have chunks: "concat (deltaChunks (map snd ?pre)) = ?pcm"
    by (simp add: assms(4-9))
  have len: "length ?pcm = 350" by (simp add: assms(11-13))
  from synthesize_completes [OF assms(1,2) sc q, of voiceName voiceGender]
    assms(4,6,8,10,18-21)
  have res: "fst (synthesizeSpeechRealtime config (Some t) voiceName voiceGender w)
      = (case wavFrame ?pcm 24000 1 16 of
           Inl e \<Rightarrow> Inl (synthesisFailed e) | Inr audioBuffer \<Rightarrow> Inr audioBuffer)"
    and cl: "closeCalls (snd (snd (synthesizeSpeechRealtime config (Some t) voiceName voiceGender w)))
          = closeCalls w1 + 1"
    unfolding chunks by simp_all
  have "wavFrame ?pcm 24000 1 16 =
     Inr (ascii ''RIFF'' @ le_bytes 4 (36 + length ?pcm) @ ascii ''WAVE'' @ ascii ''fmt '' @
          [16, 0, 0, 0, 1, 0, 1, 0, 192, 93, 0, 0, 128, 187, 0, 0, 2, 0, 16, 0] @
          ascii ''data'' @ le_bytes 4 (length ?pcm) @ ?pcm)"
    by (rule wavFrame_default) (simp add: assms(11-13))
  then have frame: "wavFrame ?pcm 24000 1 16 =
     Inr (ascii ''RIFF'' @ [130, 1, 0, 0] @ ascii ''WAVE'' @ ascii ''fmt '' @
          [16, 0, 0, 0, 1, 0, 1, 0, 192, 93, 0, 0, 128, 187, 0, 0, 2, 0, 16, 0] @
          ascii ''data'' @ [94, 1, 0, 0] @ ?pcm)"
    unfolding len by (simp add: le_bytes4)
  have hl: "length (ascii ''RIFF'' @ [130, 1, 0, 0] @ ascii ''WAVE'' @ ascii ''fmt '' @
                 [16, 0, 0, 0, 1, 0, 1, 0, 192, 93, 0, 0, 128, 187, 0, 0, 2, 0, 16, 0] @
                 ascii ''data'' @ [94, 1, 0, 0 :: byte]) = 44"
    by (simp add: ascii_def)
  from res frame hl len cl show ?thesis by simp
qed

text \<open>
  C10. Let the session open, at the moment \<open>now w1\<close>, and let the transport then deliver
  provider events among which there is a completion event, it and the events before it
  available after the session has opened and before the 30 s deadline of the wait, and no
  audio-delta event at all. (With the SDK's client of the Preview branch, let none of the
  events be of type \<open>error\<close>, on which the process would end.) Then the synthesis of a
  non-empty text succeeds and returns exactly the 44 bytes of the WAV header for no data
  (\<open>RIFF\<close>, the size 36, \<open>WAVE\<close>, the \<open>fmt\<close> chunk, \<open>data\<close>, the size 0): the length field at
  offset 40 is 0. The empty audio is not an error.
\<close>

theorem synthesize_no_audio:
  assumes "t \<noteq> []"
    and "createRealtimeClient config (beginSynthesis t w) = (Inr u, w1)"
    and "script w1 = messages (pre @ (td, dn) # post)"
    and "''response.done'' \<notin> ev_type ` snd ` set pre"
    and "ev_type dn = ''response.done''"
    and "''response.output_audio.delta'' \<notin> ev_type ` snd ` set pre"
    and "''response.output_audio.delta'' \<notin> ev_type ` snd ` set post"
    and "clientVariant w1 = Preview \<Longrightarrow> ''error'' \<notin> ev_type ` snd ` set (pre @ post)"
    and "\<forall>te \<in> set pre. now w1 < fst te \<and> fst te < now w1 + 30000"
    and "now w1 < td" and "td < now w1 + 30000"
  shows "\<exists>header. fst (synthesizeSpeechRealtime config (Some t) voiceName voiceGender w) = Inr header
     \<and> header = ascii ''RIFF'' @ [36, 0, 0, 0] @ ascii ''WAVE'' @ ascii ''fmt '' @
                 [16, 0, 0, 0, 1, 0, 1, 0, 192, 93, 0, 0, 128, 187, 0, 0, 2, 0, 16, 0] @
                 ascii ''data'' @ [0, 0, 0, 0]
     \<and> createWavHeader 0 24000 1 16 = Inr header
     \<and> length header = 44 \<and> readUInt32LE header 40 = 0"
proof -
  define header :: buffer where "header = ascii ''RIFF'' @ [36, 0, 0, 0] @ ascii ''WAVE'' @ ascii ''fmt '' @
                 [16, 0, 0, 0, 1, 0, 1, 0, 192, 93, 0, 0, 128, 187, 0, 0, 2, 0, 16, 0] @
                 ascii ''data'' @ [0, 0, 0, 0]"
  have "''response.output_audio.delta'' \<notin> ev_type ` set (map snd pre)"
    using assms(6) by (simp add: image_image)
  then have chunks: "concat (deltaChunks (map snd pre)) = []"
    by (simp add: deltaChunks_none)
  have q: "clientVariant w1 = GA \<or> (\<forall>te \<in> set (pre @ (td, dn) # post). quiet (snd te))"
  proof (cases "clientVariant w1")
    case GA
    then show ?thesis by simp
  next
    case Preview
    from assms(8) [OF Preview]
    have noerr: "ev_type (snd te) \<noteq> ''error''" if "te \<in> set pre \<union> set post" for te
      using that by force
    have nodelta: "ev_type (snd te) \<noteq> ''response.output_audio.delta''"
      if "te \<in> set pre \<union> set post" for te
      using that assms(6,7) by force
    from noerr nodelta assms(5) show ?thesis
      by (auto simp: quiet_def)
  qed
  have times: "\<forall>te \<in> set pre. fst te < now w1 + 30000" using assms(9) by simp
  from synthesize_completes [OF assms(1-3) q assms(4,5,7) times assms(11), of voiceName voiceGender]
  have res: "fst (synthesizeSpeechRealtime config (Some t) voiceName voiceGender w)
      = (case wavFrame [] 24000 1 16 of
           Inl e \<Rightarrow> Inl (synthesisFailed e) | Inr audioBuffer \<Rightarrow> Inr audioBuffer)"
    unfolding chunks by simp
  from wavFrame_default [of "[]"]
  have frame: "wavFrame [] 24000 1 16 = Inr header"
    by (simp add: le_bytes4 header_def)
  then have hdr: "createWavHeader 0 24000 1 16 = Inr header"
    by (simp add: wavFrame_def andThen_def split: sum.splits)
  have len: "length header = 44" by (simp add: header_def ascii_def)
  have e: "header = take 40 header @ le_bytes 4 0 @ []"
    by (simp add: header_def ascii_def le_bytes4)
  have "readUInt32LE header 40 = 0"
    by (subst e, rule readUInt32LE_le_bytes) (use len in simp_all)
  with res frame hdr len show ?thesis
    unfolding header_def by simp
qed

lemma threeChunkSession_opens:
  "(case createRealtimeClient gaConfig (beginSynthesis ''Hello'' threeChunkSession) of
      (r, w1) \<Rightarrow> (r, script w1, now w1, closeCalls w1, clientVariant w1, timerLag w1))
     = (Inr (), [(130, SockMessage (audioDelta chunk100)),
        (250, SockMessage (audioDelta chunk200)),
        (260, SockMessage (audioDelta chunk50)),
        (300, SockMessage (plainEvent ''response.done''))], 20, 0, GA, [])"
  by code_simp

lemma threeChunkSession_open:
  "fst (createRealtimeClient gaConfig (beginSynthesis ''Hello'' threeChunkSession)) = Inr ()"
  "createRealtimeClient gaConfig (beginSynthesis ''Hello'' threeChunkSession)
     = (Inr (), snd (createRealtimeClient gaConfig (beginSynthesis ''Hello'' threeChunkSession)))"
  "script (snd (createRealtimeClient gaConfig (beginSynthesis ''Hello'' threeChunkSession))) = [(130, SockMessage (audioDelta chunk100)),
        (250, SockMessage (audioDelta chunk200)),
        (260, SockMessage (audioDelta chunk50)),
        (300, SockMessage (plainEvent ''response.done''))]"
  "now (snd (createRealtimeClient gaConfig (beginSynthesis ''Hello'' threeChunkSession))) = 20"
  "closeCalls (snd (createRealtimeClient gaConfig (beginSynthesis ''Hello'' threeChunkSession))) = 0"
  "clientVariant (snd (createRealtimeClient gaConfig (beginSynthesis ''Hello'' threeChunkSession))) = GA"
  "timerLag (snd (createRealtimeClient gaConfig (beginSynthesis ''Hello'' threeChunkSession))) = []"
  using threeChunkSession_opens by (simp_all add: prod_eq_iff split: prod.splits)

lemma chunk_lengths:
  "length (base64_decode chunk100) = 100" "length (base64_decode chunk200) = 200"
  "length (base64_decode chunk50) = 50"
  by code_simp+

theorem synthesize_three_chunks_witness:
  "fst (synthesizeSpeechRealtime gaConfig (Some ''Hello'') None None threeChunkSession)
          = Inr (ascii ''RIFF'' @ [130, 1, 0, 0] @ ascii ''WAVE'' @ ascii ''fmt '' @
                 [16, 0, 0, 0, 1, 0, 1, 0, 192, 93, 0, 0, 128, 187, 0, 0, 2, 0, 16, 0] @
                 ascii ''data'' @ [94, 1, 0, 0] @
                 base64_decode chunk100 @ base64_decode chunk200 @ base64_decode chunk50)
     \<and> length (base64_decode chunk100 @ base64_decode chunk200 @ base64_decode chunk50) = 350"
proof -
  let ?w1 = "snd (createRealtimeClient gaConfig (beginSynthesis ''Hello'' threeChunkSession))"
  have h1: "''Hello'' \<noteq> []" by simp
  have h2: "createRealtimeClient gaConfig (beginSynthesis ''Hello'' threeChunkSession) = (Inr (), ?w1)"
    by (rule threeChunkSession_open(2))
  have "fst (synthesizeSpeechRealtime gaConfig (Some ''Hello'') None None threeChunkSession)
          = Inr (ascii ''RIFF'' @ [130, 1, 0, 0] @ ascii ''WAVE'' @ ascii ''fmt '' @
                 [16, 0, 0, 0, 1, 0, 1, 0, 192, 93, 0, 0, 128, 187, 0, 0, 2, 0, 16, 0] @
                 ascii ''data'' @ [94, 1, 0, 0] @
                 base64_decode chunk100 @ base64_decode chunk200 @ base64_decode chunk50)
     \<and> length (ascii ''RIFF'' @ [130, 1, 0, 0] @ ascii ''WAVE'' @ ascii ''fmt '' @
                 [16, 0, 0, 0, 1, 0, 1, 0, 192, 93, 0, 0, 128, 187, 0, 0, 2, 0, 16, 0] @
                 ascii ''data'' @ [94, 1, 0, 0 :: byte]) = 44
     \<and> length (base64_decode chunk100 @ base64_decode chunk200 @ base64_decode chunk50) = 350
     \<and> closeCalls (snd (snd (synthesizeSpeechRealtime gaConfig (Some ''Hello'') None None
          threeChunkSession))) = closeCalls ?w1 + 1"
    by (rule synthesize_three_chunks [OF h1 h2 threeChunkSession_open(3)])
       (simp_all add: audioDelta_def plainEvent_def chunk_lengths threeChunkSession_open(4))
  then show ?thesis by simp
qed

lemma noAudioSession_opens:
  "(case createRealtimeClient gaConfig (beginSynthesis ''Hello'' noAudioSession) of
      (r, w1) \<Rightarrow> (r, script w1, now w1, closeCalls w1, clientVariant w1, timerLag w1))
     = (Inr (), messages ([(130, plainEvent ''response.created'')]
         @ (200, plainEvent ''response.done'') # [(210, plainEvent ''rate_limits.updated'')]), 20, 0, GA, [])"
  by code_simp

lemma noAudioSession_open:
  "fst (createRealtimeClient gaConfig (beginSynthesis ''Hello'' noAudioSession)) = Inr ()"
  "createRealtimeClient gaConfig (beginSynthesis ''Hello'' noAudioSession)
     = (Inr (), snd (createRealtimeClient gaConfig (beginSynthesis ''Hello'' noAudioSession)))"
  "script (snd (createRealtimeClient gaConfig (beginSynthesis ''Hello'' noAudioSession))) = messages ([(130, plainEvent ''response.created'')]
         @ (200, plainEvent ''response.done'') # [(210, plainEvent ''rate_limits.updated'')])"
  "now (snd (createRealtimeClient gaConfig (beginSynthesis ''Hello'' noAudioSession))) = 20"
  "closeCalls (snd (createRealtimeClient gaConfig (beginSynthesis ''Hello'' noAudioSession))) = 0"
  "clientVariant (snd (createRealtimeClient gaConfig (beginSynthesis ''Hello'' noAudioSession))) = GA"
  "timerLag (snd (createRealtimeClient gaConfig (beginSynthesis ''Hello'' noAudioSession))) = []"
  using noAudioSession_opens by (simp_all add: prod_eq_iff split: prod.splits)

theorem synthesize_no_audio_witness:
  "\<exists>header. fst (synthesizeSpeechRealtime gaConfig (Some ''Hello'') None None noAudioSession) = Inr header
     \<and> header = ascii ''RIFF'' @ [36, 0, 0, 0] @ ascii ''WAVE'' @ ascii ''fmt '' @
                 [16, 0, 0, 0, 1, 0, 1, 0, 192, 93, 0, 0, 128, 187, 0, 0, 2, 0, 16, 0] @
                 ascii ''data'' @ [0, 0, 0, 0]
     \<and> createWavHeader 0 24000 1 16 = Inr header
     \<and> length header = 44 \<and> readUInt32LE header 40 = 0"
proof -
  let ?w1 = "snd (createRealtimeClient gaConfig (beginSynthesis ''Hello'' noAudioSession))"
  have h1: "''Hello'' \<noteq> []" by simp
  have h2: "createRealtimeClient gaConfig (beginSynthesis ''Hello'' noAudioSession) = (Inr (), ?w1)"
    by (rule noAudioSession_open(2))
  show ?thesis
    by (rule synthesize_no_audio [OF h1 h2 noAudioSession_open(3)])
       (simp_all add: plainEvent_def noAudioSession_open(4))
qed



subsection \<open>Recognition: the wait for the configuration\<close>

text \<open>No \<open>session.updated\<close> among the messages still to come: the configuration flag stays.\<close>

lemma sleep_sessionConfigured_stays:
  assumes "onlyUnder SttSessionUpdated ''session.updated'' w"
    and "''session.updated'' \<notin> set (messageTypes (script w))"
  shows "sessionConfigured (sleep ms w) = sessionConfigured w
    \<and> onlyUnder SttSessionUpdated ''session.updated'' (sleep ms w)
    \<and> ''session.updated'' \<notin> set (messageTypes (script (sleep ms w)))"
proof -
  let ?d = "now w + ms + nextLag w"
  let ?w1 = "w\<lparr>timerLag := tl (timerLag w), script := dropWhile (due ?d) (script w)\<rparr>"
  have only1: "onlyUnder SttSessionUpdated ''session.updated'' ?w1"
    using assms(1) by (simp add: onlyUnder_def)
  have es: "''session.updated'' \<notin> set (eventTypes (map snd (takeWhile (due ?d) (script w))))"
    using assms(2) messageTypes_takeWhile [of "due ?d" "script w"]
    by (auto simp: messageTypes_def)
  have "sessionConfigured (deliver (map snd (takeWhile (due ?d) (script w))) ?w1)
        = sessionConfigured ?w1
      \<and> onlyUnder SttSessionUpdated ''session.updated''
          (deliver (map snd (takeWhile (due ?d) (script w))) ?w1)"
    by (rule deliver_untouched [where hw = SttSessionUpdated and key = "''session.updated''",
          OF sessionConfigured_writer _ _ _ _ _ _ _ _ _ only1 es])
       (simp_all add: settle_fields close_fields on_fields)
  moreover have "''session.updated'' \<notin> set (messageTypes (script (sleep ms w)))"
    using assms(2) messageTypes_dropWhile [of "due ?d" "script w"] sleep_frame [of ms w]
    by auto
  ultimately show ?thesis
    by (simp add: sleep_def Let_def onlyUnder_def)
qed

lemma waitSessionConfigured_returns:
  assumes "waitSessionConfigured w = Some w'"
  shows "\<not> (onlyUnder SttSessionUpdated ''session.updated'' w
            \<and> ''session.updated'' \<notin> set (messageTypes (script w))
            \<and> \<not> sessionConfigured w)"
proof (rule waitSessionConfigured.raw_induct
    [where P = "\<lambda>w y. \<not> (onlyUnder SttSessionUpdated ''session.updated'' w
            \<and> ''session.updated'' \<notin> set (messageTypes (script w))
            \<and> \<not> sessionConfigured w)" and w = w and y = w'])
  show "waitSessionConfigured w = Some w'" by fact
next
  fix wait v y
  assume IH: "\<And>x y. wait x = Some y \<Longrightarrow>
      \<not> (onlyUnder SttSessionUpdated ''session.updated'' x
            \<and> ''session.updated'' \<notin> set (messageTypes (script x))
            \<and> \<not> sessionConfigured x)"
    and eq: "(if uncaught v then None
              else if \<not> sessionConfigured v then wait (sleep 50 v) else Some v) = Some y"
  show "\<not> (onlyUnder SttSessionUpdated ''session.updated'' v
            \<and> ''session.updated'' \<notin> set (messageTypes (script v))
            \<and> \<not> sessionConfigured v)"
  proof
    assume inv: "onlyUnder SttSessionUpdated ''session.updated'' v
            \<and> ''session.updated'' \<notin> set (messageTypes (script v))
            \<and> \<not> sessionConfigured v"
    with eq have "wait (sleep 50 v) = Some y" by (simp split: if_splits)
    from IH [OF this] sleep_sessionConfigured_stays [of v 50] inv
    show False by simp
  qed
qed

lemma waitSessionConfigured_never_returns:
  assumes "onlyUnder SttSessionUpdated ''session.updated'' w"
    and "''session.updated'' \<notin> set (messageTypes (script w))"
    and "\<not> sessionConfigured w"
  shows "waitSessionConfigured w = None"
proof (cases "waitSessionConfigured w")
  case None
  then show ?thesis .
next
  case (Some w')
  from waitSessionConfigured_returns [OF Some] assms show ?thesis by simp
qed

text \<open>
  C7, on the code. Let the session open, and let no \<open>session.updated\<close> be among the
  messages the transport delivers from then on; the service never asks for one, since the
  session configuration sends nothing. Then the recognition of a non-empty audio input
  does not return: it stays in the wait for the configuration, which has no deadline, and
  reaches neither the commands nor the 10 s wait for the transcript.
\<close>

theorem recognize_never_returns:
  assumes "a \<noteq> []"
    and "createRealtimeClient config (w\<lparr>transcriptText := Some [], sessionConfigured := False\<rparr>)
           = (Inr u, w1)"
    and "''session.updated'' \<notin> set (messageTypes (script w1))"
  shows "recognizeSpeechRealtime config (Some a) w = None"
proof -
  from createRealtimeClient_resolved [OF assms(2)]
  have hs: "handshakeOnly w1" and sc: "\<not> sessionConfigured w1"
    by simp_all
  let ?l = "on ''conversation.item.input_audio_transcription.completed'' SttTranscription
              (on ''session.updated'' SttSessionUpdated (on ''error'' SttError w1))"
  have nowhere: "SttSessionUpdated \<notin> set (listeners w1 k)" for k
    using hs by (auto simp: handshakeOnly_def handshakeHandlers_def)
  have only: "onlyUnder SttSessionUpdated ''session.updated'' ?l"
    using nowhere unfolding onlyUnder_def by (simp add: on_def)
  have "waitSessionConfigured ?l = None"
    using only assms(3) sc
    by (intro waitSessionConfigured_never_returns) (simp_all add: on_fields)
  then have "recognitionOnSession a w1 = None"
    by (simp add: recognitionOnSession_def configureRealtimeSession_def)
  with assms(1,2) show ?thesis
    by (simp add: recognizeSpeechRealtime_def)
qed

lemma openOnlySession_opens:
  "(case createRealtimeClient gaConfig (openOnlySession\<lparr>transcriptText := Some [], sessionConfigured := False\<rparr>) of
      (r, w1) \<Rightarrow> (r, script w1, now w1, closeCalls w1, clientVariant w1, timerLag w1))
     = (Inr (), [], 20, 0, GA, [])"
  by code_simp

lemma openOnlySession_open:
  "fst (createRealtimeClient gaConfig (openOnlySession\<lparr>transcriptText := Some [], sessionConfigured := False\<rparr>)) = Inr ()"
  "createRealtimeClient gaConfig (openOnlySession\<lparr>transcriptText := Some [], sessionConfigured := False\<rparr>)
     = (Inr (), snd (createRealtimeClient gaConfig (openOnlySession\<lparr>transcriptText := Some [], sessionConfigured := False\<rparr>)))"
  "script (snd (createRealtimeClient gaConfig (openOnlySession\<lparr>transcriptText := Some [], sessionConfigured := False\<rparr>))) = []"
  "now (snd (createRealtimeClient gaConfig (openOnlySession\<lparr>transcriptText := Some [], sessionConfigured := False\<rparr>))) = 20"
  "closeCalls (snd (createRealtimeClient gaConfig (openOnlySession\<lparr>transcriptText := Some [], sessionConfigured := False\<rparr>))) = 0"
  "clientVariant (snd (createRealtimeClient gaConfig (openOnlySession\<lparr>transcriptText := Some [], sessionConfigured := False\<rparr>))) = GA"
  "timerLag (snd (createRealtimeClient gaConfig (openOnlySession\<lparr>transcriptText := Some [], sessionConfigured := False\<rparr>))) = []"
  using openOnlySession_opens by (simp_all add: prod_eq_iff split: prod.splits)

theorem recognize_never_returns_witness:
  "recognizeSpeechRealtime gaConfig (Some ''AAAA'') openOnlySession = None"
proof -
  let ?w0 = "openOnlySession\<lparr>transcriptText := Some [], sessionConfigured := False\<rparr>"
  have h1: "''AAAA'' \<noteq> []" by simp
  have h2: "createRealtimeClient gaConfig ?w0 = (Inr (), snd (createRealtimeClient gaConfig ?w0))"
    by (rule openOnlySession_open(2))
  have h3: "''session.updated'' \<notin> set (messageTypes (script (snd (createRealtimeClient gaConfig ?w0))))"
    by (simp add: openOnlySession_open(3) messageTypes_def eventTypes_def)
  from recognize_never_returns [OF h1 h2 h3] show ?thesis .
qed



lemma isGA_preview: "isGAModel ''gpt-4o-realtime-preview'' = False"
  by (simp add: isGAModel_def)

lemma isGA_default: "isGAModel ''gpt-realtime'' = True"
  by (simp add: isGAModel_def sublist_code(3))

subsection \<open>The handshake that never completes\<close>

text \<open>
  C5, on the code. With nothing delivered, \<^verbatim>\<open>createRealtimeClient\<close> fails at the 10 s
  deadline in both branches, never having resolved. The GA branch has closed its socket by
  then (twice, the socket never having opened: the timer's \<^verbatim>\<open>close()\<close> brings an
  \<open>error\<close> report, on which the promise's listener closes again; once, had it opened). The
  Preview branch has created a transport and has closed nothing; nor does the caller, whose
  \<^verbatim>\<open>connection\<close> is still \<^verbatim>\<open>null\<close> in its \<^verbatim>\<open>finally\<close>.
\<close>

theorem open_timeout_preview_keeps_transport:
  "fst (createRealtimeClient previewConfig idle) = Inl (Error ''WebSocket connection timeout'')
   \<and> now (snd (createRealtimeClient previewConfig idle)) = 10000
   \<and> sockets (snd (createRealtimeClient previewConfig idle)) = 1
   \<and> closeCalls (snd (createRealtimeClient previewConfig idle)) = 0
   \<and> fst (synthesizeSpeechRealtime previewConfig (Some ''Hello'') None None idle)
       = Inl (Error ''Speech synthesis failed: WebSocket connection timeout'')
   \<and> closeCalls (snd (snd (synthesizeSpeechRealtime previewConfig (Some ''Hello'') None None idle)))
       = 0
   \<and> fst (createRealtimeClient gaConfig idle)
       = Inl (Error ''WebSocket connection timeout - did not receive session.created'')
   \<and> now (snd (createRealtimeClient gaConfig idle)) = 10000
   \<and> sockets (snd (createRealtimeClient gaConfig idle)) = 1
   \<and> closeCalls (snd (createRealtimeClient gaConfig idle)) = 2
   \<and> fst (createRealtimeClient gaConfig (idle\<lparr>script := [(5, SockOpen)]\<rparr>))
       = Inl (Error ''WebSocket connection timeout - did not receive session.created'')
   \<and> closeCalls (snd (createRealtimeClient gaConfig (idle\<lparr>script := [(5, SockOpen)]\<rparr>))) = 1"
  by (simp add: synthesizeSpeechRealtime_def beginSynthesis_def recordAudioChars_def
      synthesisFailed_def createRealtimeClient_def previewConfig_def gaConfig_def
      getRealtimeConfig_def isGA_preview isGA_default idle_def nextLag_def on_def
      openTimeout_def onSocketEvent_def onError_def onOpen_def settle_def close_def Let_def)

end
